(* ===== verification/Prelude.thy ===== *)
theory Prelude
  imports Main "HOL-Library.Word" "HOL-Library.Sublist"
begin

text \<open>
  Shared vocabulary of the development.

  \<^item> Go's data: \<open>[]byte\<close> is \<open>bytes\<close>, a Go \<open>string\<close> (a byte sequence) is \<open>string\<close>,
    \<open>time.Time\<close> is \<open>gotime\<close>, nanoseconds relative to the Unix epoch, and
    \<open>time.Duration\<close> is \<open>duration\<close>, a number of nanoseconds.
  \<^item> The part of the Go standard library that several components use: \<open>strings.HasPrefix\<close>
    and its relatives, \<open>binary.BigEndian\<close>, the \<open>int64\<close> wrap-around, \<open>time.Unix\<close>,
    \<open>Time.Sub\<close> with its saturation, deletion of an element of a slice, a send on a
    buffered channel that gives up when the buffer is full.
  \<^item> The collections \<open>go_simps\<close> (defining equations that proofs unfold) and
    \<open>inv_intros\<close> (introduction rules for invariants).
\<close>

named_theorems go_simps \<open>definitions unfolded by the component proofs\<close>
named_theorems inv_intros \<open>operations preserve their component's invariant\<close>

section \<open>Types\<close>

type_synonym byte = "8 word"
type_synonym bytes = "byte list"
type_synonym gotime = int
type_synonym duration = int
type_synonym peer_id = string

section \<open>Time\<close>

definition Millisecond :: duration where
  "Millisecond = 1000000"

definition Second :: duration where
  "Second = 1000000000"

definition Minute :: duration where
  "Minute = 60 * Second"

definition wrap64 :: "int \<Rightarrow> int" where
  "wrap64 x = (x + 2 ^ 63) mod 2 ^ 64 - 2 ^ 63"

text \<open>
  \<open>time.Time\<close> counts seconds from year 1; the zero time is 62135596800 seconds before the
  epoch. \<open>time.Unix(sec, 0)\<close> adds that offset in \<open>int64\<close> arithmetic.
\<close>

definition unixToInternal :: int where
  "unixToInternal = 62135596800"

definition zero_time :: gotime where
  "zero_time = - unixToInternal * Second"

definition time_Unix :: "int \<Rightarrow> gotime" where
  "time_Unix sec = (wrap64 (sec + unixToInternal) - unixToInternal) * Second"

definition unix_of :: "gotime \<Rightarrow> int" where
  "unix_of t = t div Second"

definition time_Sub :: "gotime \<Rightarrow> gotime \<Rightarrow> duration" where
  "time_Sub t u = max (- (2 ^ 63)) (min (2 ^ 63 - 1) (t - u))"

section \<open>Strings\<close>

definition HasPrefix :: "string \<Rightarrow> string \<Rightarrow> bool" where
  "HasPrefix s p \<longleftrightarrow> take (length p) s = p"

definition HasSuffix :: "string \<Rightarrow> string \<Rightarrow> bool" where
  "HasSuffix s p \<longleftrightarrow> length p \<le> length s \<and> drop (length s - length p) s = p"

definition TrimPrefix :: "string \<Rightarrow> string \<Rightarrow> string" where
  "TrimPrefix s p = (if HasPrefix s p then drop (length p) s else s)"

definition TrimSuffix :: "string \<Rightarrow> string \<Rightarrow> string" where
  "TrimSuffix s p = (if HasSuffix s p then take (length s - length p) s else s)"

section \<open>Big-endian integers\<close>

fun be_encode :: "nat \<Rightarrow> nat \<Rightarrow> bytes" where
  "be_encode 0 x = []"
| "be_encode (Suc n) x = be_encode n (x div 256) @ [word_of_nat x]"

definition be_decode :: "bytes \<Rightarrow> nat" where
  "be_decode bs = foldl (\<lambda>a b. a * 256 + unat b) 0 bs"

section \<open>Slices and channels\<close>

text \<open>The loop \<open>for i, x := range xs { if x == c { xs = append(xs[:i], xs[i+1:]...); break } }\<close>.\<close>

fun remove_first :: "'a \<Rightarrow> 'a list \<Rightarrow> 'a list" where
  "remove_first c [] = []"
| "remove_first c (x # xs) = (if x = c then xs else x # remove_first c xs)"

text \<open>
  \<open>select { case ch <- v: default: }\<close> on a channel with \<open>cap\<close> slots: the value is queued
  when there is room and dropped otherwise.
\<close>

definition try_send :: "nat \<Rightarrow> 'a \<Rightarrow> 'a list \<Rightarrow> 'a list" where
  "try_send cap v q = (if length q < cap then q @ [v] else q)"

text \<open>A Go loop that appends each element unless its key was seen: first occurrence wins.\<close>

fun dedup_by :: "('a \<Rightarrow> 'k) \<Rightarrow> 'k list \<Rightarrow> 'a list \<Rightarrow> 'a list" where
  "dedup_by f seen [] = []"
| "dedup_by f seen (x # xs) =
     (if f x \<in> set seen then dedup_by f seen xs else x # dedup_by f (f x # seen) xs)"

section \<open>Lemmas\<close>

lemma wrap64_id [simp]: "- (2 ^ 63) \<le> x \<Longrightarrow> x < 2 ^ 63 \<Longrightarrow> wrap64 x = x"
  by (simp add: wrap64_def)

lemma wrap64_bounds: "- (2 ^ 63) \<le> wrap64 x \<and> wrap64 x < 2 ^ 63"
  by (simp add: wrap64_def)

lemma wrap64_mod: "wrap64 (x mod 2 ^ 64) = wrap64 x"
  by (simp add: wrap64_def mod_add_left_eq)

lemma HasPrefix_prefix: "HasPrefix s p \<longleftrightarrow> prefix p s"
  by (metis HasPrefix_def append_eq_conv_conj prefix_def)

lemma HasPrefix_append [simp]: "HasPrefix (p @ s) p"
  by (simp add: HasPrefix_def)

lemma HasPrefix_iff: "HasPrefix s p \<longleftrightarrow> (\<exists>t. s = p @ t)"
  by (simp add: HasPrefix_prefix prefix_def)

lemma HasSuffix_iff: "HasSuffix s p \<longleftrightarrow> (\<exists>t. s = t @ p)"
proof
  assume "HasSuffix s p"
  then have "s = take (length s - length p) s @ p"
    unfolding HasSuffix_def by (metis append_take_drop_id)
  then show "\<exists>t. s = t @ p" by blast
next
  assume "\<exists>t. s = t @ p"
  then show "HasSuffix s p" by (auto simp: HasSuffix_def)
qed

lemma TrimSuffix_append [simp]: "TrimSuffix (s @ p) p = s"
  by (simp add: TrimSuffix_def HasSuffix_def)

lemma TrimPrefix_append [simp]: "TrimPrefix (p @ s) p = s"
  by (simp add: TrimPrefix_def)

lemma length_be_encode [simp]: "length (be_encode n x) = n"
  by (induction n arbitrary: x) auto

lemma be_decode_snoc [simp]: "be_decode (bs @ [b]) = be_decode bs * 256 + unat b"
  by (simp add: be_decode_def)

lemma be_decode_Nil [simp]: "be_decode [] = 0"
  by (simp add: be_decode_def)

lemma be_decode_encode: "be_decode (be_encode n x) = x mod 256 ^ n"
proof (induction n arbitrary: x)
  case 0
  then show ?case by simp
next
  case (Suc n)
  have "be_decode (be_encode (Suc n) x) = (x div 256) mod 256 ^ n * 256 + x mod 256"
    by (simp add: Suc unat_of_nat)
  also have "\<dots> = x mod (256 * 256 ^ n)"
    by (simp add: mod_mult2_eq)
  finally show ?case by simp
qed

lemma be_encode_decode: "be_encode (length bs) (be_decode bs) = bs"
proof (induction bs rule: rev_induct)
  case Nil
  then show ?case by simp
next
  case (snoc b bs)
  have b: "unat b < 256"
    using unsigned_less [of b] by simp
  have "unat (word_of_nat (be_decode bs * 256 + unat b) :: byte) = unat b"
    using b by (simp only: unat_of_nat) simp
  then have "word_of_nat (be_decode bs * 256 + unat b) = b"
    by (rule unsigned_word_eqI)
  with snoc b show ?case by simp
qed

lemma be_decode_bound: "be_decode bs < 256 ^ length bs"
  by (metis be_decode_encode be_encode_decode mod_less_divisor zero_less_numeral zero_less_power)

lemma takeWhile_until [simp]: "c \<notin> set p \<Longrightarrow> takeWhile ((\<noteq>) c) (p @ c # t) = p"
  by (induction p) auto

lemma set_remove_first_subset: "set (remove_first c xs) \<subseteq> set xs"
  by (induction xs) auto

lemma remove_first_distinct [simp]:
  "distinct xs \<Longrightarrow> set (remove_first c xs) = set xs - {c} \<and> distinct (remove_first c xs)"
  by (induction xs) auto

lemma remove_first_notin [simp]: "c \<notin> set xs \<Longrightarrow> remove_first c xs = xs"
  by (induction xs) auto

lemma try_send_length: "length q \<le> cap \<Longrightarrow> length (try_send cap v q) \<le> cap"
  by (simp add: try_send_def)

lemma try_send_prefix: "prefix q (try_send cap v q)"
  by (simp add: try_send_def)

lemma dedup_by_keys:
  "f ` set (dedup_by f seen xs) = f ` set xs - set seen"
  by (induction f seen xs rule: dedup_by.induct) auto

lemma dedup_by_distinct:
  "distinct (map f (dedup_by f seen xs)) \<and> set seen \<inter> f ` set (dedup_by f seen xs) = {}"
  by (induction f seen xs rule: dedup_by.induct) (auto simp: dedup_by_keys)

lemma dedup_by_unseen: "x \<in> set (dedup_by f seen xs) \<Longrightarrow> f x \<notin> set seen"
  using dedup_by_keys [of f seen xs] by auto

lemma set_dedup_by: "set (dedup_by f seen xs) \<subseteq> set xs"
  by (induction f seen xs rule: dedup_by.induct) auto

lemma dedup_by_Nil_iff: "dedup_by f [] xs = [] \<longleftrightarrow> xs = []"
  by (cases xs) auto

lemma dedup_by_cong: "set seen = set seen' \<Longrightarrow> dedup_by f seen xs = dedup_by f seen' xs"
proof (induction xs arbitrary: seen seen')
  case (Cons x xs)
  have "dedup_by f (f x # seen) xs = dedup_by f (f x # seen') xs"
    by (rule Cons.IH) (simp add: Cons.prems)
  moreover have "dedup_by f seen xs = dedup_by f seen' xs"
    using Cons.prems by (rule Cons.IH)
  ultimately show ?case using Cons.prems by (simp only: dedup_by.simps)
qed simp

lemma dedup_by_append:
  "dedup_by f seen (xs @ ys) =
     (let new = dedup_by f seen xs in new @ dedup_by f (map f new @ seen) ys)"
proof (induction xs arbitrary: seen)
  case (Cons x xs)
  show ?case
  proof (cases "f x \<in> set seen")
    case False
    have "dedup_by f (map f (dedup_by f (f x # seen) xs) @ f x # seen) ys =
        dedup_by f (f x # map f (dedup_by f (f x # seen) xs) @ seen) ys"
      by (rule dedup_by_cong) auto
    with Cons False show ?thesis by (simp add: Let_def)
  qed (simp add: Cons)
qed simp

lemma dedup_by_first_shift:
  assumes "xs = us @ x # vs" and "f x \<notin> f ` set us" and "f x \<noteq> f y"
  shows "\<exists>us vs. y # xs = us @ x # vs \<and> f x \<notin> f ` set us"
  using assms by (intro exI [of _ "y # us"] exI [of _ vs]) simp

lemma dedup_by_first:
  "x \<in> set (dedup_by f seen xs) \<Longrightarrow> \<exists>us vs. xs = us @ x # vs \<and> f x \<notin> f ` set us"
proof (induction f seen xs rule: dedup_by.induct)
  case (1 f seen)
  then show ?case by simp
next
  case (2 f seen y ys)
  show ?case
  proof (cases "f y \<in> set seen")
    case True
    then have x: "x \<in> set (dedup_by f seen ys)"
      using 2 by simp
    then have "f x \<noteq> f y"
      using True by (metis dedup_by_unseen)
    moreover obtain us vs where "ys = us @ x # vs" and "f x \<notin> f ` set us"
      using 2(1) [OF True x] by blast
    ultimately show ?thesis by (intro dedup_by_first_shift)
  next
    case False
    show ?thesis
    proof (cases "x = y")
      case True
      then show ?thesis by (intro exI [of _ "[]"] exI [of _ ys]) simp
    next
      case neq: False
      then have x: "x \<in> set (dedup_by f (f y # seen) ys)"
        using 2 False by simp
      then have "f x \<noteq> f y"
        using dedup_by_unseen [of x f "f y # seen" ys] by auto
      moreover obtain us vs where "ys = us @ x # vs" and "f x \<notin> f ` set us"
        using 2(2) [OF False x] by blast
      ultimately show ?thesis by (intro dedup_by_first_shift)
    qed
  qed
qed

end
