(* ===== verification/Store.thy ===== *)
theory Store
  imports Prelude "HOL-Library.List_Lexorder" "HOL-Library.Char_ord" "HOL-Library.RBT"
begin

text \<open>
  The persistent store of \<^verbatim>\<open>internal/store/store.go\<close>.

  The database underneath (go.etcd.io/bbolt) is not part of the repository. It appears here
  as the record \<open>bolt_ops\<close> of the operations the store calls, an argument of every definition,
  and the locale \<open>bolt_db\<close> names what bbolt documents about them: a committed \<open>Put\<close> is seen by
  later reads, a failed update is rolled back, a cursor visits the keys of a bucket in byte
  order. \<open>mem_bolt\<close> is an in-memory implementation that satisfies the locale.
  Inside the locale the store's own operations are shown to behave as three maps.
\<close>

section \<open>The bbolt interface\<close>

record 'db bolt_ops =
  bolt_put :: "string \<Rightarrow> string \<Rightarrow> bytes \<Rightarrow> 'db \<Rightarrow> string option \<times> 'db"
  bolt_delete :: "string \<Rightarrow> string \<Rightarrow> 'db \<Rightarrow> string option \<times> 'db"
  bolt_get :: "string \<Rightarrow> string \<Rightarrow> 'db \<Rightarrow> bytes option"
  bolt_items :: "string \<Rightarrow> 'db \<Rightarrow> (string \<times> bytes) list"
  bolt_view_err :: "'db \<Rightarrow> string option"

section \<open>The store\<close>

datatype store_error =
    BoltError string
  | StoreTaskNotFound string
  | MetadataNotFound string

definition tasksBucket :: string where
  "tasksBucket = ''tasks''"

definition offlineQueueBucket :: string where
  "offlineQueueBucket = ''offline_queue''"

definition metadataBucket :: string where
  "metadataBucket = ''metadata''"

definition view :: "'db bolt_ops \<Rightarrow> 'db \<Rightarrow> (store_error + 'a) \<Rightarrow> store_error + 'a" where
  "view B d body = (case bolt_view_err B d of Some e \<Rightarrow> Inl (BoltError e) | None \<Rightarrow> body)"

definition PutTask :: "'db bolt_ops \<Rightarrow> string \<Rightarrow> bytes \<Rightarrow> 'db \<Rightarrow> string option \<times> 'db" where
  "PutTask B taskID data d = bolt_put B tasksBucket taskID data d"

definition store_GetTask :: "'db bolt_ops \<Rightarrow> string \<Rightarrow> 'db \<Rightarrow> store_error + bytes" where
  "store_GetTask B taskID d = view B d
     (case bolt_get B tasksBucket taskID d of
        None \<Rightarrow> Inl (StoreTaskNotFound taskID)
      | Some v \<Rightarrow> Inr v)"

definition DeleteTask :: "'db bolt_ops \<Rightarrow> string \<Rightarrow> 'db \<Rightarrow> string option \<times> 'db" where
  "DeleteTask B taskID d = bolt_delete B tasksBucket taskID d"

definition store_ListTasks :: "'db bolt_ops \<Rightarrow> 'db \<Rightarrow> store_error + string list" where
  "store_ListTasks B d = view B d (Inr (map fst (bolt_items B tasksBucket d)))"

definition EnqueueMessage :: "'db bolt_ops \<Rightarrow> string \<Rightarrow> bytes \<Rightarrow> 'db \<Rightarrow> string option \<times> 'db" where
  "EnqueueMessage B key data d = bolt_put B offlineQueueBucket key data d"

definition DequeueMessage :: "'db bolt_ops \<Rightarrow> string \<Rightarrow> 'db \<Rightarrow> string option \<times> 'db" where
  "DequeueMessage B key d = bolt_delete B offlineQueueBucket key d"

fun collect :: "(string \<times> bytes) list \<Rightarrow> (string \<rightharpoonup> bytes) \<Rightarrow> (string \<rightharpoonup> bytes)" where
  "collect [] result = result"
| "collect ((k, v) # rest) result = collect rest (result(k \<mapsto> v))"

definition ListQueuedMessages :: "'db bolt_ops \<Rightarrow> 'db \<Rightarrow> store_error + (string \<rightharpoonup> bytes)" where
  "ListQueuedMessages B d = view B d (Inr (collect (bolt_items B offlineQueueBucket d) Map.empty))"

definition SetMetadataBytes :: "'db bolt_ops \<Rightarrow> string \<Rightarrow> bytes \<Rightarrow> 'db \<Rightarrow> string option \<times> 'db" where
  "SetMetadataBytes B key value d = bolt_put B metadataBucket key value d"

definition GetMetadataBytes :: "'db bolt_ops \<Rightarrow> string \<Rightarrow> 'db \<Rightarrow> store_error + bytes" where
  "GetMetadataBytes B key d = view B d
     (case bolt_get B metadataBucket key d of
        None \<Rightarrow> Inl (MetadataNotFound key)
      | Some v \<Rightarrow> Inr v)"

definition bytes_of_string :: "string \<Rightarrow> bytes" where
  "bytes_of_string s = map (\<lambda>c. word_of_nat (of_char c)) s"

definition string_of_bytes :: "bytes \<Rightarrow> string" where
  "string_of_bytes b = map (\<lambda>w. char_of (unat w)) b"

definition SetMetadata :: "'db bolt_ops \<Rightarrow> string \<Rightarrow> string \<Rightarrow> 'db \<Rightarrow> string option \<times> 'db" where
  "SetMetadata B key value d = bolt_put B metadataBucket key (bytes_of_string value) d"

definition GetMetadata :: "'db bolt_ops \<Rightarrow> string \<Rightarrow> 'db \<Rightarrow> store_error + string" where
  "GetMetadata B key d = view B d
     (case bolt_get B metadataBucket key d of
        None \<Rightarrow> Inl (MetadataNotFound key)
      | Some v \<Rightarrow> Inr (string_of_bytes v))"

text \<open>\<open>c.Seek(pfx)\<close> moves to the first key not below the prefix; the loop breaks at the first
  key that does not have it.\<close>

fun prefix_loop :: "string \<Rightarrow> (string \<times> bytes) list \<Rightarrow> (string \<rightharpoonup> bytes) \<Rightarrow> (string \<rightharpoonup> bytes)" where
  "prefix_loop pfx [] result = result"
| "prefix_loop pfx ((k, v) # rest) result =
     (if length k < length pfx \<or> take (length pfx) k \<noteq> pfx then result
      else prefix_loop pfx rest (result(k \<mapsto> v)))"

definition ListMetadataByPrefix :: "'db bolt_ops \<Rightarrow> string \<Rightarrow> 'db \<Rightarrow> store_error + (string \<rightharpoonup> bytes)" where
  "ListMetadataByPrefix B pfx d = view B d
     (Inr (prefix_loop pfx (dropWhile (\<lambda>(k, v). k < pfx) (bolt_items B metadataBucket d)) Map.empty))"

section \<open>An in-memory database\<close>

type_synonym mem_db = "string \<Rightarrow> (string, bytes) rbt"

definition mem_bolt :: "mem_db bolt_ops" where
  "mem_bolt = \<lparr>
     bolt_put = (\<lambda>b k v d. if k = [] then (Some ''key required'', d)
                           else (None, d(b := RBT.insert k v (d b)))),
     bolt_delete = (\<lambda>b k d. (None, d(b := RBT.delete k (d b)))),
     bolt_get = (\<lambda>b k d. RBT.lookup (d b) k),
     bolt_items = (\<lambda>b d. RBT.entries (d b)),
     bolt_view_err = (\<lambda>d. None)\<rparr>"

definition mem_empty :: mem_db where
  "mem_empty = (\<lambda>_. RBT.empty)"

section \<open>What the database promises\<close>

locale bolt_db =
  fixes B :: "'db bolt_ops"
  assumes get_put: "bolt_put B b k v d = (None, d') \<Longrightarrow>
      bolt_get B b' k' d' = (if b' = b \<and> k' = k then Some v else bolt_get B b' k' d)"
    and put_rollback: "bolt_put B b k v d = (Some e, d') \<Longrightarrow> d' = d"
    and get_delete: "bolt_delete B b k d = (None, d') \<Longrightarrow>
      bolt_get B b' k' d' = (if b' = b \<and> k' = k then None else bolt_get B b' k' d)"
    and delete_rollback: "bolt_delete B b k d = (Some e, d') \<Longrightarrow> d' = d"
    and items_get: "map_of (bolt_items B b d) k = bolt_get B b k d"
    and items_sorted: "sorted_wrt (<) (map fst (bolt_items B b d))"

interpretation mem: bolt_db mem_bolt
proof (unfold_locales, goal_cases)
  case 6
  show ?case
    by (simp add: mem_bolt_def strict_sorted_iff distinct_entries sorted_entries)
qed (auto simp: mem_bolt_def map_of_entries split: if_splits)

section \<open>Lemmas on the loops\<close>

lemma collect_map_of: "distinct (map fst xs) \<Longrightarrow> collect xs m = m ++ map_of xs"
proof (induction xs arbitrary: m)
  case (Cons x xs)
  obtain k v where x: "x = (k, v)" by (cases x)
  with Cons.prems have "map_of xs k = None"
    by (auto simp: map_of_eq_None_iff)
  with Cons x show ?case
    by (auto simp: map_add_def fun_eq_iff split: option.splits)
qed simp

lemma prefix_loop_collect:
  "prefix_loop p xs m = collect (takeWhile (\<lambda>(k, v). HasPrefix k p) xs) m"
proof (induction xs arbitrary: m)
  case (Cons x xs)
  then show ?case
    by (cases x) (auto simp: HasPrefix_def fun_upd_def)
qed simp

lemma prefix_upward_gap:
  fixes p k k' :: string
  assumes "p \<le> k" and "\<not> prefix p k" and "k < k'"
  shows "\<not> prefix p k'"
  using assms
proof (induction p arbitrary: k k')
  case Nil
  then show ?case by simp
next
  case (Cons a p)
  then obtain b ks where k: "k = b # ks" by (cases k) auto
  with Cons.prems(3) obtain c ks' where k': "k' = c # ks'" by (cases k') auto
  show ?case
  proof (cases "a = b")
    case True
    with Cons.prems k k' have "p \<le> ks" "\<not> prefix p ks" by auto
    with Cons.IH [of ks ks'] Cons.prems(3) True k k' show ?thesis by auto
  next
    case False
    with Cons.prems(1,3) k k' have "a \<noteq> c" by auto
    with k' show ?thesis by auto
  qed
qed

lemma prefix_imp_le: "prefix (p :: string) k \<Longrightarrow> p \<le> k"
  by (induction p arbitrary: k) (auto simp: prefix_def)

lemma takeWhile_prefix_sorted:
  assumes "sorted_wrt (<) (map fst xs)"
  shows "takeWhile (\<lambda>(k, v). HasPrefix k p) (dropWhile (\<lambda>(k, v). k < p) xs) =
         filter (\<lambda>(k, v). HasPrefix k (p :: string)) xs"
  using assms
proof (induction xs)
  case Nil
  then show ?case by simp
next
  case (Cons x xs)
  obtain k v where x: "x = (k, v)" by (cases x)
  have later: "k < fst y" if "y \<in> set xs" for y
    using Cons.prems that x by auto
  consider "k < p" | "p \<le> k" "HasPrefix k p" | "p \<le> k" "\<not> HasPrefix k p"
    by fastforce
  then show ?case
  proof cases
    case 1
    then have "\<not> HasPrefix k p"
      using prefix_imp_le [of p k] by (auto simp: HasPrefix_prefix)
    with 1 Cons x show ?thesis by simp
  next
    case 2
    have "dropWhile (\<lambda>(k, v). k < p) xs = xs"
    proof (cases xs)
      case (Cons y ys)
      then have "\<not> fst y < p" using later [of y] 2 by auto
      with Cons show ?thesis by (auto simp: split_beta)
    qed simp
    moreover have "\<not> k < p" using 2 by simp
    ultimately show ?thesis using Cons 2 x by simp
  next
    case 3
    have "filter (\<lambda>(k, v). HasPrefix k p) xs = []"
      using 3 prefix_upward_gap [of p k] later
      by (auto simp: HasPrefix_prefix filter_empty_conv)
    moreover have "\<not> k < p" using 3 by simp
    ultimately show ?thesis using 3 x by simp
  qed
qed

lemma map_of_filter_key:
  "map_of (filter (\<lambda>(k, v). P k) xs) k = (if P k then map_of xs k else None)"
  by (induction xs) auto

lemma string_of_bytes_of_string [simp]: "string_of_bytes (bytes_of_string s) = s"
proof -
  have "unat (word_of_nat (of_char c) :: byte) = of_char c" for c
    by (simp only: unat_of_nat) simp
  then show ?thesis
    by (simp add: string_of_bytes_def bytes_of_string_def comp_def)
qed

section \<open>The store as three maps\<close>

context bolt_db
begin

lemma items_distinct: "distinct (map fst (bolt_items B b d))"
  using items_sorted [of b d] by (simp add: strict_sorted_iff)

lemma put_get_same: "bolt_put B b k v d = (None, d') \<Longrightarrow> bolt_get B b k d' = Some v"
  by (simp add: get_put)

lemma map_of_items: "map_of (bolt_items B b d) = (\<lambda>k. bolt_get B b k d)"
  by (rule ext) (rule items_get)

lemma ListQueuedMessages_eq:
  "ListQueuedMessages B d = view B d (Inr (\<lambda>k. bolt_get B offlineQueueBucket k d))"
  by (simp add: ListQueuedMessages_def collect_map_of items_distinct map_of_items)

lemma ListMetadataByPrefix_eq:
  "ListMetadataByPrefix B p d =
     view B d (Inr (\<lambda>k. if HasPrefix k p then bolt_get B metadataBucket k d else None))"
proof -
  have "distinct (map fst (filter (\<lambda>(k, v). HasPrefix k p) (bolt_items B metadataBucket d)))"
    using items_distinct by (rule distinct_map_filter)
  moreover have "map_of (filter (\<lambda>(k, v). HasPrefix k p) (bolt_items B metadataBucket d)) =
      (\<lambda>k. if HasPrefix k p then bolt_get B metadataBucket k d else None)"
    by (rule ext) (simp add: map_of_filter_key items_get)
  ultimately show ?thesis
    by (simp add: ListMetadataByPrefix_def prefix_loop_collect takeWhile_prefix_sorted
        items_sorted collect_map_of)
qed

lemma set_store_ListTasks:
  "store_ListTasks B d = Inr ids \<Longrightarrow>
     sorted_wrt (<) ids \<and> set ids = {k. bolt_get B tasksBucket k d \<noteq> None}"
  using items_sorted [of tasksBucket d] items_get [of tasksBucket d]
  by (auto simp: store_ListTasks_def view_def dom_map_of_conv_image_fst [symmetric] dom_def
      split: option.splits)

end

text \<open>
  Metadata reads back. After a successful \<open>SetMetadataBytes\<close> the key holds the value, every other
  entry of every bucket is as it was, and a listing by prefix, which seeks and stops at the first
  key without the prefix, returns exactly the entries whose key has it: the new one included when
  it has the prefix, and none lost.
\<close>

theorem metadata_readback:
  assumes "bolt_db B" and "bolt_view_err B d' = None" and "SetMetadataBytes B k v d = (None, d')"
  shows "GetMetadataBytes B k d' = Inr v
    \<and> (\<forall>b j. (b, j) \<noteq> (metadataBucket, k) \<longrightarrow> bolt_get B b j d' = bolt_get B b j d)
    \<and> (\<exists>m. ListMetadataByPrefix B p d' = Inr m \<and>
         (\<forall>j. m j = (if \<not> HasPrefix j p then None else if j = k then Some v
                     else bolt_get B metadataBucket j d)))"
proof -
  note gp = bolt_db.get_put [OF assms(1) assms(3) [unfolded SetMetadataBytes_def]]
  show ?thesis
    using assms(2) gp
    by (auto simp: GetMetadataBytes_def view_def bolt_db.ListMetadataByPrefix_eq [OF assms(1)])
qed

theorem metadata_readback_witness:
  "\<exists>d'. SetMetadataBytes mem_bolt ''card/p'' [7] mem_empty = (None, d') \<and>
     (\<exists>m. ListMetadataByPrefix mem_bolt ''card/'' d' = Inr m \<and> m ''card/p'' = Some [7] \<and> m ''x'' = None)"
proof -
  obtain d' where s: "SetMetadataBytes mem_bolt ''card/p'' [7] mem_empty = (None, d')"
    by (simp add: SetMetadataBytes_def mem_bolt_def)
  have "bolt_view_err mem_bolt d' = None" by (simp add: mem_bolt_def)
  from metadata_readback [OF mem.bolt_db_axioms this s, of "''card/''"] s show ?thesis
    by (auto simp: HasPrefix_def)
qed

end
