(* ===== verification/Proto.thy ===== *)
theory Proto
  imports Prelude
begin

text \<open>
  The protobuf messages the node exchanges. The generated package \<open>agentanycast-proto\<close> is not
  part of the repository; the records below have the fields that the repository's code reads
  and writes, with the names it uses. Marshalling is an argument of the definitions that call
  it: the record \<open>pb_codec\<close>, and the predicate \<open>pb_codec_ok\<close> that decoding inverts encoding.

  The trace-context carrier of \<^verbatim>\<open>internal/telemetry/propagation.go\<close> is modelled here because it
  reads and writes two fields of the envelope.
\<close>

datatype pb_TaskStatus =
    TASK_STATUS_UNSPECIFIED
  | TASK_STATUS_SUBMITTED
  | TASK_STATUS_WORKING
  | TASK_STATUS_INPUT_REQUIRED
  | TASK_STATUS_COMPLETED
  | TASK_STATUS_FAILED
  | TASK_STATUS_CANCELED
  | TASK_STATUS_REJECTED
  | TASK_STATUS_unknown int

datatype pb_MessageRole =
    MESSAGE_ROLE_UNSPECIFIED
  | MESSAGE_ROLE_USER
  | MESSAGE_ROLE_AGENT
  | MESSAGE_ROLE_unknown int

datatype pb_Part =
    TextPart string
  | UrlPart string string
  | OtherPart

record pb_Message =
  MessageId :: string
  Role :: pb_MessageRole
  Parts :: "pb_Part list"
  msg_CreatedAt :: "gotime option"

record pb_Artifact =
  ArtifactId :: string
  art_Name :: string
  art_Parts :: "pb_Part list"

record pb_Task =
  pbt_TaskId :: string
  pbt_ContextId :: string
  pbt_Status :: pb_TaskStatus
  pbt_TargetSkillId :: string
  pbt_OriginatorPeerId :: string
  pbt_Messages :: "pb_Message list"
  pbt_Artifacts :: "pb_Artifact list"
  pbt_CreatedAt :: "gotime option"
  pbt_UpdatedAt :: "gotime option"

record pb_Skill =
  skill_Id :: string
  skill_Description :: string
  InputSchema :: string
  OutputSchema :: string

record pb_P2PExtension =
  ext_PeerId :: string
  DidKey :: string
  DidWeb :: string
  SupportedTransports :: "string list"
  RelayAddresses :: "string list"

record pb_AgentCard =
  card_Name :: string
  card_Description :: string
  card_Version :: string
  ProtocolVersion :: string
  card_Skills :: "pb_Skill list"
  P2PExtension :: "pb_P2PExtension option"

datatype pb_EnvelopeType =
    ENVELOPE_TYPE_UNSPECIFIED
  | ENVELOPE_TYPE_SEND_TASK
  | ENVELOPE_TYPE_TASK_STATUS_UPDATE
  | ENVELOPE_TYPE_TASK_COMPLETE
  | ENVELOPE_TYPE_TASK_FAIL
  | ENVELOPE_TYPE_TASK_CANCEL
  | ENVELOPE_TYPE_ACK
  | ENVELOPE_TYPE_STREAM_START
  | ENVELOPE_TYPE_STREAM_CHUNK
  | ENVELOPE_TYPE_STREAM_END
  | ENVELOPE_TYPE_unknown int

record SendTaskPayload =
  st_TaskId :: string
  st_ContextId :: string
  st_Message :: "pb_Message option"
  st_TargetSkillId :: string

record TaskStatusUpdatePayload =
  su_TaskId :: string
  su_Status :: pb_TaskStatus
  su_Message :: "pb_Message option"

record TaskCompletePayload =
  tc_TaskId :: string
  tc_Artifacts :: "pb_Artifact list"
  tc_Message :: "pb_Message option"

record TaskFailPayload =
  tf_TaskId :: string
  tf_ErrorMessage :: string
  tf_Message :: "pb_Message option"

record TaskCancelPayload =
  tx_TaskId :: string

record AckPayload =
  AcknowledgedEnvelopeId :: string

datatype pb_Payload =
    PSendTask SendTaskPayload
  | PTaskStatusUpdate TaskStatusUpdatePayload
  | PTaskComplete TaskCompletePayload
  | PTaskFail TaskFailPayload
  | PTaskCancel TaskCancelPayload
  | PAck AckPayload
  | POther bytes

record A2AEnvelope =
  EnvelopeId :: string
  env_Type :: pb_EnvelopeType
  env_Timestamp :: "gotime option"
  TraceParent :: string
  TraceState :: string
  env_Payload :: "pb_Payload option"

fun GetSendTask :: "pb_Payload option \<Rightarrow> SendTaskPayload option" where
  "GetSendTask (Some (PSendTask p)) = Some p"
| "GetSendTask _ = None"

fun GetTaskStatusUpdate :: "pb_Payload option \<Rightarrow> TaskStatusUpdatePayload option" where
  "GetTaskStatusUpdate (Some (PTaskStatusUpdate p)) = Some p"
| "GetTaskStatusUpdate _ = None"

fun GetTaskComplete :: "pb_Payload option \<Rightarrow> TaskCompletePayload option" where
  "GetTaskComplete (Some (PTaskComplete p)) = Some p"
| "GetTaskComplete _ = None"

fun GetTaskFail :: "pb_Payload option \<Rightarrow> TaskFailPayload option" where
  "GetTaskFail (Some (PTaskFail p)) = Some p"
| "GetTaskFail _ = None"

fun GetTaskCancel :: "pb_Payload option \<Rightarrow> TaskCancelPayload option" where
  "GetTaskCancel (Some (PTaskCancel p)) = Some p"
| "GetTaskCancel _ = None"

fun GetAck :: "pb_Payload option \<Rightarrow> AckPayload option" where
  "GetAck (Some (PAck p)) = Some p"
| "GetAck _ = None"

section \<open>Marshalling\<close>

record pb_codec =
  pb_Marshal :: "A2AEnvelope \<Rightarrow> bytes option"
  pb_Unmarshal :: "bytes \<Rightarrow> A2AEnvelope option"
  pb_UnmarshalCard :: "bytes \<Rightarrow> pb_AgentCard option"

definition pb_codec_ok :: "pb_codec \<Rightarrow> bool" where
  "pb_codec_ok P \<longleftrightarrow> (\<forall>env data. pb_Marshal P env = Some data \<longrightarrow> pb_Unmarshal P data = Some env)"

section \<open>Trace context\<close>

definition carrier_Get :: "string \<Rightarrow> A2AEnvelope \<Rightarrow> string" where
  "carrier_Get key env =
     (if key = ''traceparent'' then TraceParent env
      else if key = ''tracestate'' then TraceState env
      else [])"

definition carrier_Set :: "string \<Rightarrow> string \<Rightarrow> A2AEnvelope \<Rightarrow> A2AEnvelope" where
  "carrier_Set key value env =
     (if key = ''traceparent'' then env\<lparr>TraceParent := value\<rparr>
      else if key = ''tracestate'' then env\<lparr>TraceState := value\<rparr>
      else env)"

definition carrier_Keys :: "string list" where
  "carrier_Keys = [''traceparent'', ''tracestate'']"

text \<open>The propagator calls \<open>Set\<close> once for each field it writes.\<close>

fun InjectTraceContext :: "(string \<times> string) list \<Rightarrow> A2AEnvelope \<Rightarrow> A2AEnvelope" where
  "InjectTraceContext [] env = env"
| "InjectTraceContext ((k, v) # kvs) env = InjectTraceContext kvs (carrier_Set k v env)"

section \<open>Lemmas\<close>

lemma carrier_Get_Set:
  "k \<in> set carrier_Keys \<Longrightarrow> carrier_Get k' (carrier_Set k v env) =
     (if k' = k then v else carrier_Get k' env)"
  by (auto simp: carrier_Keys_def carrier_Get_def carrier_Set_def)

lemma carrier_Set_fields [simp]:
  "EnvelopeId (carrier_Set k v env) = EnvelopeId env"
  "env_Type (carrier_Set k v env) = env_Type env"
  "env_Payload (carrier_Set k v env) = env_Payload env"
  by (simp_all add: carrier_Set_def)

lemma InjectTraceContext_fields [simp]:
  "EnvelopeId (InjectTraceContext fs env) = EnvelopeId env"
  "env_Type (InjectTraceContext fs env) = env_Type env"
  "env_Payload (InjectTraceContext fs env) = env_Payload env"
  by (induction fs arbitrary: env) auto

end
