(* ===== verification/Engine.thy ===== *)
theory Engine
  imports Proto Store
begin

text \<open>
  The task engine of \<^verbatim>\<open>internal/a2a/engine.go\<close>: the task state machine, its in-memory table and
  its persistence. \<open>json.Marshal\<close>/\<open>Unmarshal\<close> of a task are the record \<open>task_codec\<close>, an
  argument; clocks and generated identifiers are arguments too. The database is passed
  alongside the engine because the node shares one store between engine, offline queue and
  host. The callback \<open>onTaskUpdate\<close> acts on a state of its owner, the type variable \<open>'c\<close>.
\<close>

section \<open>Task status\<close>

datatype TaskStatus =
    StatusUnspecified
  | StatusSubmitted
  | StatusWorking
  | StatusInputRequired
  | StatusCompleted
  | StatusFailed
  | StatusCanceled
  | StatusRejected
  | StatusOther int

fun status_String :: "TaskStatus \<Rightarrow> string" where
  "status_String StatusSubmitted = ''SUBMITTED''"
| "status_String StatusWorking = ''WORKING''"
| "status_String StatusInputRequired = ''INPUT_REQUIRED''"
| "status_String StatusCompleted = ''COMPLETED''"
| "status_String StatusFailed = ''FAILED''"
| "status_String StatusCanceled = ''CANCELED''"
| "status_String StatusRejected = ''REJECTED''"
| "status_String _ = ''UNSPECIFIED''"

fun IsTerminal :: "TaskStatus \<Rightarrow> bool" where
  "IsTerminal StatusCompleted = True"
| "IsTerminal StatusFailed = True"
| "IsTerminal StatusCanceled = True"
| "IsTerminal StatusRejected = True"
| "IsTerminal _ = False"

fun validTransitions :: "TaskStatus \<Rightarrow> TaskStatus list option" where
  "validTransitions StatusSubmitted = Some [StatusWorking, StatusRejected, StatusCanceled]"
| "validTransitions StatusWorking =
     Some [StatusCompleted, StatusFailed, StatusCanceled, StatusInputRequired]"
| "validTransitions StatusInputRequired = Some [StatusWorking, StatusCanceled]"
| "validTransitions _ = None"

section \<open>State\<close>

record Task =
  task_ID :: string
  ContextID :: string
  Status :: TaskStatus
  TargetSkillID :: string
  OriginatorPeerID :: string
  CreatedAt :: gotime
  UpdatedAt :: gotime

record task_codec =
  json_Marshal :: "Task \<Rightarrow> bytes option"
  json_Unmarshal :: "bytes \<Rightarrow> Task option"

datatype engine_error =
    TaskNotFound string
  | TerminalState string TaskStatus
  | NoTransitions TaskStatus
  | InvalidTransition TaskStatus TaskStatus string
  | ListStoredTasks store_error

record 'c Engine =
  tasks :: "string \<rightharpoonup> Task"
  has_store :: bool
  onTaskUpdate :: "(Task \<Rightarrow> 'c \<Rightarrow> 'c) option"

definition NewEngine :: "'c Engine" where
  "NewEngine = \<lparr>tasks = Map.empty, has_store = False, onTaskUpdate = None\<rparr>"

definition engine_SetStore :: "'c Engine \<Rightarrow> 'c Engine" where
  "engine_SetStore e = e\<lparr>has_store := True\<rparr>"

definition SetOnTaskUpdate :: "(Task \<Rightarrow> 'c \<Rightarrow> 'c) \<Rightarrow> 'c Engine \<Rightarrow> 'c Engine" where
  "SetOnTaskUpdate fn e = e\<lparr>onTaskUpdate := Some fn\<rparr>"

section \<open>Operations\<close>

definition put_task_bytes ::
    "'db bolt_ops \<Rightarrow> task_codec \<Rightarrow> string \<Rightarrow> Task \<Rightarrow> 'c Engine \<Rightarrow> 'db \<Rightarrow> 'db" where
  "put_task_bytes B J taskID task e d =
     (if \<not> has_store e then d
      else case json_Marshal J task of
        None \<Rightarrow> d
      | Some data \<Rightarrow> snd (PutTask B taskID data d))"

definition persistTask :: "'db bolt_ops \<Rightarrow> task_codec \<Rightarrow> Task \<Rightarrow> 'c Engine \<Rightarrow> 'db \<Rightarrow> 'db" where
  "persistTask B J task e d = put_task_bytes B J (task_ID task) task e d"

fun recover_loop :: "'db bolt_ops \<Rightarrow> task_codec \<Rightarrow> 'db \<Rightarrow> string list \<Rightarrow> (string \<rightharpoonup> Task) \<Rightarrow> (string \<rightharpoonup> Task)" where
  "recover_loop B J d [] ts = ts"
| "recover_loop B J d (i # ids) ts =
     (case store_GetTask B i d of
        Inl err \<Rightarrow> recover_loop B J d ids ts
      | Inr data \<Rightarrow>
          (case json_Unmarshal J data of
             None \<Rightarrow> recover_loop B J d ids ts
           | Some task \<Rightarrow> recover_loop B J d ids (ts(task_ID task \<mapsto> task))))"

definition RecoverTasks ::
    "'db bolt_ops \<Rightarrow> task_codec \<Rightarrow> 'db \<Rightarrow> 'c Engine \<Rightarrow> engine_error option \<times> 'c Engine" where
  "RecoverTasks B J d e =
     (if \<not> has_store e then (None, e)
      else case store_ListTasks B d of
        Inl err \<Rightarrow> (Some (ListStoredTasks err), e)
      | Inr ids \<Rightarrow> (None, e\<lparr>tasks := recover_loop B J d ids (tasks e)\<rparr>))"

definition RegisterTask ::
    "'db bolt_ops \<Rightarrow> task_codec \<Rightarrow> Task \<Rightarrow> 'c Engine \<Rightarrow> 'db \<Rightarrow> 'c Engine \<times> 'db" where
  "RegisterTask B J task e d =
     (let e' = e\<lparr>tasks := (tasks e)(task_ID task \<mapsto> task)\<rparr>
      in (e', persistTask B J task e' d))"

definition CreateTask ::
    "'db bolt_ops \<Rightarrow> task_codec \<Rightarrow> string \<Rightarrow> gotime \<Rightarrow> gotime \<Rightarrow> string \<Rightarrow> string \<Rightarrow> string \<Rightarrow>
     'c Engine \<Rightarrow> 'db \<Rightarrow> Task \<times> 'c Engine \<times> 'db" where
  "CreateTask B J uuid t1 t2 contextID targetSkillID originatorPeerID e d =
     (let task = \<lparr>task_ID = uuid, ContextID = contextID, Status = StatusSubmitted,
                  TargetSkillID = targetSkillID, OriginatorPeerID = originatorPeerID,
                  CreatedAt = t1, UpdatedAt = t2\<rparr>;
          e' = e\<lparr>tasks := (tasks e)(task_ID task \<mapsto> task)\<rparr>
      in (task, e', persistTask B J task e' d))"

definition TransitionTask ::
    "'db bolt_ops \<Rightarrow> task_codec \<Rightarrow> gotime \<Rightarrow> string \<Rightarrow> TaskStatus \<Rightarrow> 'c Engine \<Rightarrow> 'db \<Rightarrow> 'c \<Rightarrow>
     engine_error option \<times> 'c Engine \<times> 'db \<times> 'c" where
  "TransitionTask B J now taskID newStatus e d c =
     (case tasks e taskID of
        None \<Rightarrow> (Some (TaskNotFound taskID), e, d, c)
      | Some task \<Rightarrow>
          if IsTerminal (Status task) then (Some (TerminalState taskID (Status task)), e, d, c)
          else case validTransitions (Status task) of
            None \<Rightarrow> (Some (NoTransitions (Status task)), e, d, c)
          | Some allowed \<Rightarrow>
              if newStatus \<notin> set allowed
              then (Some (InvalidTransition (Status task) newStatus taskID), e, d, c)
              else
                let task' = task\<lparr>Status := newStatus, UpdatedAt := now\<rparr>;
                    e' = e\<lparr>tasks := (tasks e)(taskID \<mapsto> task')\<rparr>;
                    d' = put_task_bytes B J taskID task' e' d;
                    c' = (case onTaskUpdate e' of None \<Rightarrow> c | Some fn \<Rightarrow> fn task' c)
                in (None, e', d', c'))"

definition GetTask :: "string \<Rightarrow> 'c Engine \<Rightarrow> engine_error + Task" where
  "GetTask taskID e =
     (case tasks e taskID of None \<Rightarrow> Inl (TaskNotFound taskID) | Some task \<Rightarrow> Inr task)"

text \<open>The iteration order of a Go map is not determined: it is the argument \<open>order\<close>.\<close>

definition ListTasks :: "string list \<Rightarrow> 'c Engine \<Rightarrow> Task list" where
  "ListTasks order e = List.map_filter (tasks e) order"

section \<open>Specification\<close>

text \<open>The A2A task life cycle, as an abstract machine on statuses.\<close>

inductive status_step :: "TaskStatus \<Rightarrow> TaskStatus \<Rightarrow> bool" where
  accept: "status_step StatusSubmitted StatusWorking"
| reject: "status_step StatusSubmitted StatusRejected"
| cancel: "s \<in> {StatusSubmitted, StatusWorking, StatusInputRequired} \<Longrightarrow>
    status_step s StatusCanceled"
| complete: "status_step StatusWorking StatusCompleted"
| fail: "status_step StatusWorking StatusFailed"
| ask: "status_step StatusWorking StatusInputRequired"
| resume: "status_step StatusInputRequired StatusWorking"

inductive_simps status_step_simps [simp]:
  "status_step StatusSubmitted s"
  "status_step StatusWorking s"
  "status_step StatusInputRequired s"
  "status_step StatusUnspecified s"
  "status_step StatusCompleted s"
  "status_step StatusFailed s"
  "status_step StatusCanceled s"
  "status_step StatusRejected s"
  "status_step (StatusOther n) s"

text \<open>A task with every key equal to the identifier inside it; every stored record is the
  encoding of the task in memory and the other way round.\<close>

definition keyed :: "(string \<rightharpoonup> Task) \<Rightarrow> bool" where
  "keyed ts \<longleftrightarrow> (\<forall>k t. ts k = Some t \<longrightarrow> task_ID t = k)"

definition engine_wf :: "'c Engine \<Rightarrow> bool" where
  "engine_wf e \<longleftrightarrow> keyed (tasks e)"

definition in_sync :: "'db bolt_ops \<Rightarrow> task_codec \<Rightarrow> 'c Engine \<Rightarrow> 'db \<Rightarrow> bool" where
  "in_sync B J e d \<longleftrightarrow> has_store e \<and> engine_wf e \<and>
     (\<forall>k. tasks e k = None \<longrightarrow> bolt_get B tasksBucket k d = None) \<and>
     (\<forall>k t. tasks e k = Some t \<longrightarrow>
        (\<exists>data. bolt_get B tasksBucket k d = Some data \<and> json_Unmarshal J data = Some t))"

text \<open>What a write of this task to the store needs in order to succeed.\<close>

definition persists :: "'db bolt_ops \<Rightarrow> task_codec \<Rightarrow> Task \<Rightarrow> 'db \<Rightarrow> bool" where
  "persists B J t d \<longleftrightarrow> (\<exists>data. json_Marshal J t = Some data \<and> json_Unmarshal J data = Some t \<and>
     fst (PutTask B (task_ID t) data d) = None)"

datatype engine_op =
    OpCreate string gotime gotime string string string
  | OpRegister Task
  | OpTransition gotime string TaskStatus

fun engine_run1 :: "'db bolt_ops \<Rightarrow> task_codec \<Rightarrow> engine_op \<Rightarrow> 'c Engine \<times> 'db \<times> 'c \<Rightarrow> 'c Engine \<times> 'db \<times> 'c" where
  "engine_run1 B J (OpCreate u t1 t2 cx sk orig) (e, d, c) =
     (case CreateTask B J u t1 t2 cx sk orig e d of (_, e', d') \<Rightarrow> (e', d', c))"
| "engine_run1 B J (OpRegister t) (e, d, c) =
     (case RegisterTask B J t e d of (e', d') \<Rightarrow> (e', d', c))"
| "engine_run1 B J (OpTransition now k s) (e, d, c) = snd (TransitionTask B J now k s e d c)"

definition engine_run :: "'db bolt_ops \<Rightarrow> task_codec \<Rightarrow> engine_op list \<Rightarrow> 'c Engine \<times> 'db \<times> 'c \<Rightarrow> 'c Engine \<times> 'db \<times> 'c" where
  "engine_run B J ops s = fold (engine_run1 B J) ops s"

text \<open>Does this operation write a task record for the identifier \<open>k\<close> from outside the
  state machine?\<close>

fun overwrites :: "string \<Rightarrow> engine_op \<Rightarrow> bool" where
  "overwrites k (OpCreate u _ _ _ _ _) = (u = k)"
| "overwrites k (OpRegister t) = (task_ID t = k)"
| "overwrites k (OpTransition _ _ _) = False"

text \<open>The task record an operation writes, if it writes one.\<close>

fun op_writes :: "engine_op \<Rightarrow> 'c Engine \<Rightarrow> Task option" where
  "op_writes (OpCreate u t1 t2 cx sk orig) e =
     Some \<lparr>task_ID = u, ContextID = cx, Status = StatusSubmitted, TargetSkillID = sk,
           OriginatorPeerID = orig, CreatedAt = t1, UpdatedAt = t2\<rparr>"
| "op_writes (OpRegister t) e = Some t"
| "op_writes (OpTransition now k s) e =
     (case tasks e k of
        None \<Rightarrow> None
      | Some t \<Rightarrow> (case validTransitions (Status t) of
            None \<Rightarrow> None
          | Some allowed \<Rightarrow>
              if s \<in> set allowed then Some (t\<lparr>Status := s, UpdatedAt := now\<rparr>) else None))"

inductive durable ::
    "'db bolt_ops \<Rightarrow> task_codec \<Rightarrow> 'c Engine \<times> 'db \<times> 'c \<Rightarrow> 'c Engine \<times> 'db \<times> 'c \<Rightarrow> bool"
  for B J s where
  durable_refl: "durable B J s s"
| durable_step: "durable B J s (e, d, c) \<Longrightarrow>
    \<forall>t. op_writes op e = Some t \<longrightarrow> persists B J t d \<Longrightarrow>
    durable B J s (engine_run1 B J op (e, d, c))"

section \<open>A concrete task and codec\<close>

text \<open>Inputs on which the theorems below are instantiated: a codec that keeps the identifier
  and the status of a task whose other fields are those of \<open>demo_task\<close>.\<close>

definition demo_task :: Task where
  "demo_task = \<lparr>task_ID = ''k'', ContextID = [], Status = StatusSubmitted, TargetSkillID = ''s'',
     OriginatorPeerID = ''local'', CreatedAt = 1, UpdatedAt = 1\<rparr>"

definition demo_codec :: task_codec where
  "demo_codec = \<lparr>
     json_Marshal = (\<lambda>t. if t = demo_task\<lparr>task_ID := task_ID t\<rparr>
                         then Some (bytes_of_string (task_ID t)) else None),
     json_Unmarshal = (\<lambda>b. Some (demo_task\<lparr>task_ID := string_of_bytes b\<rparr>))\<rparr>"

definition demo_engine :: "unit Engine" where
  "demo_engine = \<lparr>tasks = [''k'' \<mapsto> demo_task], has_store = True, onTaskUpdate = None\<rparr>"

section \<open>The state machine\<close>

lemma status_step_table:
  "status_step s s' \<longleftrightarrow> (\<exists>allowed. validTransitions s = Some allowed \<and> s' \<in> set allowed)"
  by (cases s) auto

lemma terminal_stuck: "IsTerminal s \<Longrightarrow> \<not> status_step s s'"
  by (cases s) auto

lemma terminal_no_table: "IsTerminal s \<Longrightarrow> validTransitions s = None"
  by (cases s) auto

lemma put_task_bytes_frame [simp]:
  "put_task_bytes B J k t (e\<lparr>tasks := ts\<rparr>) d = put_task_bytes B J k t e d"
  by (simp add: put_task_bytes_def)

lemma TransitionTask_ok:
  assumes "tasks e k = Some t" and "status_step (Status t) s"
  shows "TransitionTask B J now k s e d c =
    (let t' = t\<lparr>Status := s, UpdatedAt := now\<rparr> in
     (None, e\<lparr>tasks := (tasks e)(k \<mapsto> t')\<rparr>, put_task_bytes B J k t' e d,
      case onTaskUpdate e of None \<Rightarrow> c | Some fn \<Rightarrow> fn t' c))"
  using assms terminal_stuck [of "Status t" s]
  by (auto simp: TransitionTask_def status_step_table Let_def)

lemma TransitionTask_err:
  assumes "\<nexists>t. tasks e k = Some t \<and> status_step (Status t) s"
  shows "\<exists>err. TransitionTask B J now k s e d c = (Some err, e, d, c)"
  using assms by (auto simp: TransitionTask_def status_step_table split: option.splits)

lemma op_writes_transition:
  "op_writes (OpTransition now k s) e = Some t' \<longleftrightarrow>
     (\<exists>t. tasks e k = Some t \<and> status_step (Status t) s \<and> t' = t\<lparr>Status := s, UpdatedAt := now\<rparr>)"
  by (auto simp: status_step_table split: option.splits if_splits)

text \<open>
  C3. A transition succeeds exactly when the task exists and the life cycle of the A2A
  protocol has that step; then only that task changes, to the new status, and the update
  callback is called with the new record. In every other case nothing changes.
\<close>

theorem TransitionTask_refines:
  "case TransitionTask B J now k s e d c of (err, e', d', c') \<Rightarrow>
     (case tasks e k of
        Some t \<Rightarrow>
          if status_step (Status t) s
          then err = None \<and> e' = e\<lparr>tasks := (tasks e)(k \<mapsto> t\<lparr>Status := s, UpdatedAt := now\<rparr>)\<rparr> \<and>
               c' = (case onTaskUpdate e of None \<Rightarrow> c | Some fn \<Rightarrow> fn (t\<lparr>Status := s, UpdatedAt := now\<rparr>) c)
          else err \<noteq> None \<and> e' = e \<and> d' = d \<and> c' = c
      | None \<Rightarrow> err = Some (TaskNotFound k) \<and> e' = e \<and> d' = d \<and> c' = c)"
proof (cases "tasks e k")
  case None
  then show ?thesis by (simp add: TransitionTask_def)
next
  case (Some t)
  show ?thesis
  proof (cases "status_step (Status t) s")
    case True
    with Some show ?thesis by (simp add: TransitionTask_ok Let_def)
  next
    case False
    with Some TransitionTask_err [of e k s B J now d c] show ?thesis by auto
  qed
qed

section \<open>Runs\<close>

lemma engine_run_simps [simp]:
  "engine_run B J [] s = s"
  "engine_run B J (op # ops) s = engine_run B J ops (engine_run1 B J op s)"
  by (simp_all add: engine_run_def)

lemma engine_run1_status:
  assumes "engine_run1 B J op (e, d, c) = (e', d', c')" and "\<not> overwrites k op"
    and "tasks e k = Some t"
  shows "\<exists>t'. tasks e' k = Some t' \<and> (t' = t \<or> status_step (Status t) (Status t'))"
proof (cases op)
  case (OpTransition now j s)
  show ?thesis
  proof (cases "\<exists>u. tasks e j = Some u \<and> status_step (Status u) s")
    case True
    then obtain u where u: "tasks e j = Some u" "status_step (Status u) s" by blast
    then have "tasks e' = (tasks e)(j \<mapsto> u\<lparr>Status := s, UpdatedAt := now\<rparr>)"
      using assms OpTransition TransitionTask_ok [OF u, of B J now d c] by (auto simp: Let_def)
    with u assms(3) show ?thesis by auto
  next
    case False
    then show ?thesis
      using assms OpTransition TransitionTask_err [of e j s B J now d c] by auto
  qed
qed (use assms in \<open>auto simp: CreateTask_def RegisterTask_def Let_def\<close>)

lemma engine_run_status:
  assumes "engine_run B J ops (e, d, c) = (e', d', c')" and "\<forall>op\<in>set ops. \<not> overwrites k op"
    and "tasks e k = Some t"
  shows "\<exists>t'. tasks e' k = Some t' \<and> status_step\<^sup>*\<^sup>* (Status t) (Status t') \<and>
    (IsTerminal (Status t) \<longrightarrow> t' = t)"
  using assms
proof (induction ops arbitrary: e d c t)
  case Nil
  then show ?case by auto
next
  case (Cons op ops)
  obtain e1 d1 c1 where r1: "engine_run1 B J op (e, d, c) = (e1, d1, c1)"
    by (cases "engine_run1 B J op (e, d, c)")
  with Cons.prems obtain t1 where t1: "tasks e1 k = Some t1"
      "t1 = t \<or> status_step (Status t) (Status t1)"
    using engine_run1_status [OF r1, of k t] by auto
  obtain t' where "tasks e' k = Some t'" "status_step\<^sup>*\<^sup>* (Status t1) (Status t')"
      "IsTerminal (Status t1) \<longrightarrow> t' = t1"
    using Cons.IH [of e1 d1 c1 t1] Cons.prems r1 t1 by auto
  with t1 show ?case
    by (metis converse_rtranclp_into_rtranclp terminal_stuck)
qed

text \<open>
  Over any sequence of engine calls that does not register or create the same identifier
  again, the status of a task moves along the life cycle only, and a task in a terminal state
  is never changed again.
\<close>

theorem engine_run_follows_life_cycle:
  assumes "engine_run B J ops (e, d, c) = (e', d', c')"
    and "\<forall>op\<in>set ops. \<not> overwrites k op" and "tasks e k = Some t"
  shows "\<exists>t'. tasks e' k = Some t' \<and> status_step\<^sup>*\<^sup>* (Status t) (Status t') \<and>
    (IsTerminal (Status t) \<longrightarrow> t' = t)"
  using assms by (rule engine_run_status)

theorem engine_run_follows_life_cycle_witness:
  "\<exists>t'. tasks (fst (engine_run mem_bolt demo_codec
       [OpTransition 5 ''k'' StatusWorking, OpRegister (demo_task\<lparr>task_ID := ''j''\<rparr>)]
       (demo_engine, mem_empty, ()))) ''k'' = Some t' \<and>
     status_step\<^sup>*\<^sup>* StatusSubmitted (Status t') \<and> (IsTerminal StatusSubmitted \<longrightarrow> t' = demo_task)"
proof -
  let ?ops = "[OpTransition 5 ''k'' StatusWorking, OpRegister (demo_task\<lparr>task_ID := ''j''\<rparr>)]"
  obtain e' d' c' where r: "engine_run mem_bolt demo_codec ?ops (demo_engine, mem_empty, ()) = (e', d', c')"
    by (metis prod_cases3)
  have "\<forall>op\<in>set ?ops. \<not> overwrites ''k'' op" by simp
  moreover have "tasks demo_engine ''k'' = Some demo_task" by (simp add: demo_engine_def)
  ultimately show ?thesis
    using engine_run_follows_life_cycle [OF r, of "''k''" demo_task] r
    by (simp add: demo_task_def)
qed

section \<open>Persistence\<close>

lemma keyed_upd [inv_intros]: "keyed ts \<Longrightarrow> task_ID t = k \<Longrightarrow> keyed (ts(k \<mapsto> t))"
  by (simp add: keyed_def)

lemma keyedD: "keyed ts \<Longrightarrow> ts k = Some t \<Longrightarrow> task_ID t = k"
  by (simp add: keyed_def)

lemma recover_loop_keyed [inv_intros]: "keyed ts \<Longrightarrow> keyed (recover_loop B J d ids ts)"
  by (induction ids arbitrary: ts) (auto split: sum.splits option.splits intro: keyed_upd)

text \<open>
  Every engine operation, recovery included, keeps the table well formed: a task is stored
  under its own identifier.
\<close>

theorem engine_ops_wf:
  assumes "engine_wf e"
  shows "engine_wf (fst (engine_run1 B J op (e, d, c))) \<and> engine_wf (snd (RecoverTasks B J d e))"
proof
  show "engine_wf (fst (engine_run1 B J op (e, d, c)))"
  proof (cases op)
    case (OpTransition now k s)
    show ?thesis
    proof (cases "\<exists>t. tasks e k = Some t \<and> status_step (Status t) s")
      case True
      with OpTransition assms show ?thesis
        by (auto simp: TransitionTask_ok Let_def engine_wf_def keyed_def split: if_splits)
    next
      case False
      with OpTransition assms TransitionTask_err [of e k s B J now d c] show ?thesis by auto
    qed
  qed (use assms in \<open>auto simp: CreateTask_def RegisterTask_def Let_def engine_wf_def intro: inv_intros\<close>)
next
  show "engine_wf (snd (RecoverTasks B J d e))"
    using assms by (auto simp: RecoverTasks_def engine_wf_def intro: inv_intros split: sum.splits)
qed

theorem engine_ops_wf_witness:
  "engine_wf demo_engine \<and>
   engine_wf (fst (engine_run1 mem_bolt demo_codec (OpTransition 5 ''k'' StatusWorking)
     (demo_engine, mem_empty, ()))) \<and>
   engine_wf (snd (RecoverTasks mem_bolt demo_codec mem_empty demo_engine))"
proof -
  have wf: "engine_wf demo_engine"
    by (simp add: engine_wf_def keyed_def demo_engine_def demo_task_def)
  then show ?thesis
    using engine_ops_wf [OF wf, of mem_bolt demo_codec "OpTransition 5 ''k'' StatusWorking" mem_empty "()"]
    by simp
qed

context bolt_db
begin

lemma put_task_bytes_sync:
  assumes "in_sync B J e d" and "persists B J t d" and "task_ID t = k"
  shows "in_sync B J (e\<lparr>tasks := (tasks e)(k \<mapsto> t)\<rparr>) (put_task_bytes B J k t e d)"
proof -
  obtain data where data: "json_Marshal J t = Some data" "json_Unmarshal J data = Some t"
      "fst (PutTask B k data d) = None"
    using assms(2,3) by (auto simp: persists_def)
  then obtain d' where put: "bolt_put B tasksBucket k data d = (None, d')"
    by (cases "PutTask B k data d") (auto simp: PutTask_def)
  have "put_task_bytes B J k t e d = d'"
    using assms(1) data put by (simp add: put_task_bytes_def PutTask_def in_sync_def)
  with assms data get_put [OF put] show ?thesis
    by (auto simp: in_sync_def engine_wf_def intro: inv_intros split: option.splits if_splits)
qed

lemma engine_run1_sync:
  assumes "in_sync B J e d" and "\<forall>t. op_writes op e = Some t \<longrightarrow> persists B J t d"
    and "engine_run1 B J op (e, d, c) = (e', d', c')"
  shows "in_sync B J e' d'"
proof (cases op)
  case (OpTransition now k s)
  show ?thesis
  proof (cases "\<exists>t. tasks e k = Some t \<and> status_step (Status t) s")
    case True
    then obtain t where t: "tasks e k = Some t" "status_step (Status t) s" by blast
    have "persists B J (t\<lparr>Status := s, UpdatedAt := now\<rparr>) d"
      using assms(2) t OpTransition op_writes_transition by blast
    moreover have "task_ID t = k"
      using assms(1) t by (simp add: in_sync_def engine_wf_def keyed_def)
    ultimately show ?thesis
      using put_task_bytes_sync [OF assms(1), of "t\<lparr>Status := s, UpdatedAt := now\<rparr>" k]
        assms(3) OpTransition TransitionTask_ok [OF t, of B J now d c] by (auto simp: Let_def)
  next
    case False
    with assms(1,3) OpTransition TransitionTask_err [of e k s B J now d c] show ?thesis by auto
  qed
qed (use assms put_task_bytes_sync [OF assms(1)] in
    \<open>auto simp: CreateTask_def RegisterTask_def persistTask_def Let_def\<close>)

lemma durable_sync:
  "durable B J s s' \<Longrightarrow> in_sync B J (fst s) (fst (snd s)) \<Longrightarrow> in_sync B J (fst s') (fst (snd s'))"
proof (induction rule: durable.induct)
  case durable_refl
  then show ?case by simp
next
  case (durable_step e d c op)
  then show ?case
    using engine_run1_sync [of J e d op c] by (cases "engine_run1 B J op (e, d, c)") auto
qed

lemma recover_loop_sync:
  assumes "in_sync B J e d" and "bolt_view_err B d = None" and "set ids \<subseteq> dom (tasks e)"
  shows "recover_loop B J d ids ts = ts ++ (tasks e |` set ids)"
  using assms(3)
proof (induction ids arbitrary: ts)
  case Nil
  then show ?case by simp
next
  case (Cons i ids)
  then obtain t where t: "tasks e i = Some t" by auto
  then obtain data where "bolt_get B tasksBucket i d = Some data" "json_Unmarshal J data = Some t"
    and "task_ID t = i"
    using assms(1) unfolding in_sync_def engine_wf_def keyed_def by blast
  then have "recover_loop B J d (i # ids) ts = recover_loop B J d ids (ts(i \<mapsto> t))"
    using assms(2) by (simp add: store_GetTask_def view_def)
  with Cons t show ?case
    by (auto simp: fun_eq_iff map_add_def restrict_map_def split: option.splits)
qed

lemma RecoverTasks_sync:
  assumes "in_sync B J e d" and "bolt_view_err B d = None"
  shows "RecoverTasks B J d (engine_SetStore NewEngine) =
    (None, (engine_SetStore NewEngine)\<lparr>tasks := tasks e\<rparr>)"
proof -
  obtain ids where ids: "store_ListTasks B d = Inr ids"
    using assms(2) by (simp add: store_ListTasks_def view_def)
  have "set ids = dom (tasks e)"
    using set_store_ListTasks [OF ids] assms(1)
    by (auto simp: in_sync_def dom_def) (metis option.distinct(1) option.exhaust)+
  moreover have "tasks e |` dom (tasks e) = tasks e"
    by (simp add: fun_eq_iff restrict_map_def domIff)
  ultimately have "recover_loop B J d ids Map.empty = tasks e"
    using recover_loop_sync [OF assms, of ids Map.empty] by simp
  with ids show ?thesis
    by (simp add: RecoverTasks_def engine_SetStore_def NewEngine_def)
qed

end


lemma demo_persists: "persists mem_bolt demo_codec demo_task mem_empty"
  by (simp add: persists_def demo_codec_def demo_task_def PutTask_def mem_bolt_def)


text \<open>
  The life cycle only binds transitions. Registering a task, which the router does for
  every incoming task whatever its identifier, replaces an existing record without looking at
  its status: a task that has reached a terminal state is submitted again.
\<close>

theorem RegisterTask_reopens_terminal:
  assumes "tasks e (task_ID t) = Some old" and "IsTerminal (Status old)" and "\<not> IsTerminal (Status t)"
  shows "tasks (fst (RegisterTask B J t e d)) (task_ID t) = Some t \<and>
    \<not> status_step\<^sup>*\<^sup>* (Status old) (Status t)"
proof
  show "tasks (fst (RegisterTask B J t e d)) (task_ID t) = Some t"
    by (simp add: RegisterTask_def Let_def)
  show "\<not> status_step\<^sup>*\<^sup>* (Status old) (Status t)"
    using assms terminal_stuck by (metis converse_rtranclpE)
qed

theorem RegisterTask_reopens_terminal_witness:
  "tasks (fst (RegisterTask mem_bolt demo_codec demo_task
     (demo_engine\<lparr>tasks := [''k'' \<mapsto> demo_task\<lparr>Status := StatusCompleted\<rparr>]\<rparr>) mem_empty)) ''k'' =
     Some demo_task"
  using RegisterTask_reopens_terminal
    [of "demo_engine\<lparr>tasks := [''k'' \<mapsto> demo_task\<lparr>Status := StatusCompleted\<rparr>]\<rparr>" demo_task
        "demo_task\<lparr>Status := StatusCompleted\<rparr>" mem_bolt demo_codec mem_empty]
  by (simp add: demo_task_def)

end
