(* ===== verification/AckTracker.thy ===== *)
theory AckTracker
  imports Proto
begin

text \<open>
  Acknowledgement tracking and retransmission, \<^verbatim>\<open>internal/a2a/ack_tracker.go\<close>.

  \<open>SendFunc\<close> and \<open>MaxRetriesFunc\<close> act on the outside world, the type variable \<open>'w\<close>.
  \<open>processRetries\<close> is the retry round run without interruption. The code releases the mutex
  while it sends, so other goroutines may call \<open>Track\<close> and \<open>Acknowledge\<close> in between: the
  relation \<open>ack_step\<close> has one rule per critical section and per send, in any interleaving.
\<close>

type_synonym 'w send_func = "peer_id \<Rightarrow> bytes \<Rightarrow> 'w \<Rightarrow> string option \<times> 'w"
type_synonym 'w max_retries_func = "peer_id \<Rightarrow> string \<Rightarrow> bytes \<Rightarrow> 'w \<Rightarrow> 'w"

definition defaultMaxRetries :: nat where
  "defaultMaxRetries = 3"

definition defaultBaseInterval :: duration where
  "defaultBaseInterval = 2 * Second"

record pendingMessage =
  envelopeID :: string
  target :: peer_id
  data :: bytes
  retries :: nat
  nextRetry :: gotime

record AckTracker =
  pending :: "string \<rightharpoonup> pendingMessage"

definition NewAckTracker :: AckTracker where
  "NewAckTracker = \<lparr>pending = Map.empty\<rparr>"

definition Track :: "gotime \<Rightarrow> peer_id \<Rightarrow> string \<Rightarrow> bytes \<Rightarrow> AckTracker \<Rightarrow> AckTracker" where
  "Track now tgt eid dat at = at\<lparr>pending := (pending at)(eid \<mapsto>
     \<lparr>envelopeID = eid, target = tgt, data = dat, retries = 0,
      nextRetry = now + defaultBaseInterval\<rparr>)\<rparr>"

definition Acknowledge :: "string \<Rightarrow> AckTracker \<Rightarrow> bool \<times> AckTracker" where
  "Acknowledge eid at =
     (case pending at eid of
        Some _ \<Rightarrow> (True, at\<lparr>pending := (pending at)(eid := None)\<rparr>)
      | None \<Rightarrow> (False, at))"

definition SendAck :: "pb_codec \<Rightarrow> 'w send_func \<Rightarrow> string \<Rightarrow> gotime \<Rightarrow> peer_id \<Rightarrow> string \<Rightarrow> 'w \<Rightarrow>
    string option \<times> 'w" where
  "SendAck P send uuid now tgt acknowledgedEnvelopeID w =
     (let env = \<lparr>EnvelopeId = uuid, env_Type = ENVELOPE_TYPE_ACK, env_Timestamp = Some now,
                 TraceParent = [], TraceState = [],
                 env_Payload = Some (PAck \<lparr>AcknowledgedEnvelopeId = acknowledgedEnvelopeID\<rparr>)\<rparr>
      in case pb_Marshal P env of
           None \<Rightarrow> (Some ''marshal ACK envelope'', w)
         | Some dat \<Rightarrow> send tgt dat w)"

section \<open>The retry round\<close>

text \<open>The first critical section: which messages are due, split by their retry count. The order
  is that of the iteration over the pending map.\<close>

fun classify :: "gotime \<Rightarrow> string list \<Rightarrow> (string \<rightharpoonup> pendingMessage) \<Rightarrow>
    pendingMessage list \<times> pendingMessage list" where
  "classify now [] m = ([], [])"
| "classify now (k # ks) m =
     (let (toRetry, expired) = classify now ks m in
      case m k of
        None \<Rightarrow> (toRetry, expired)
      | Some pm \<Rightarrow>
          if now < nextRetry pm then (toRetry, expired)
          else if retries pm \<ge> defaultMaxRetries then (toRetry, pm # expired)
          else (pm # toRetry, expired))"

fun delete_expired :: "pendingMessage list \<Rightarrow> AckTracker \<Rightarrow> AckTracker" where
  "delete_expired [] at = at"
| "delete_expired (pm # pms) at =
     delete_expired pms (at\<lparr>pending := (pending at)(envelopeID pm := None)\<rparr>)"

fun call_expired :: "'w max_retries_func option \<Rightarrow> pendingMessage list \<Rightarrow> 'w \<Rightarrow> 'w" where
  "call_expired onMax [] w = w"
| "call_expired onMax (pm # pms) w =
     call_expired onMax pms
       (case onMax of None \<Rightarrow> w | Some fn \<Rightarrow> fn (target pm) (envelopeID pm) (data pm) w)"

definition backoff :: "nat \<Rightarrow> duration" where
  "backoff n = defaultBaseInterval * 2 ^ n"

text \<open>The critical section after a retransmission.\<close>

definition reschedule :: "gotime \<Rightarrow> string \<Rightarrow> AckTracker \<Rightarrow> AckTracker" where
  "reschedule now eid at =
     (case pending at eid of
        None \<Rightarrow> at
      | Some p \<Rightarrow> at\<lparr>pending := (pending at)(eid \<mapsto>
          p\<lparr>retries := retries p + 1, nextRetry := now + backoff (retries p + 1)\<rparr>)\<rparr>)"

fun retry_all :: "'w send_func \<Rightarrow> (string \<Rightarrow> gotime) \<Rightarrow> pendingMessage list \<Rightarrow> AckTracker \<Rightarrow> 'w \<Rightarrow>
    AckTracker \<times> 'w" where
  "retry_all send clock [] at w = (at, w)"
| "retry_all send clock (pm # pms) at w =
     (let (err, w') = send (target pm) (data pm) w
      in retry_all send clock pms (reschedule (clock (envelopeID pm)) (envelopeID pm) at) w')"

definition processRetries :: "'w send_func \<Rightarrow> 'w max_retries_func option \<Rightarrow> gotime \<Rightarrow> string list \<Rightarrow>
    (string \<Rightarrow> gotime) \<Rightarrow> AckTracker \<Rightarrow> 'w \<Rightarrow> AckTracker \<times> 'w" where
  "processRetries send onMax now order clock at w =
     (let (toRetry, expired) = classify now order (pending at);
          at1 = delete_expired expired at;
          w1 = call_expired onMax expired w
      in retry_all send clock toRetry at1 w1)"

section \<open>Interleaving\<close>

text \<open>
  What the retry goroutine has still to do: between rounds, or in a round with the messages to
  send, the flag telling whether the first one has been sent and only its rescheduling is left.
\<close>

datatype loop_state = Waiting | Round "pendingMessage list" bool

datatype ack_event = Sent string | GaveUp string

record ack_system =
  tracker :: AckTracker
  loop :: loop_state
  events :: "ack_event list"

inductive ack_step :: "ack_system \<Rightarrow> string option \<Rightarrow> ack_system \<Rightarrow> bool" where
  track: "ack_step s (Some eid) (s\<lparr>tracker := Track now tgt eid dat (tracker s)\<rparr>)"
| acknowledge: "ack_step s None (s\<lparr>tracker := snd (Acknowledge eid (tracker s))\<rparr>)"
| tick: "loop s = Waiting \<Longrightarrow> distinct order \<Longrightarrow> set order = dom (pending (tracker s)) \<Longrightarrow>
    classify now order (pending (tracker s)) = (toRetry, expired) \<Longrightarrow>
    ack_step s None (s\<lparr>tracker := delete_expired expired (tracker s),
                      loop := Round toRetry False,
                      events := events s @ map (GaveUp \<circ> envelopeID) expired\<rparr>)"
| resend: "loop s = Round (pm # pms) False \<Longrightarrow>
    ack_step s None (s\<lparr>loop := Round (pm # pms) True, events := events s @ [Sent (envelopeID pm)]\<rparr>)"
| after_send: "loop s = Round (pm # pms) True \<Longrightarrow>
    ack_step s None (s\<lparr>tracker := reschedule now (envelopeID pm) (tracker s), loop := Round pms False\<rparr>)"
| round_done: "loop s = Round [] False \<Longrightarrow> ack_step s None (s\<lparr>loop := Waiting\<rparr>)"

text \<open>The label names the identifier a step tracks. Reachable states, and the runs in which
  nobody tracks \<open>eid\<close> again.\<close>

inductive ack_reachable :: "ack_system \<Rightarrow> bool" where
  start: "ack_reachable \<lparr>tracker = NewAckTracker, loop = Waiting, events = []\<rparr>"
| more: "ack_reachable s \<Longrightarrow> ack_step s l s' \<Longrightarrow> ack_reachable s'"

inductive ack_quiet :: "string \<Rightarrow> ack_system \<Rightarrow> ack_system \<Rightarrow> bool" for eid where
  quiet_none: "ack_quiet eid s s"
| quiet_more: "ack_quiet eid s s' \<Longrightarrow> ack_step s' l s'' \<Longrightarrow> l \<noteq> Some eid \<Longrightarrow> ack_quiet eid s s''"

text \<open>How often the current round will still send \<open>eid\<close>.\<close>

fun to_send :: "string \<Rightarrow> loop_state \<Rightarrow> nat" where
  "to_send eid Waiting = 0"
| "to_send eid (Round pms sent) = count_list (map envelopeID (if sent then tl pms else pms)) eid"

text \<open>The invariant: messages are stored under their own identifier, no retry count passes the
  maximum, and what a round has still to send is below it.\<close>

definition ack_wf :: "AckTracker \<Rightarrow> bool" where
  "ack_wf at \<longleftrightarrow> (\<forall>k p. pending at k = Some p \<longrightarrow> envelopeID p = k \<and> retries p \<le> defaultMaxRetries)"

fun loop_wf :: "AckTracker \<Rightarrow> loop_state \<Rightarrow> bool" where
  "loop_wf at Waiting = True"
| "loop_wf at (Round pms sent) \<longleftrightarrow> (sent \<longrightarrow> pms \<noteq> []) \<and> distinct (map envelopeID pms) \<and>
     (\<forall>pm\<in>set pms. \<forall>p. pending at (envelopeID pm) = Some p \<longrightarrow> retries p < defaultMaxRetries)"

definition ack_inv :: "ack_system \<Rightarrow> bool" where
  "ack_inv s \<longleftrightarrow> ack_wf (tracker s) \<and> loop_wf (tracker s) (loop s)"

text \<open>A world that records what was sent and what was given up, for the theorems about the
  schedule.\<close>

datatype ack_log = LogSend peer_id bytes | LogGiveUp peer_id string bytes

definition log_send :: "ack_log list send_func" where
  "log_send tgt dat w = (None, w @ [LogSend tgt dat])"

definition log_give_up :: "ack_log list max_retries_func" where
  "log_give_up tgt eid dat w = w @ [LogGiveUp tgt eid dat]"

text \<open>A sequence of rounds, each with the time of its tick, the order in which it visits the
  pending messages and the clock readings of its rescheduling; \<open>due_rounds\<close> says that the
  orders fit and that the message \<open>eid\<close> is due at every tick.\<close>

fun run_rounds :: "(gotime \<times> string list \<times> (string \<Rightarrow> gotime)) list \<Rightarrow> AckTracker \<Rightarrow> ack_log list \<Rightarrow>
    AckTracker \<times> ack_log list" where
  "run_rounds [] at w = (at, w)"
| "run_rounds ((now, order, clock) # rs) at w =
     (let (at', w') = processRetries log_send (Some log_give_up) now order clock at w
      in run_rounds rs at' w')"

fun due_rounds :: "string \<Rightarrow> (gotime \<times> string list \<times> (string \<Rightarrow> gotime)) list \<Rightarrow> AckTracker \<Rightarrow>
    ack_log list \<Rightarrow> bool" where
  "due_rounds eid [] at w = True"
| "due_rounds eid ((now, order, clock) # rs) at w \<longleftrightarrow>
     distinct order \<and> set order = dom (pending at) \<and>
     (case pending at eid of None \<Rightarrow> True | Some p \<Rightarrow> nextRetry p \<le> now) \<and>
     (let (at', w') = processRetries log_send (Some log_give_up) now order clock at w
      in due_rounds eid rs at' w')"

section \<open>Lemmas on one round\<close>

lemma classify_sets:
  "classify now ks m = (toRetry, expired) \<Longrightarrow>
     set toRetry = {p. \<exists>k\<in>set ks. m k = Some p \<and> nextRetry p \<le> now \<and> retries p < defaultMaxRetries} \<and>
     set expired = {p. \<exists>k\<in>set ks. m k = Some p \<and> nextRetry p \<le> now \<and> defaultMaxRetries \<le> retries p}"
  by (induction ks arbitrary: toRetry expired)
    (fastforce simp: Let_def split: prod.splits option.splits if_splits)+

lemma classify_distinct:
  assumes "\<forall>k p. m k = Some p \<longrightarrow> envelopeID p = k" and "distinct ks"
    and "classify now ks m = (toRetry, expired)"
  shows "distinct (map envelopeID toRetry) \<and> distinct (map envelopeID expired)"
  using assms(2,3)
proof (induction ks arbitrary: toRetry expired)
  case Nil
  then show ?case by simp
next
  case (Cons k ks)
  obtain r x where rx: "classify now ks m = (r, x)" by (cases "classify now ks m")
  with Cons have IH: "distinct (map envelopeID r) \<and> distinct (map envelopeID x)" by simp
  have "k \<notin> envelopeID ` set r \<and> k \<notin> envelopeID ` set x"
    using classify_sets [OF rx] Cons.prems(1) assms(1) by auto
  with IH Cons.prems(2) rx assms(1) show ?case
    by (auto split: option.splits if_splits)
qed

lemma pending_delete_expired:
  "pending (delete_expired pms at) k = (if k \<in> envelopeID ` set pms then None else pending at k)"
  by (induction pms arbitrary: at) auto

lemma pending_reschedule:
  "pending (reschedule now eid at) k =
     (if k = eid then map_option (\<lambda>p. p\<lparr>retries := retries p + 1,
        nextRetry := now + backoff (retries p + 1)\<rparr>) (pending at eid)
      else pending at k)"
  by (simp add: reschedule_def split: option.split)

lemma pending_retry_all:
  "distinct (map envelopeID pms) \<Longrightarrow> pending (fst (retry_all send clock pms at w)) k =
     (if k \<in> envelopeID ` set pms
      then map_option (\<lambda>p. p\<lparr>retries := retries p + 1,
             nextRetry := clock k + backoff (retries p + 1)\<rparr>) (pending at k)
      else pending at k)"
  by (induction pms arbitrary: at w) (auto simp: pending_reschedule split: prod.split)

lemma Acknowledge_pending: "pending (snd (Acknowledge eid at)) = (pending at)(eid := None)"
  by (auto simp: Acknowledge_def fun_eq_iff split: option.splits)

lemma pending_processRetries:
  assumes wf: "ack_wf at" and order: "distinct order" "set order = dom (pending at)"
  shows "pending (fst (processRetries send onMax now order clock at w)) k =
    (case pending at k of
       None \<Rightarrow> None
     | Some p \<Rightarrow>
         if now < nextRetry p then Some p
         else if defaultMaxRetries \<le> retries p then None
         else Some (p\<lparr>retries := retries p + 1, nextRetry := clock k + backoff (retries p + 1)\<rparr>))"
proof -
  obtain r x where rx: "classify now order (pending at) = (r, x)"
    by (cases "classify now order (pending at)")
  have keys: "\<forall>k p. pending at k = Some p \<longrightarrow> envelopeID p = k"
    using wf by (simp add: ack_wf_def)
  have d: "distinct (map envelopeID r)"
    using classify_distinct [OF keys order(1) rx] by simp
  have sets: "k \<in> envelopeID ` set r \<longleftrightarrow>
      (\<exists>p. pending at k = Some p \<and> nextRetry p \<le> now \<and> retries p < defaultMaxRetries)"
    "k \<in> envelopeID ` set x \<longleftrightarrow>
      (\<exists>p. pending at k = Some p \<and> nextRetry p \<le> now \<and> defaultMaxRetries \<le> retries p)"
    using classify_sets [OF rx] keys order(2) by (auto simp: image_iff dom_def)
  show ?thesis
    by (auto simp: processRetries_def rx Let_def pending_retry_all [OF d] pending_delete_expired
        sets not_less not_le split: option.split)
qed

text \<open>
  One retry round, message by message: a message that is not due stays as it is, one that
  is due and has retries left gets one more with the doubled interval, one that has none left
  is dropped from the pending map.
\<close>

theorem processRetries_effect:
  assumes "ack_wf at" and "distinct order" and "set order = dom (pending at)"
  shows "pending (fst (processRetries send onMax now order clock at w)) k =
    (case pending at k of
       None \<Rightarrow> None
     | Some p \<Rightarrow>
         if now < nextRetry p then Some p
         else if retries p < 3
         then Some (p\<lparr>retries := retries p + 1,
                      nextRetry := clock k + 2000000000 * 2 ^ (retries p + 1)\<rparr>)
         else None)"
  using pending_processRetries [OF assms, of send onMax now clock w k]
  by (auto simp: defaultMaxRetries_def backoff_def defaultBaseInterval_def Second_def
      split: option.splits)

definition demo_tracker :: AckTracker where
  "demo_tracker = Track 0 ''p'' ''e'' [7] NewAckTracker"

lemma demo_tracker_dom: "dom (pending demo_tracker) = {''e''}" "ack_wf demo_tracker"
  by (auto simp: demo_tracker_def Track_def NewAckTracker_def ack_wf_def split: if_splits)

theorem processRetries_effect_witness:
  "map_option retries (pending (fst (processRetries log_send None 2000000000 [''e''] (\<lambda>_. 5)
     demo_tracker [])) ''e'') = Some 1"
  using processRetries_effect [of demo_tracker "[''e'']" log_send None 2000000000 "\<lambda>_. 5" "[]" "''e''"]
  by (simp add: demo_tracker_dom) (simp add: demo_tracker_def Track_def defaultBaseInterval_def Second_def)

section \<open>The invariant\<close>

lemma ack_wf_Track [inv_intros]: "ack_wf at \<Longrightarrow> ack_wf (Track now tgt eid dat at)"
  by (simp add: ack_wf_def Track_def)

lemma ack_wf_Acknowledge [inv_intros]: "ack_wf at \<Longrightarrow> ack_wf (snd (Acknowledge eid at))"
  by (simp add: ack_wf_def Acknowledge_pending)

lemma ack_wf_delete_expired [inv_intros]: "ack_wf at \<Longrightarrow> ack_wf (delete_expired pms at)"
  by (auto simp: ack_wf_def pending_delete_expired split: if_splits)

lemma ack_wf_reschedule [inv_intros]:
  "ack_wf at \<Longrightarrow> \<forall>p. pending at eid = Some p \<longrightarrow> retries p < defaultMaxRetries \<Longrightarrow>
     ack_wf (reschedule now eid at)"
  by (auto simp: ack_wf_def pending_reschedule split: if_splits)

lemma ack_step_inv: "ack_step s l s' \<Longrightarrow> ack_inv s \<Longrightarrow> ack_inv s'"
proof (induction rule: ack_step.induct)
  case (track s eid now tgt dat)
  then show ?case
    by (cases "loop s") (auto simp: ack_inv_def Track_def defaultMaxRetries_def ack_wf_def)
next
  case (acknowledge s eid)
  then show ?case
    by (cases "loop s") (auto simp: ack_inv_def Acknowledge_pending intro: inv_intros)
next
  case (tick s order now toRetry expired)
  have keys: "\<forall>k p. pending (tracker s) k = Some p \<longrightarrow> envelopeID p = k"
    using tick.prems by (simp add: ack_inv_def ack_wf_def)
  then show ?case
    using tick classify_distinct [OF keys tick(2,4)] classify_sets [OF tick(4)]
    by (auto simp: ack_inv_def pending_delete_expired intro: inv_intros split: if_splits)
next
  case (resend s pm pms)
  then show ?case by (auto simp: ack_inv_def)
next
  case (after_send s pm pms now)
  then show ?case
    by (auto simp: ack_inv_def pending_reschedule intro!: inv_intros) (metis image_eqI)
next
  case (round_done s)
  then show ?case by (simp add: ack_inv_def)
qed

lemma ack_reachable_inv: "ack_reachable s \<Longrightarrow> ack_inv s"
proof (induction rule: ack_reachable.induct)
  case start
  show ?case by (simp add: ack_inv_def ack_wf_def NewAckTracker_def)
next
  case (more s l s')
  then show ?case by (blast intro: ack_step_inv)
qed

text \<open>
  Whatever the interleaving of the retry goroutine with \<open>Track\<close> and \<open>Acknowledge\<close>, a
  pending message is stored under its own identifier, its retry count never passes three, and
  the back-off shift stays below the width of a duration.
\<close>

theorem ack_retries_bounded:
  assumes "ack_reachable s" and "pending (tracker s) k = Some p"
  shows "envelopeID p = k \<and> retries p \<le> 3 \<and> backoff (retries p + 1) < 2 ^ 63"
proof -
  have "envelopeID p = k" and r: "retries p \<le> 3"
    using ack_reachable_inv [OF assms(1)] assms(2)
    by (auto simp: ack_inv_def ack_wf_def defaultMaxRetries_def)
  moreover have "(2::int) ^ (retries p + 1) \<le> 2 ^ 4"
    using r by (intro power_increasing) auto
  ultimately show ?thesis
    by (simp add: backoff_def defaultBaseInterval_def Second_def)
qed

theorem ack_retries_bounded_witness:
  "\<exists>s. ack_reachable s \<and> pending (tracker s) ''e'' = pending demo_tracker ''e'' \<and>
     retries (the (pending (tracker s) ''e'')) \<le> 3"
proof -
  let ?s = "\<lparr>tracker = demo_tracker, loop = Waiting, events = []\<rparr>"
  have r: "ack_reachable ?s"
    using ack_reachable.more [OF ack_reachable.start ack_step.track [of _ "''e''" 0 "''p''" "[7]"]]
    by (simp add: demo_tracker_def)
  moreover obtain p where p: "pending (tracker ?s) ''e'' = Some p"
    by (simp add: demo_tracker_def Track_def)
  ultimately show ?thesis
    using ack_retries_bounded [OF r p] by (intro exI [of _ ?s]) simp
qed

section \<open>Acknowledged messages\<close>

lemma count_list_distinct: "distinct xs \<Longrightarrow> count_list xs x = (if x \<in> set xs then 1 else 0)"
  by (induction xs) auto

lemma count_list_map_notin: "c \<notin> f ` set xs \<Longrightarrow> count_list (map f xs) c = 0"
  by (simp add: count_list_0_iff)

text \<open>One step once the message is not pending: it stays so, no new give-up, and every send is
  paid for by the round that had collected it.\<close>

lemma ack_step_not_pending:
  assumes "ack_step s l s'" and "l \<noteq> Some eid" and "pending (tracker s) eid = None" and "ack_inv s"
  shows "pending (tracker s') eid = None \<and>
    count_list (events s') (GaveUp eid) = count_list (events s) (GaveUp eid) \<and>
    count_list (events s') (Sent eid) + to_send eid (loop s') \<le>
      count_list (events s) (Sent eid) + to_send eid (loop s)"
  using assms
proof (induction rule: ack_step.induct)
  case (tick s order now toRetry expired)
  then have "eid \<notin> envelopeID ` set toRetry" "eid \<notin> envelopeID ` set expired"
    using classify_sets [OF tick(4)] by (auto simp: ack_inv_def ack_wf_def)
  with tick show ?case
    by (auto simp: pending_delete_expired count_list_0_iff)
qed (auto simp: Track_def Acknowledge_pending pending_reschedule)

lemma ack_quiet_not_pending:
  "ack_quiet eid s s' \<Longrightarrow> pending (tracker s) eid = None \<Longrightarrow> ack_inv s \<Longrightarrow>
     ack_inv s' \<and> pending (tracker s') eid = None \<and>
     count_list (events s') (GaveUp eid) = count_list (events s) (GaveUp eid) \<and>
     count_list (events s') (Sent eid) + to_send eid (loop s') \<le>
       count_list (events s) (Sent eid) + to_send eid (loop s)"
proof (induction rule: ack_quiet.induct)
  case (quiet_none s)
  then show ?case by simp
next
  case (quiet_more s s' l s'')
  then show ?case
    using ack_step_not_pending [of s' l s'' eid] ack_step_inv [of s' l s''] by auto
qed

lemma to_send_le_1: "loop_wf at l \<Longrightarrow> to_send eid l \<le> 1"
proof (cases l)
  case (Round pms sent)
  assume "loop_wf at l"
  with Round show ?thesis
    by (cases pms) (auto simp: count_list_distinct)
qed simp

text \<open>
  Acknowledging a message stops it: as long as nobody tracks the same identifier again, it
  is never handed to the give-up callback, and it is sent at most once more, by a round that
  had collected it before the acknowledgement arrived.
\<close>

theorem acknowledged_message_stops:
  assumes "ack_reachable s" and "ack_quiet eid (s\<lparr>tracker := snd (Acknowledge eid (tracker s))\<rparr>) s'"
  shows "pending (tracker s') eid = None \<and>
    count_list (events s') (GaveUp eid) = count_list (events s) (GaveUp eid) \<and>
    count_list (events s') (Sent eid) \<le> count_list (events s) (Sent eid) + 1 \<and>
    (loop s = Waiting \<longrightarrow> count_list (events s') (Sent eid) \<le> count_list (events s) (Sent eid))"
proof -
  let ?s = "s\<lparr>tracker := snd (Acknowledge eid (tracker s))\<rparr>"
  have inv: "ack_inv ?s"
    using ack_step_inv [OF ack_step.acknowledge] ack_reachable_inv [OF assms(1)] .
  have "pending (tracker ?s) eid = None" by (simp add: Acknowledge_pending)
  note q = ack_quiet_not_pending [OF assms(2) this inv]
  have "to_send eid (loop ?s) \<le> 1"
    using inv to_send_le_1 by (auto simp: ack_inv_def)
  with q show ?thesis by auto
qed

theorem acknowledged_message_stops_witness:
  "\<exists>s. ack_reachable s \<and> pending (tracker s) ''e'' \<noteq> None \<and>
     pending (snd (Acknowledge ''e'' (tracker s))) ''e'' = None \<and>
     count_list (events s) (Sent ''e'') \<le> count_list (events s) (Sent ''e'') + 1"
proof -
  let ?s = "\<lparr>tracker = demo_tracker, loop = Waiting, events = []\<rparr>"
  have r: "ack_reachable ?s"
    using ack_reachable.more [OF ack_reachable.start ack_step.track [of _ "''e''" 0 "''p''" "[7]"]]
    by (simp add: demo_tracker_def)
  have "pending (tracker ?s) ''e'' \<noteq> None"
    by (simp add: demo_tracker_def Track_def)
  then show ?thesis
    using r acknowledged_message_stops [OF r ack_quiet.quiet_none]
    by (intro exI [of _ ?s]) simp
qed

section \<open>Unacknowledged messages\<close>

lemma call_expired_log:
  "call_expired (Some log_give_up) pms w =
     w @ map (\<lambda>pm. LogGiveUp (target pm) (envelopeID pm) (data pm)) pms"
  by (induction pms arbitrary: w) (auto simp: log_give_up_def)

lemma retry_all_log:
  "snd (retry_all log_send clock pms at w) = w @ map (\<lambda>pm. LogSend (target pm) (data pm)) pms"
  by (induction pms arbitrary: at w) (auto simp: log_send_def)

lemma processRetries_log:
  assumes "classify now order (pending at) = (toRetry, expired)"
  shows "snd (processRetries log_send (Some log_give_up) now order clock at w) =
    w @ map (\<lambda>pm. LogGiveUp (target pm) (envelopeID pm) (data pm)) expired
      @ map (\<lambda>pm. LogSend (target pm) (data pm)) toRetry"
  using assms by (simp add: processRetries_def call_expired_log retry_all_log)

lemma ack_wf_processRetries [inv_intros]:
  assumes "ack_wf at" and "distinct order" and "set order = dom (pending at)"
  shows "ack_wf (fst (processRetries send onMax now order clock at w))"
  unfolding ack_wf_def
proof (intro allI impI)
  fix k p
  assume p: "pending (fst (processRetries send onMax now order clock at w)) k = Some p"
  then show "envelopeID p = k \<and> retries p \<le> defaultMaxRetries"
    using assms(1) unfolding pending_processRetries [OF assms] ack_wf_def
    by (auto split: option.splits if_splits)
qed

lemma due_round_log:
  assumes wf: "ack_wf at" and order: "distinct order" "set order = dom (pending at)"
    and p: "pending at eid = Some p" "nextRetry p \<le> now"
  shows "\<exists>new. snd (processRetries log_send (Some log_give_up) now order clock at w) = w @ new \<and>
    (if retries p < defaultMaxRetries then LogSend (target p) (data p) \<in> set new
     else LogGiveUp (target p) eid (data p) \<in> set new)"
proof -
  obtain r x where rx: "classify now order (pending at) = (r, x)"
    by (cases "classify now order (pending at)")
  have "eid \<in> set order" and "envelopeID p = eid"
    using order(2) p(1) wf by (auto simp: ack_wf_def)
  then have "if retries p < defaultMaxRetries then p \<in> set r else p \<in> set x"
    using classify_sets [OF rx] p by auto
  with \<open>envelopeID p = eid\<close> show ?thesis
    by (auto simp: processRetries_log [OF rx] split: if_splits)
qed

lemma run_rounds_gives_up:
  assumes "ack_wf at" and "pending at eid = Some p" and "due_rounds eid rs at w"
    and "length rs = Suc (defaultMaxRetries - retries p)"
  shows "pending (fst (run_rounds rs at w)) eid = None \<and>
    (\<exists>new. snd (run_rounds rs at w) = w @ new \<and>
      defaultMaxRetries - retries p \<le> count_list new (LogSend (target p) (data p)) \<and>
      LogGiveUp (target p) eid (data p) \<in> set new)"
  using assms
proof (induction rs arbitrary: at w p)
  case Nil
  then show ?case by simp
next
  case (Cons r rs)
  obtain now order clock where r: "r = (now, order, clock)" by (cases r)
  let ?P = "processRetries log_send (Some log_give_up) now order clock at w"
  have order: "distinct order" "set order = dom (pending at)" and due: "nextRetry p \<le> now"
    and rest: "due_rounds eid rs (fst ?P) (snd ?P)"
    using Cons.prems(2,3) r by (auto simp: Let_def split: prod.splits)
  obtain new where new: "snd ?P = w @ new"
      "if retries p < defaultMaxRetries then LogSend (target p) (data p) \<in> set new
       else LogGiveUp (target p) eid (data p) \<in> set new"
    using due_round_log [OF Cons.prems(1) order Cons.prems(2) due] by blast
  have run: "run_rounds (r # rs) at w = run_rounds rs (fst ?P) (snd ?P)"
    using r by (simp add: Let_def split: prod.split)
  show ?case
  proof (cases "retries p < defaultMaxRetries")
    case True
    let ?q = "p\<lparr>retries := retries p + 1, nextRetry := clock eid + backoff (retries p + 1)\<rparr>"
    have q: "pending (fst ?P) eid = Some ?q"
      using Cons.prems(2) due True by (simp add: pending_processRetries [OF Cons.prems(1) order])
    have len: "length rs = Suc (defaultMaxRetries - retries ?q)"
      using Cons.prems(4) True by simp
    obtain new' where "pending (fst (run_rounds rs (fst ?P) (snd ?P))) eid = None"
        "snd (run_rounds rs (fst ?P) (snd ?P)) = snd ?P @ new'"
        "defaultMaxRetries - retries ?q \<le> count_list new' (LogSend (target p) (data p))"
        "LogGiveUp (target p) eid (data p) \<in> set new'"
      using Cons.IH [OF ack_wf_processRetries [OF Cons.prems(1) order] q rest len] by auto
    moreover have "1 \<le> count_list new (LogSend (target p) (data p))"
      using new(2) True count_list_0_iff [of new] by (simp add: Suc_le_eq) (metis neq0_conv)
    ultimately show ?thesis
      using run new(1) by (intro conjI exI [of _ "new @ new'"]) auto
  next
    case False
    then have "rs = []" and "pending (fst ?P) eid = None"
      using Cons.prems(2,4) due by (auto simp: pending_processRetries [OF Cons.prems(1) order])
    with run new False show ?thesis by auto
  qed
qed



end
