(* ===== verification/OfflineQueue.thy ===== *)
theory OfflineQueue
  imports Store
begin

text \<open>
  The offline queue of \<^verbatim>\<open>internal/a2a/offline_queue.go\<close>: messages for a disconnected peer are
  kept in the store under \<open>peer/envelope\<close>, each with an eight-byte timestamp in front, and sent
  when the peer is back. The send function acts on the outside world \<open>'w\<close>; the clock readings
  of \<open>time.Since\<close> are the argument \<open>clock\<close>, the iteration order of the map returned by the
  store is the argument \<open>order\<close>.
\<close>

section \<open>Definitions\<close>

record OfflineQueue =
  ttl :: duration

datatype queue_error =
    EnqueueFailed string string
  | ListFailed store_error
  | SendFailed string
  | DequeueFailed string

definition NewOfflineQueue :: "duration \<Rightarrow> OfflineQueue" where
  "NewOfflineQueue t = \<lparr>ttl = t\<rparr>"

definition queue_key :: "peer_id \<Rightarrow> string \<Rightarrow> string" where
  "queue_key peerID eid = peerID @ ''/'' @ eid"

definition stampData :: "gotime \<Rightarrow> bytes \<Rightarrow> bytes" where
  "stampData now dat = be_encode 8 (nat (unix_of now mod 2 ^ 64)) @ dat"

definition unstampData :: "bytes \<Rightarrow> gotime \<times> bytes" where
  "unstampData raw =
     (if length raw < 8 then (zero_time, raw)
      else (time_Unix (wrap64 (int (be_decode (take 8 raw)))), drop 8 raw))"

definition isExpired :: "OfflineQueue \<Rightarrow> gotime \<Rightarrow> gotime \<Rightarrow> bool" where
  "isExpired q now ts =
     (if ttl q = 0 \<or> ts = zero_time then False else time_Sub now ts > ttl q)"

definition Enqueue :: "'db bolt_ops \<Rightarrow> gotime \<Rightarrow> peer_id \<Rightarrow> string \<Rightarrow> bytes \<Rightarrow> 'db \<Rightarrow>
    queue_error option \<times> 'db" where
  "Enqueue B now peerID eid dat d =
     (let key = queue_key peerID eid;
          stamped = stampData now dat
      in case EnqueueMessage B key stamped d of
           (Some err, d') \<Rightarrow> (Some (EnqueueFailed key err), d')
         | (None, d') \<Rightarrow> (None, d'))"

record ('db, 'w) flush_state =
  fs_db :: 'db
  fs_world :: 'w
  flushed :: nat
  expired :: nat
  lastErr :: "queue_error option"

fun flush_loop :: "'db bolt_ops \<Rightarrow> OfflineQueue \<Rightarrow> (string \<Rightarrow> gotime) \<Rightarrow> string \<Rightarrow>
    (bytes \<Rightarrow> 'w \<Rightarrow> string option \<times> 'w) \<Rightarrow> (string \<rightharpoonup> bytes) \<Rightarrow> string list \<Rightarrow>
    ('db, 'w) flush_state \<Rightarrow> ('db, 'w) flush_state" where
  "flush_loop B q clock pfx sendFn msgs [] s = s"
| "flush_loop B q clock pfx sendFn msgs (key # keys) s =
     flush_loop B q clock pfx sendFn msgs keys
       (case msgs key of
          None \<Rightarrow> s
        | Some raw \<Rightarrow>
            if \<not> HasPrefix key pfx then s
            else let (ts, dat) = unstampData raw in
              if isExpired q (clock key) ts
              then s\<lparr>fs_db := snd (DequeueMessage B key (fs_db s)), expired := expired s + 1\<rparr>
              else case sendFn dat (fs_world s) of
                (Some err, w') \<Rightarrow> s\<lparr>fs_world := w', lastErr := Some (SendFailed err)\<rparr>
              | (None, w') \<Rightarrow>
                  (case DequeueMessage B key (fs_db s) of
                     (Some err, d') \<Rightarrow>
                       s\<lparr>fs_world := w', fs_db := d', lastErr := Some (DequeueFailed err)\<rparr>
                   | (None, d') \<Rightarrow>
                       s\<lparr>fs_world := w', fs_db := d', flushed := flushed s + 1\<rparr>))"

definition FlushQueue :: "'db bolt_ops \<Rightarrow> OfflineQueue \<Rightarrow> (string \<Rightarrow> gotime) \<Rightarrow> string list \<Rightarrow> peer_id \<Rightarrow>
    (bytes \<Rightarrow> 'w \<Rightarrow> string option \<times> 'w) \<Rightarrow> 'db \<Rightarrow> 'w \<Rightarrow> queue_error option \<times> 'db \<times> 'w" where
  "FlushQueue B q clock order peerID sendFn d w =
     (case ListQueuedMessages B d of
        Inl err \<Rightarrow> (Some (ListFailed err), d, w)
      | Inr msgs \<Rightarrow>
          let s = flush_loop B q clock (peerID @ ''/'') sendFn msgs order
                    \<lparr>fs_db = d, fs_world = w, flushed = 0, expired = 0, lastErr = None\<rparr>
          in (lastErr s, fs_db s, fs_world s))"

fun count_loop :: "OfflineQueue \<Rightarrow> (string \<Rightarrow> gotime) \<Rightarrow> string \<Rightarrow> (string \<rightharpoonup> bytes) \<Rightarrow> string list \<Rightarrow> nat \<Rightarrow> nat" where
  "count_loop q clock pfx msgs [] n = n"
| "count_loop q clock pfx msgs (key # keys) n =
     count_loop q clock pfx msgs keys
       (case msgs key of
          None \<Rightarrow> n
        | Some raw \<Rightarrow>
            if \<not> HasPrefix key pfx then n
            else if isExpired q (clock key) (fst (unstampData raw)) then n else n + 1)"

definition QueuedCount :: "'db bolt_ops \<Rightarrow> OfflineQueue \<Rightarrow> (string \<Rightarrow> gotime) \<Rightarrow> string list \<Rightarrow> peer_id \<Rightarrow>
    'db \<Rightarrow> store_error + nat" where
  "QueuedCount B q clock order peerID d =
     (case ListQueuedMessages B d of
        Inl err \<Rightarrow> Inl err
      | Inr msgs \<Rightarrow> Inr (count_loop q clock (peerID @ ''/'') msgs order 0))"

section \<open>Specification\<close>

text \<open>A link that accepts the messages in \<open>ok\<close> and records them.\<close>

definition link_send :: "(bytes \<Rightarrow> bool) \<Rightarrow> bytes \<Rightarrow> bytes list \<Rightarrow> string option \<times> bytes list" where
  "link_send ok dat w = (if ok dat then (None, w @ [dat]) else (Some ''unreachable'', w))"

text \<open>The fate of a queued message in a flush.\<close>

datatype fate = Keep | Drop | Deliver bytes

definition fate_of :: "OfflineQueue \<Rightarrow> (string \<Rightarrow> gotime) \<Rightarrow> (bytes \<Rightarrow> bool) \<Rightarrow> string \<Rightarrow>
    (string \<rightharpoonup> bytes) \<Rightarrow> string \<Rightarrow> fate" where
  "fate_of q clock ok pfx msgs key =
     (case msgs key of
        None \<Rightarrow> Keep
      | Some raw \<Rightarrow>
          if \<not> HasPrefix key pfx then Keep
          else if isExpired q (clock key) (fst (unstampData raw)) then Drop
          else if ok (snd (unstampData raw)) then Deliver (snd (unstampData raw)) else Keep)"

fun delivered :: "fate list \<Rightarrow> bytes list" where
  "delivered [] = []"
| "delivered (Deliver dat # fs) = dat # delivered fs"
| "delivered (_ # fs) = delivered fs"

section \<open>Keys and stamps\<close>

lemma queue_key_prefix:
  assumes "CHR ''/'' \<notin> set p" and "CHR ''/'' \<notin> set p'"
  shows "HasPrefix (queue_key p' eid) (p @ ''/'') \<longleftrightarrow> p' = p"
proof
  assume "HasPrefix (queue_key p' eid) (p @ ''/'')"
  then obtain t where t: "p' @ CHR ''/'' # eid = p @ CHR ''/'' # t"
    by (auto simp: HasPrefix_iff queue_key_def)
  then show "p' = p"
    using assms takeWhile_until by metis
qed (simp add: queue_key_def HasPrefix_def)

lemma unstamp_stamp:
  assumes "- (2 ^ 63) \<le> unix_of now" and "unix_of now + unixToInternal < 2 ^ 63"
  shows "unstampData (stampData now dat) = (unix_of now * Second, dat)"
proof -
  let ?u = "unix_of now mod 2 ^ 64"
  have u: "0 \<le> ?u" "?u < 2 ^ 64" by simp_all
  have "be_decode (be_encode 8 (nat ?u)) = nat ?u"
    using u by (simp add: be_decode_encode nat_less_iff)
  then have "wrap64 (int (be_decode (be_encode 8 (nat ?u)))) = wrap64 (unix_of now)"
    using u(1) wrap64_mod [of "unix_of now"] by simp
  also have "\<dots> = unix_of now"
    using assms by (intro wrap64_id) (simp_all add: unixToInternal_def)
  finally have "time_Unix (wrap64 (int (be_decode (be_encode 8 (nat ?u))))) = unix_of now * Second"
    using assms by (simp add: time_Unix_def unixToInternal_def)
  then show ?thesis
    by (simp add: unstampData_def stampData_def)
qed

text \<open>
  Stamping and unstamping are inverse for every clock reading an \<open>int64\<close> of seconds can
  hold: the message comes back unchanged, with its timestamp cut to the second, and a fresh
  message is not expired under any positive time to live.
\<close>

theorem stamp_roundtrip:
  assumes "- (2 ^ 63) \<le> unix_of now" and "unix_of now + unixToInternal < 2 ^ 63"
  shows "unstampData (stampData now dat) = (now - now mod Second, dat) \<and>
    (Second \<le> ttl q \<longrightarrow> \<not> isExpired q now (fst (unstampData (stampData now dat))))"
proof -
  have eq: "unix_of now * Second = now - now mod Second"
    by (simp add: unix_of_def minus_mod_eq_div_mult)
  have "0 \<le> now mod Second" "now mod Second < Second"
    by (simp_all add: Second_def)
  then show ?thesis
    unfolding unstamp_stamp [OF assms] eq
    by (auto simp: isExpired_def time_Sub_def min_def max_def Second_def)
qed

theorem stamp_roundtrip_witness:
  "unstampData (stampData 1700000000500000000 [1, 2]) = (1700000000000000000, [1, 2])"
  using stamp_roundtrip [of 1700000000500000000 "[1, 2]" "\<lparr>ttl = Second\<rparr>"]
  by (simp add: unix_of_def Second_def unixToInternal_def)

section \<open>Flushing\<close>

context bolt_db
begin

lemma flush_loop_exact:
  assumes del: "\<And>k d. fst (bolt_delete B offlineQueueBucket k d) = None"
    and "distinct order"
  shows "fs_world (flush_loop B q clock pfx (link_send ok) msgs order s) =
      fs_world s @ delivered (map (fate_of q clock ok pfx msgs) order) \<and>
    (\<forall>b k. bolt_get B b k (fs_db (flush_loop B q clock pfx (link_send ok) msgs order s)) =
      (if b = offlineQueueBucket \<and> k \<in> set order \<and> fate_of q clock ok pfx msgs k \<noteq> Keep
       then None else bolt_get B b k (fs_db s))) \<and>
    (lastErr (flush_loop B q clock pfx (link_send ok) msgs order s) = lastErr s \<or>
      (\<exists>k\<in>set order. fate_of q clock ok pfx msgs k = Keep \<and> HasPrefix k pfx))"
  using assms(2)
proof (induction order arbitrary: s)
  case Nil
  then show ?case by simp
next
  case (Cons key keys)
  let ?s = "case msgs key of
          None \<Rightarrow> s
        | Some raw \<Rightarrow>
            if \<not> HasPrefix key pfx then s
            else let (ts, dat) = unstampData raw in
              if isExpired q (clock key) ts
              then s\<lparr>fs_db := snd (DequeueMessage B key (fs_db s)), expired := expired s + 1\<rparr>
              else case link_send ok dat (fs_world s) of
                (Some err, w') \<Rightarrow> s\<lparr>fs_world := w', lastErr := Some (SendFailed err)\<rparr>
              | (None, w') \<Rightarrow>
                  (case DequeueMessage B key (fs_db s) of
                     (Some err, d') \<Rightarrow>
                       s\<lparr>fs_world := w', fs_db := d', lastErr := Some (DequeueFailed err)\<rparr>
                   | (None, d') \<Rightarrow>
                       s\<lparr>fs_world := w', fs_db := d', flushed := flushed s + 1\<rparr>)"
  have loop: "flush_loop B q clock pfx (link_send ok) msgs (key # keys) s =
      flush_loop B q clock pfx (link_send ok) msgs keys ?s" by simp
  obtain d' where d': "DequeueMessage B key (fs_db s) = (None, d')"
    using del [of key "fs_db s"] by (cases "DequeueMessage B key (fs_db s)") (auto simp: DequeueMessage_def)
  then have get: "bolt_get B b k d' =
      (if b = offlineQueueBucket \<and> k = key then None else bolt_get B b k (fs_db s))" for b k
    using get_delete [of offlineQueueBucket key "fs_db s" d'] by (simp add: DequeueMessage_def)
  let ?f = "fate_of q clock ok pfx msgs key"
  have w: "fs_world ?s = fs_world s @ delivered [?f]"
    using d' by (auto simp: fate_of_def link_send_def Let_def split: option.split prod.split)
  have d: "bolt_get B b k (fs_db ?s) =
      (if b = offlineQueueBucket \<and> k = key \<and> ?f \<noteq> Keep then None else bolt_get B b k (fs_db s))" for b k
    using d' get by (auto simp: fate_of_def link_send_def Let_def split: option.split prod.split)
  have e: "lastErr ?s = lastErr s \<or> ?f = Keep \<and> HasPrefix key pfx"
    using d' by (auto simp: fate_of_def link_send_def Let_def split: option.split prod.split)
  have app: "delivered (map (fate_of q clock ok pfx msgs) (key # keys)) =
      delivered [?f] @ delivered (map (fate_of q clock ok pfx msgs) keys)"
    by (cases ?f) auto
  show ?case
    unfolding loop using Cons.IH [of ?s] Cons.prems w d e app by auto
qed

end

lemma FlushQueue_spec:
  assumes "bolt_db B" and "bolt_view_err B d = None"
    and "\<And>k d. fst (bolt_delete B offlineQueueBucket k d) = None"
    and "distinct order" and "set order = {k. bolt_get B offlineQueueBucket k d \<noteq> None}"
    and "FlushQueue B q clock order peerID (link_send ok) d w = (err, d', w')"
  shows "let f = fate_of q clock ok (peerID @ ''/'') (\<lambda>k. bolt_get B offlineQueueBucket k d) in
    w' = w @ delivered (map f order) \<and>
    (\<forall>k. bolt_get B offlineQueueBucket k d' =
       (if f k = Keep then bolt_get B offlineQueueBucket k d else None)) \<and>
    (err \<noteq> None \<longrightarrow> (\<exists>k\<in>set order. f k = Keep \<and> HasPrefix k (peerID @ ''/'')))"
proof -
  let ?msgs = "\<lambda>k. bolt_get B offlineQueueBucket k d"
  let ?s0 = "\<lparr>fs_db = d, fs_world = w, flushed = 0, expired = 0, lastErr = None\<rparr>"
  let ?r = "flush_loop B q clock (peerID @ ''/'') (link_send ok) ?msgs order ?s0"
  have "ListQueuedMessages B d = Inr ?msgs"
    using bolt_db.ListQueuedMessages_eq [OF assms(1)] assms(2) by (simp add: view_def)
  then have r: "err = lastErr ?r" "d' = fs_db ?r" "w' = fs_world ?r"
    using assms(6) by (auto simp: FlushQueue_def Let_def)
  have keep: "fate_of q clock ok (peerID @ ''/'') ?msgs k = Keep" if "k \<notin> set order" for k
    using that assms(5) by (simp add: fate_of_def)
  show ?thesis
    using bolt_db.flush_loop_exact [OF assms(1,3,4), of q clock "peerID @ ''/''" ok ?msgs ?s0] keep r
    by (auto simp: Let_def)
qed

text \<open>
  C22. What a flush does, for a link that accepts some messages and refuses others, when the
  store lets messages be deleted: the messages delivered are exactly the ones of this peer
  that have not expired and that the link accepts, each once, in iteration order; those and
  the expired ones leave the queue; a message the link refuses stays for the next flush, and
  so does every message of another peer. Without a refused message there is no error.
\<close>

theorem FlushQueue_exact:
  assumes "bolt_db B" and "bolt_view_err B d = None"
    and "\<And>k d. fst (bolt_delete B offlineQueueBucket k d) = None"
    and "distinct order" and "set order = {k. bolt_get B offlineQueueBucket k d \<noteq> None}"
    and "FlushQueue B q clock order peerID (link_send ok) d w = (err, d', w')"
  shows "let f = fate_of q clock ok (peerID @ ''/'') (\<lambda>k. bolt_get B offlineQueueBucket k d) in
    w' = w @ delivered (map f order) \<and>
    (\<forall>k. bolt_get B offlineQueueBucket k d' =
       (if f k = Keep then bolt_get B offlineQueueBucket k d else None)) \<and>
    (err \<noteq> None \<longrightarrow> (\<exists>k\<in>set order. f k = Keep \<and> HasPrefix k (peerID @ ''/'')))"
  using assms by (rule FlushQueue_spec)

definition demo_queue_db :: mem_db where
  "demo_queue_db = snd (Enqueue mem_bolt 0 ''p'' ''e'' [7] mem_empty)"

lemma demo_queue_get:
  "bolt_get mem_bolt offlineQueueBucket k demo_queue_db =
     (if k = ''p/e'' then Some (stampData 0 [7]) else None)"
  by (simp add: demo_queue_db_def Enqueue_def EnqueueMessage_def queue_key_def mem_bolt_def
      mem_empty_def Let_def)

theorem FlushQueue_exact_witness:
  "\<exists>err d' w'. FlushQueue mem_bolt \<lparr>ttl = 0\<rparr> (\<lambda>_. 9) [''p/e''] ''p'' (link_send (\<lambda>_. True))
      demo_queue_db [] = (err, d', w') \<and>
     w' = [[7]] \<and> bolt_get mem_bolt offlineQueueBucket ''p/e'' d' = None"
proof -
  obtain err d' w' where r: "FlushQueue mem_bolt \<lparr>ttl = 0\<rparr> (\<lambda>_. 9) [''p/e''] ''p''
      (link_send (\<lambda>_. True)) demo_queue_db [] = (err, d', w')"
    by (metis prod_cases3)
  have st: "unstampData (stampData 0 [7]) = (0, [7])"
    using unstamp_stamp [of 0 "[7]"] by (simp add: unix_of_def Second_def unixToInternal_def)
  have f: "fate_of \<lparr>ttl = 0\<rparr> (\<lambda>_. 9) (\<lambda>_. True) ''p/''
      (\<lambda>k. bolt_get mem_bolt offlineQueueBucket k demo_queue_db) ''p/e'' = Deliver [7]"
    by (simp add: fate_of_def demo_queue_get isExpired_def HasPrefix_def st)
  have order: "set [''p/e''] = {k. bolt_get mem_bolt offlineQueueBucket k demo_queue_db \<noteq> None}"
    by (auto simp: demo_queue_get)
  have del: "fst (bolt_delete mem_bolt offlineQueueBucket k d) = None" for k d
    by (simp add: mem_bolt_def)
  have view: "bolt_view_err mem_bolt demo_queue_db = None"
    by (simp add: mem_bolt_def)
  have "w' = [[7]] \<and> bolt_get mem_bolt offlineQueueBucket ''p/e'' d' = None"
    using FlushQueue_exact [OF mem.bolt_db_axioms view del _ order r] f by (simp add: Let_def)
  with r show ?thesis by blast
qed

lemma Enqueue_spec:
  assumes "bolt_db B" and "Enqueue B now p' eid dat d = (None, d')"
    and "CHR ''/'' \<notin> set p" and "CHR ''/'' \<notin> set p'"
  shows "(HasPrefix (queue_key p' eid) (p @ ''/'') \<longleftrightarrow> p' = p) \<and>
    bolt_get B offlineQueueBucket (queue_key p' eid) d' = Some (stampData now dat) \<and>
    (\<forall>b k. (b, k) \<noteq> (offlineQueueBucket, queue_key p' eid) \<longrightarrow> bolt_get B b k d' = bolt_get B b k d)"
proof -
  have "bolt_put B offlineQueueBucket (queue_key p' eid) (stampData now dat) d = (None, d')"
    using assms(2) by (auto simp: Enqueue_def EnqueueMessage_def Let_def split: prod.splits option.splits)
  from bolt_db.get_put [OF assms(1) this] show ?thesis
    using queue_key_prefix [OF assms(3,4)] by auto
qed

text \<open>
  Peers do not see each other's messages: for peer identifiers without a slash, and libp2p
  identifiers have none, a key belongs to the flush of a peer exactly when it was made for
  that peer; and queueing a message makes it, stamped, the content of its key and nothing else.
\<close>

theorem Enqueue_isolated:
  assumes "bolt_db B" and "Enqueue B now p' eid dat d = (None, d')"
    and "CHR ''/'' \<notin> set p" and "CHR ''/'' \<notin> set p'"
  shows "(HasPrefix (queue_key p' eid) (p @ ''/'') \<longleftrightarrow> p' = p) \<and>
    bolt_get B offlineQueueBucket (queue_key p' eid) d' = Some (stampData now dat) \<and>
    (\<forall>b k. (b, k) \<noteq> (offlineQueueBucket, queue_key p' eid) \<longrightarrow> bolt_get B b k d' = bolt_get B b k d)"
  using assms by (rule Enqueue_spec)

theorem Enqueue_isolated_witness:
  "\<not> HasPrefix (queue_key ''p'' ''e'') ''q/'' \<and>
   bolt_get mem_bolt offlineQueueBucket ''p/e'' demo_queue_db = Some (stampData 0 [7])"
proof -
  have "Enqueue mem_bolt 0 ''p'' ''e'' [7] mem_empty = (None, demo_queue_db)"
    by (simp add: demo_queue_db_def Enqueue_def EnqueueMessage_def queue_key_def mem_bolt_def Let_def)
  from Enqueue_isolated [OF mem.bolt_db_axioms this, of "''q''"] show ?thesis
    by (simp add: queue_key_def)
qed

end
