(* ===== verification/Glob.thy ===== *)
theory Glob
  imports Prelude
begin

text \<open>
  Pattern matching for access rules: \<open>matchGlob\<close> of \<^verbatim>\<open>internal/core/acl.go\<close> and the standard
  library routine it calls, \<open>filepath.Match\<close> (on Unix), with its chunk scanner, its character
  classes, its escapes and its error for a malformed pattern. Strings are bytes; \<open>?\<close> and
  character classes consume one UTF-8 encoded rune, decoded as \<open>utf8.DecodeRuneInString\<close> does.
\<close>

section \<open>Runes\<close>

definition code :: "char \<Rightarrow> nat" where
  "code c = of_char c"

definition RuneError :: nat where
  "RuneError = 65533"

definition cont :: "char \<Rightarrow> bool" where
  "cont c \<longleftrightarrow> 128 \<le> code c \<and> code c \<le> 191"

text \<open>The range allowed for the second byte after a given first byte.\<close>

definition second_ok :: "nat \<Rightarrow> char \<Rightarrow> bool" where
  "second_ok b0 c \<longleftrightarrow>
     (if b0 = 224 then 160 else if b0 = 240 then 144 else 128) \<le> code c \<and>
     code c \<le> (if b0 = 237 then 159 else if b0 = 244 then 143 else 191)"

definition decode_rune :: "string \<Rightarrow> nat \<times> nat" where
  "decode_rune s =
     (case s of
        [] \<Rightarrow> (RuneError, 0)
      | c0 # s1 \<Rightarrow>
          (let b0 = code c0 in
           if b0 < 128 then (b0, 1)
           else if 194 \<le> b0 \<and> b0 \<le> 223 then
             (case s1 of
                c1 # _ \<Rightarrow> if cont c1 then ((b0 mod 32) * 64 + code c1 mod 64, 2) else (RuneError, 1)
              | _ \<Rightarrow> (RuneError, 1))
           else if 224 \<le> b0 \<and> b0 \<le> 239 then
             (case s1 of
                c1 # c2 # _ \<Rightarrow>
                  if second_ok b0 c1 \<and> cont c2
                  then ((b0 mod 16) * 4096 + (code c1 mod 64) * 64 + code c2 mod 64, 3)
                  else (RuneError, 1)
              | _ \<Rightarrow> (RuneError, 1))
           else if 240 \<le> b0 \<and> b0 \<le> 244 then
             (case s1 of
                c1 # c2 # c3 # _ \<Rightarrow>
                  if second_ok b0 c1 \<and> cont c2 \<and> cont c3
                  then ((b0 mod 8) * 262144 + (code c1 mod 64) * 4096 + (code c2 mod 64) * 64
                        + code c3 mod 64, 4)
                  else (RuneError, 1)
              | _ \<Rightarrow> (RuneError, 1))
           else (RuneError, 1)))"

lemma decode_rune_size: "s \<noteq> [] \<Longrightarrow> 1 \<le> snd (decode_rune s)"
  by (auto simp: decode_rune_def Let_def split: list.splits)

section \<open>Chunks\<close>

definition getEsc :: "string \<Rightarrow> (nat \<times> string) option" where
  "getEsc chunk =
     (case chunk of
        [] \<Rightarrow> None
      | c # cs \<Rightarrow>
          if c = CHR ''-'' \<or> c = CHR '']'' then None
          else
            let body = (if c = CHR 0x5C then cs else chunk) in
            if body = [] then None
            else let (r, n) = decode_rune body in
              if r = RuneError \<and> n = 1 then None
              else if drop n body = [] then None
              else Some (r, drop n body))"

lemma getEsc_shorter: "getEsc chunk = Some (r, rest) \<Longrightarrow> rest \<noteq> [] \<and> length rest < length chunk"
  using decode_rune_size [of chunk] decode_rune_size [of "tl chunk"]
  by (auto simp: getEsc_def Let_def split: list.splits prod.splits if_splits)

text \<open>The ranges of a character class, up to the closing bracket: whether one of them contains
  the rune, and the rest of the chunk.\<close>

function class_loop :: "nat \<Rightarrow> string \<Rightarrow> nat \<Rightarrow> bool \<Rightarrow> (bool \<times> string) option" where
  "class_loop r chunk nrange mtch =
     (if chunk \<noteq> [] \<and> hd chunk = CHR '']'' \<and> nrange > 0 then Some (mtch, tl chunk)
      else case getEsc chunk of
        None \<Rightarrow> None
      | Some (lo, chunk1) \<Rightarrow>
          (case (if hd chunk1 = CHR ''-'' then getEsc (tl chunk1) else Some (lo, chunk1)) of
             None \<Rightarrow> None
           | Some (hi, chunk2) \<Rightarrow>
               class_loop r chunk2 (nrange + 1) (mtch \<or> lo \<le> r \<and> r \<le> hi)))"
  by pat_completeness auto
termination
proof (relation "measure (\<lambda>(r, chunk, n, m). length chunk)", goal_cases)
  case (2 r chunk nrange mtch x lo chunk1 y hi chunk2)
  then have "length chunk1 < length chunk" using getEsc_shorter by blast
  moreover have "length chunk2 \<le> length chunk1"
    using 2(4,5) getEsc_shorter [of "tl chunk1" hi chunk2] by (auto split: if_splits)
  ultimately show ?case by simp
qed simp

declare class_loop.simps [simp del]

lemma class_loop_shorter: "class_loop r chunk n m = Some (b, rest) \<Longrightarrow> length rest < length chunk"
proof (induction r chunk n m rule: class_loop.induct)
  case (1 r chunk nrange mtch)
  show ?case
  proof (cases "chunk \<noteq> [] \<and> hd chunk = CHR '']'' \<and> nrange > 0")
    case True
    with 1(2) show ?thesis by (auto simp: class_loop.simps [of r chunk])
  next
    case False
    with 1(2) obtain lo chunk1 hi chunk2 where g: "getEsc chunk = Some (lo, chunk1)"
      and h: "(if hd chunk1 = CHR ''-'' then getEsc (tl chunk1) else Some (lo, chunk1)) = Some (hi, chunk2)"
      and l: "class_loop r chunk2 (nrange + 1) (mtch \<or> lo \<le> r \<and> r \<le> hi) = Some (b, rest)"
      by (auto simp: class_loop.simps [of r chunk] split: option.splits if_splits)
    have "length rest < length chunk2"
      using 1(1) [OF False g _ h _ l] by simp
    moreover have "length chunk1 < length chunk" using g getEsc_shorter by blast
    moreover have "length chunk2 \<le> length chunk1"
      using h getEsc_shorter [of "tl chunk1" hi chunk2] by (auto split: if_splits)
    ultimately show ?thesis by simp
  qed
qed

text \<open>\<open>matchChunk\<close>: \<open>None\<close> is \<open>ErrBadPattern\<close>, \<open>Some None\<close> no match, \<open>Some (Some rest)\<close> a match of
  the whole chunk with what is left of the name.\<close>

function matchChunk :: "string \<Rightarrow> string \<Rightarrow> bool \<Rightarrow> string option option" where
  "matchChunk [] s failed = (if failed then Some None else Some (Some s))"
| "matchChunk (c # cs) s failed0 =
     (let failed = (failed0 \<or> s = []) in
      if c = CHR ''['' then
        let (r, s1) = (if failed then (0, s)
                       else let (r, n) = decode_rune s in (r, drop n s));
            negated = (cs \<noteq> [] \<and> hd cs = CHR ''^'');
            chunk1 = (if negated then tl cs else cs)
        in case class_loop r chunk1 0 False of
             None \<Rightarrow> None
           | Some (mtch, rest) \<Rightarrow> matchChunk rest s1 (failed \<or> mtch = negated)
      else if c = CHR ''?'' then
        (if failed then matchChunk cs s True
         else matchChunk cs (drop (snd (decode_rune s)) s) (hd s = CHR ''/''))
      else if c = CHR 0x5C then
        (case cs of
           [] \<Rightarrow> None
         | c' # cs' \<Rightarrow> if failed then matchChunk cs' s True else matchChunk cs' (tl s) (c' \<noteq> hd s))
      else (if failed then matchChunk cs s True else matchChunk cs (tl s) (c \<noteq> hd s)))"
  by pat_completeness auto
termination
proof (relation "measure (\<lambda>(chunk, s, f). length chunk)", goal_cases)
  case (2 c cs s failed0 failed x r s1 negated chunk1 y mtch rest)
  then have "length rest < length chunk1" using class_loop_shorter by metis
  with 2 show ?case by (auto split: if_splits)
qed auto

section \<open>Match\<close>

fun scan :: "bool \<Rightarrow> string \<Rightarrow> string \<times> string" where
  "scan inrange [] = ([], [])"
| "scan inrange (c # cs) =
     (if c = CHR 0x5C then
        (case cs of
           [] \<Rightarrow> ([c], [])
         | c' # cs' \<Rightarrow> let (a, b) = scan inrange cs' in (c # c' # a, b))
      else if c = CHR ''*'' \<and> \<not> inrange then ([], c # cs)
      else
        let (a, b) = scan (if c = CHR ''['' then True else if c = CHR '']'' then False else inrange) cs
        in (c # a, b))"

definition scanChunk :: "string \<Rightarrow> bool \<times> string \<times> string" where
  "scanChunk pattern =
     (let body = dropWhile ((=) (CHR ''*'')) pattern;
          star = (pattern \<noteq> [] \<and> hd pattern = CHR ''*'');
          (chunk, rest) = scan False body
      in (star, chunk, rest))"

lemma scan_append: "scan i p = (a, b) \<Longrightarrow> p = a @ b"
  by (induction i p arbitrary: a b rule: scan.induct)
    (auto simp: Let_def split: if_splits list.splits prod.splits)

lemma scanChunk_shorter: "p \<noteq> [] \<Longrightarrow> scanChunk p = (star, chunk, rest) \<Longrightarrow> length rest < length p"
proof -
  assume p: "p \<noteq> []" and s: "scanChunk p = (star, chunk, rest)"
  let ?body = "dropWhile ((=) (CHR ''*'')) p"
  have sc: "scan False ?body = (chunk, rest)"
    using s by (auto simp: scanChunk_def Let_def split: prod.splits)
  have len: "length rest \<le> length ?body"
    using scan_append [OF sc] by (metis length_append le_add2)
  show ?thesis
  proof (cases "hd p = CHR ''*''")
    case True
    with p have "length ?body < length p"
      by (cases p) (auto simp: length_dropWhile_le le_imp_less_Suc)
    with len show ?thesis by simp
  next
    case False
    with p obtain c cs where c: "p = c # cs" "c \<noteq> CHR ''*''" by (cases p) auto
    then have "chunk \<noteq> []"
      using sc by (auto simp: Let_def split: if_splits list.splits prod.splits)
    then show ?thesis
      using scan_append [OF sc] c by (metis (full_types) append_self_conv2 dropWhile.simps(2)
          length_append less_add_same_cancel2 length_greater_0_conv)
  qed
qed

datatype star_result = BadPattern | NotFound | FoundRest string

text \<open>The loop that skips bytes for a star; it cannot skip a separator.\<close>

fun star_try :: "string \<Rightarrow> bool \<Rightarrow> string \<Rightarrow> star_result" where
  "star_try chunk is_last [] = NotFound"
| "star_try chunk is_last (c # name) =
     (if c = CHR ''/'' then NotFound
      else case matchChunk chunk name False of
        None \<Rightarrow> BadPattern
      | Some None \<Rightarrow> star_try chunk is_last name
      | Some (Some t) \<Rightarrow>
          if is_last \<and> t \<noteq> [] then star_try chunk is_last name else FoundRest t)"

text \<open>Before returning false the rest of the pattern is checked for errors.\<close>

function check_rest :: "string \<Rightarrow> bool option" where
  "check_rest pattern =
     (if pattern = [] then Some False
      else let (star, chunk, rest) = scanChunk pattern in
        case matchChunk chunk [] False of None \<Rightarrow> None | Some _ \<Rightarrow> check_rest rest)"
  by pat_completeness auto
termination
  by (relation "measure length") (auto intro: scanChunk_shorter [OF _ sym])

function filepath_Match :: "string \<Rightarrow> string \<Rightarrow> bool option" where
  "filepath_Match pattern name =
     (if pattern = [] then Some (name = [])
      else let (star, chunk, rest) = scanChunk pattern in
        if star \<and> chunk = [] then Some (CHR ''/'' \<notin> set name)
        else case matchChunk chunk name False of
          None \<Rightarrow> None
        | Some m \<Rightarrow>
            (case (case m of Some t \<Rightarrow> if t = [] \<or> rest \<noteq> [] then Some t else None | None \<Rightarrow> None) of
               Some t \<Rightarrow> filepath_Match rest t
             | None \<Rightarrow>
                 if star then
                   (case star_try chunk (rest = []) name of
                      BadPattern \<Rightarrow> None
                    | FoundRest t \<Rightarrow> filepath_Match rest t
                    | NotFound \<Rightarrow> check_rest rest)
                 else check_rest rest))"
  by pat_completeness auto
termination
  by (relation "measure (\<lambda>(p, n). length p)") (auto intro: scanChunk_shorter [OF _ sym])

declare check_rest.simps [simp del] filepath_Match.simps [simp del]

section \<open>matchGlob\<close>

definition matchGlob :: "string \<Rightarrow> string \<Rightarrow> bool" where
  "matchGlob pattern value =
     (if pattern = ''*'' then True
      else if HasSuffix pattern '':*'' then HasPrefix value (TrimSuffix pattern ''*'')
      else case filepath_Match pattern value of None \<Rightarrow> False | Some matched \<Rightarrow> matched)"

section \<open>Patterns of literals and stars\<close>

text \<open>The characters that stand for themselves.\<close>

definition plain :: "char \<Rightarrow> bool" where
  "plain c \<longleftrightarrow> c \<noteq> CHR ''*'' \<and> c \<noteq> CHR ''?'' \<and> c \<noteq> CHR ''['' \<and> c \<noteq> CHR 0x5C"

lemma matchChunk_plain_failed: "\<forall>c\<in>set p. plain c \<Longrightarrow> matchChunk p s True = Some None"
  by (induction p) (auto simp: plain_def)

lemma matchChunk_plain:
  "\<forall>c\<in>set p. plain c \<Longrightarrow>
     matchChunk p s False = Some (if prefix p s then Some (drop (length p) s) else None)"
proof (induction p arbitrary: s)
  case Nil
  then show ?case by simp
next
  case (Cons c p)
  show ?case
  proof (cases s)
    case Nil
    with Cons.prems show ?thesis by (simp add: plain_def matchChunk_plain_failed)
  next
    case (Cons d s')
    with Cons.IH [of s'] Cons.prems show ?thesis
      by (cases "c = d") (auto simp: plain_def matchChunk_plain_failed)
  qed
qed

lemma scan_plain: "\<forall>c\<in>set p. plain c \<Longrightarrow> scan False (p @ CHR ''*'' # t) = (p, CHR ''*'' # t)"
  by (induction p) (auto simp: plain_def)

lemma scan_plain_end: "\<forall>c\<in>set p. plain c \<Longrightarrow> scan False p = (p, [])"
  by (induction p) (auto simp: plain_def)

lemma dropWhile_plain [simp]:
  "\<forall>c\<in>set p. plain c \<Longrightarrow> dropWhile ((=) (CHR ''*'')) p = p"
  by (cases p) (auto simp: plain_def)

lemma scanChunk_plain_star:
  "p \<noteq> [] \<Longrightarrow> \<forall>c\<in>set p. plain c \<Longrightarrow>
     scanChunk (p @ CHR ''*'' # t) = (False, p, CHR ''*'' # t)"
  using scan_plain [of p t] by (cases p) (auto simp: scanChunk_def plain_def split: prod.splits)

lemma scanChunk_star_plain:
  "\<forall>c\<in>set p. plain c \<Longrightarrow> scanChunk (CHR ''*'' # p) = (True, p, [])"
  by (simp add: scanChunk_def scan_plain_end)

lemma scanChunk_plain:
  "p \<noteq> [] \<Longrightarrow> \<forall>c\<in>set p. plain c \<Longrightarrow> scanChunk p = (False, p, [])"
  using scan_plain_end [of p] by (cases p) (auto simp: scanChunk_def plain_def split: prod.splits)

lemma star_try_plain:
  assumes "\<forall>c\<in>set b. plain c"
  shows "star_try b True name =
    (if \<exists>m. m \<noteq> [] \<and> name = m @ b \<and> CHR ''/'' \<notin> set m then FoundRest [] else NotFound)"
proof (induction name)
  case Nil
  then show ?case by simp
next
  case (Cons c name)
  have ex: "(\<exists>m. m \<noteq> [] \<and> c # name = m @ b \<and> CHR ''/'' \<notin> set m) \<longleftrightarrow>
      c \<noteq> CHR ''/'' \<and> (name = b \<or> (\<exists>m. m \<noteq> [] \<and> name = m @ b \<and> CHR ''/'' \<notin> set m))"
    (is "?L \<longleftrightarrow> ?R")
  proof
    assume ?L
    then obtain m where m: "m \<noteq> []" "c # name = m @ b" "CHR ''/'' \<notin> set m" by blast
    then obtain m' where "m = c # m'" by (cases m) auto
    with m show ?R by (cases m') auto
  next
    assume R: ?R
    then show ?L
    proof (elim conjE disjE exE)
      assume "c \<noteq> CHR ''/''" "name = b"
      then show ?L by (intro exI [of _ "[c]"]) simp
    next
      fix m
      assume "c \<noteq> CHR ''/''" "m \<noteq> []" "name = m @ b" "CHR ''/'' \<notin> set m"
      then show ?L by (intro exI [of _ "c # m"]) simp
    qed
  qed
  have chunk: "matchChunk b name False = Some (if prefix b name then Some (drop (length b) name) else None)"
    using assms by (rule matchChunk_plain)
  have pre: "prefix b name \<and> drop (length b) name = [] \<longleftrightarrow> name = b"
    by (auto simp: prefix_def)
  show ?case
    using Cons.IH chunk pre unfolding ex by (auto simp del: not_Cons_self)
qed

lemma Match_Nil [simp]: "filepath_Match [] name = Some (name = [])"
  by (simp add: filepath_Match.simps)

lemma check_rest_Nil [simp]: "check_rest [] = Some False"
  by (simp add: check_rest.simps)

lemma check_rest_star: "\<forall>c\<in>set b. plain c \<Longrightarrow> check_rest (CHR ''*'' # b) = Some False"
  by (simp add: check_rest.simps [of "CHR ''*'' # b"] scanChunk_star_plain matchChunk_plain)

lemma Match_plain:
  assumes "\<forall>c\<in>set p. plain c"
  shows "filepath_Match p v = Some (v = p)"
proof (cases "p = []")
  case False
  have "prefix p v \<and> drop (length p) v = [] \<longleftrightarrow> v = p"
    by (auto simp: prefix_def)
  with False assms show ?thesis
    by (auto simp: filepath_Match.simps [of p] scanChunk_plain matchChunk_plain)
qed simp

lemma Match_star_plain:
  assumes "\<forall>c\<in>set b. plain c"
  shows "filepath_Match (CHR ''*'' # b) v = Some (\<exists>m. v = m @ b \<and> CHR ''/'' \<notin> set m)"
proof (cases "b = []")
  case True
  have "scanChunk [CHR ''*''] = (True, [], [])"
    using scanChunk_star_plain [of "[]"] by simp
  then have "filepath_Match [CHR ''*''] v = Some (CHR ''/'' \<notin> set v)"
    by (subst filepath_Match.simps) simp
  with True show ?thesis by simp
next
  case False
  have pre: "prefix b v \<and> drop (length b) v = [] \<longleftrightarrow> v = b"
    by (auto simp: prefix_def)
  have ex: "(\<exists>m. v = m @ b \<and> CHR ''/'' \<notin> set m) \<longleftrightarrow>
      v = b \<or> (\<exists>m. m \<noteq> [] \<and> v = m @ b \<and> CHR ''/'' \<notin> set m)"
    by (metis append_Nil empty_iff list.set(1))
  show ?thesis
    unfolding ex using False assms pre
    by (auto simp: filepath_Match.simps [of "CHR ''*'' # b"] scanChunk_star_plain matchChunk_plain
        star_try_plain)
qed

lemma Match_plain_star_plain:
  assumes "\<forall>c\<in>set a. plain c" and "\<forall>c\<in>set b. plain c"
  shows "filepath_Match (a @ CHR ''*'' # b) v = Some (\<exists>m. v = a @ m @ b \<and> CHR ''/'' \<notin> set m)"
proof (cases "a = []")
  case True
  with Match_star_plain [OF assms(2)] show ?thesis by simp
next
  case False
  show ?thesis
  proof (cases "prefix a v")
    case True
    then obtain t where t: "v = a @ t" by (auto simp: prefix_def)
    then have "filepath_Match (a @ CHR ''*'' # b) v = filepath_Match (CHR ''*'' # b) t"
      using False assms(1)
      by (simp add: filepath_Match.simps [of "a @ CHR ''*'' # b"] scanChunk_plain_star matchChunk_plain)
    with t Match_star_plain [OF assms(2)] show ?thesis by simp
  next
    case no: False
    then have "filepath_Match (a @ CHR ''*'' # b) v = check_rest (CHR ''*'' # b)"
      using False assms(1)
      by (simp add: filepath_Match.simps [of "a @ CHR ''*'' # b"] scanChunk_plain_star matchChunk_plain)
    with no check_rest_star [OF assms(2)] show ?thesis by (auto simp: prefix_def)
  qed
qed

text \<open>
  What an access rule's pattern means. A pattern of ordinary characters matches itself only;
  one with a single star in the middle matches the strings with that beginning and end and no
  slash in between; a pattern that ends in \<open>:*\<close> matches every string with that prefix, slashes
  included; the lone star matches everything.
\<close>

theorem matchGlob_meaning:
  assumes "\<forall>c\<in>set a. plain c" and "\<forall>c\<in>set b. plain c"
  shows "(matchGlob a v \<longleftrightarrow> v = a) \<and>
    (b \<noteq> [] \<longrightarrow> (matchGlob (a @ ''*'' @ b) v \<longleftrightarrow> (\<exists>m. v = a @ m @ b \<and> CHR ''/'' \<notin> set m))) \<and>
    (matchGlob (a @ '':*'') v \<longleftrightarrow> HasPrefix v (a @ '':'')) \<and>
    matchGlob ''*'' v"
proof (intro conjI impI)
  have star: "CHR ''*'' \<notin> set a"
    using assms(1) by (force simp: plain_def)
  have "\<not> HasSuffix a '':*''"
  proof
    assume "HasSuffix a '':*''"
    then obtain u where "a = u @ '':*''" by (auto simp: HasSuffix_iff)
    then have "CHR ''*'' \<in> set a" by simp
    with star show False ..
  qed
  moreover have "a \<noteq> ''*''" using star by force
  ultimately show "matchGlob a v \<longleftrightarrow> v = a"
    using Match_plain [OF assms(1)] by (simp add: matchGlob_def)
next
  assume b: "b \<noteq> []"
  then obtain b' c where bc: "b = b' @ [c]" by (metis rev_exhaust)
  with assms(2) have "c \<noteq> CHR ''*''" by (simp add: plain_def)
  have "\<not> HasSuffix (a @ ''*'' @ b) '':*''"
  proof
    assume "HasSuffix (a @ ''*'' @ b) '':*''"
    then obtain u where "a @ ''*'' @ b = u @ '':*''" by (auto simp: HasSuffix_iff)
    then have "last (a @ ''*'' @ b) = last (u @ '':*'')" by simp
    with bc \<open>c \<noteq> CHR ''*''\<close> show False by simp
  qed
  moreover have "a @ ''*'' @ b \<noteq> ''*''"
    using b by (cases a) auto
  ultimately show "matchGlob (a @ ''*'' @ b) v \<longleftrightarrow> (\<exists>m. v = a @ m @ b \<and> CHR ''/'' \<notin> set m)"
    using Match_plain_star_plain [OF assms] by (simp add: matchGlob_def)
next
  have "TrimSuffix ((a @ '':'') @ ''*'') ''*'' = a @ '':''"
    by (rule TrimSuffix_append)
  moreover have "HasSuffix (a @ '':*'') '':*''" by (auto simp: HasSuffix_iff)
  ultimately show "matchGlob (a @ '':*'') v \<longleftrightarrow> HasPrefix v (a @ '':'')"
    by (cases a) (auto simp: matchGlob_def)
next
  show "matchGlob ''*'' v" by (simp add: matchGlob_def)
qed

theorem matchGlob_meaning_witness:
  "matchGlob ''did:web:*.example.com'' ''did:web:a.example.com'' \<and>
   \<not> matchGlob ''did:web:*.example.com'' ''did:web:a/b.example.com''"
proof -
  have plain: "\<forall>c\<in>set ''did:web:''. plain c" "\<forall>c\<in>set ''.example.com''. plain c"
    by (simp_all add: plain_def)
  have m: "matchGlob ''did:web:*.example.com'' v \<longleftrightarrow>
      (\<exists>m. v = ''did:web:'' @ m @ ''.example.com'' \<and> CHR ''/'' \<notin> set m)" for v
    using matchGlob_meaning [OF plain, of v] by simp
  have "''did:web:a/b.example.com'' = ''did:web:'' @ m @ ''.example.com'' \<Longrightarrow> m = ''a/b''" for m
    using append_same_eq [of m "''.example.com''" "''a/b''"] by simp
  then show ?thesis
    unfolding m by (auto intro: exI [of _ "''a''"])
qed

end
