(* ===== verification/Envelope.thy ===== *)
theory Envelope
  imports Prelude
begin

text \<open>
  The protocol-neutral envelope of \<^verbatim>\<open>internal/envelope/envelope.go\<close>. A nil slice and a nil map
  are told apart from empty ones, because the code tests for nil: payload and metadata are
  options.
\<close>

type_synonym envelope_Type = string

definition TypeTask :: envelope_Type where
  "TypeTask = ''TASK''"

definition TypeTaskUpdate :: envelope_Type where
  "TypeTaskUpdate = ''TASK_UPDATE''"

definition TypeTaskComplete :: envelope_Type where
  "TypeTaskComplete = ''TASK_COMPLETE''"

definition TypeTaskFail :: envelope_Type where
  "TypeTaskFail = ''TASK_FAIL''"

definition TypeTaskCancel :: envelope_Type where
  "TypeTaskCancel = ''TASK_CANCEL''"

definition TypeACK :: envelope_Type where
  "TypeACK = ''ACK''"

definition TypeStreamStart :: envelope_Type where
  "TypeStreamStart = ''STREAM_START''"

definition TypeStreamChunk :: envelope_Type where
  "TypeStreamChunk = ''STREAM_CHUNK''"

definition TypeStreamEnd :: envelope_Type where
  "TypeStreamEnd = ''STREAM_END''"

definition TypeCard :: envelope_Type where
  "TypeCard = ''CARD''"

definition TypeCustom :: envelope_Type where
  "TypeCustom = ''CUSTOM''"

lemmas envelope_Type_defs = TypeTask_def TypeTaskUpdate_def TypeTaskComplete_def TypeTaskFail_def
  TypeTaskCancel_def TypeACK_def TypeStreamStart_def TypeStreamChunk_def TypeStreamEnd_def
  TypeCard_def TypeCustom_def

definition MetaKeyProtocol :: string where
  "MetaKeyProtocol = ''protocol''"

definition MetaKeyTraceParent :: string where
  "MetaKeyTraceParent = ''traceparent''"

definition MetaKeyTraceState :: string where
  "MetaKeyTraceState = ''tracestate''"

definition MetaKeySkill :: string where
  "MetaKeySkill = ''skill''"

record AgentIdentity =
  PeerID :: string
  DIDKey :: string

record Envelope =
  ID :: string
  Type :: envelope_Type
  Source :: AgentIdentity
  Target :: string
  Payload :: "bytes option"
  Metadata :: "(string \<rightharpoonup> string) option"
  Timestamp :: gotime

definition envelope_New :: "string \<Rightarrow> gotime \<Rightarrow> envelope_Type \<Rightarrow> string \<Rightarrow> bytes option \<Rightarrow> Envelope" where
  "envelope_New uuid now typ tgt payload =
     \<lparr>ID = uuid, Type = typ, Source = \<lparr>PeerID = [], DIDKey = []\<rparr>, Target = tgt,
      Payload = payload, Metadata = Some Map.empty, Timestamp = now\<rparr>"

definition SetMeta :: "string \<Rightarrow> string \<Rightarrow> Envelope \<Rightarrow> Envelope" where
  "SetMeta key value e =
     (let m = (case Metadata e of None \<Rightarrow> Map.empty | Some m \<Rightarrow> m)
      in e\<lparr>Metadata := Some (m(key \<mapsto> value))\<rparr>)"

definition Meta :: "string \<Rightarrow> Envelope \<Rightarrow> string" where
  "Meta key e =
     (case Metadata e of
        None \<Rightarrow> []
      | Some m \<Rightarrow> (case m key of None \<Rightarrow> [] | Some v \<Rightarrow> v))"

text \<open>The identity under which policies see a source: its DID, or else its peer identifier.\<close>

definition source_id :: "AgentIdentity \<Rightarrow> string" where
  "source_id src = (if DIDKey src = [] then PeerID src else DIDKey src)"

lemma Meta_SetMeta [simp]: "Meta k (SetMeta k' v e) = (if k = k' then v else Meta k e)"
  by (auto simp: Meta_def SetMeta_def Let_def split: option.splits)

lemma SetMeta_frame [simp]:
  "ID (SetMeta k v e) = ID e" "Type (SetMeta k v e) = Type e" "Source (SetMeta k v e) = Source e"
  "Target (SetMeta k v e) = Target e" "Payload (SetMeta k v e) = Payload e"
  by (simp_all add: SetMeta_def Let_def)

end
