(* ===== verification/Policy.thy ===== *)
theory Policy
  imports Glob Envelope
begin

text \<open>
  The three policies of the Connection Core: access rules (\<^verbatim>\<open>internal/core/acl.go\<close>), the
  per-source rate limiter (\<^verbatim>\<open>internal/core/ratelimit.go\<close>) and the audit log
  (\<^verbatim>\<open>internal/core/audit.go\<close>).

  The token bucket \<open>golang.org/x/time/rate\<close> is an argument, the record \<open>rate_ops\<close>; the locale
  \<open>token_bucket\<close> states what its documentation promises, and the bound on the grants of a
  source is proved from it. The file behind the audit log is an argument too: \<open>enc\<close> writes one
  event and may fail.
\<close>

section \<open>Access rules\<close>

record ACLRule =
  rule_Source :: string
  rule_Skill :: string
  rule_Allow :: bool

datatype acl_error =
    AccessDenied string string
  | NoMatchingRule string string

fun check_rules :: "string \<Rightarrow> string \<Rightarrow> ACLRule list \<Rightarrow> acl_error option option" where
  "check_rules sourceID skillID [] = None"
| "check_rules sourceID skillID (rule # rest) =
     (let sourceMatch = matchGlob (rule_Source rule) sourceID;
          skillMatch = matchGlob (rule_Skill rule) skillID
      in if sourceMatch \<and> skillMatch then
           (if rule_Allow rule then Some None else Some (Some (AccessDenied sourceID skillID)))
         else check_rules sourceID skillID rest)"

definition CheckAccess :: "ACLRule list \<Rightarrow> AgentIdentity \<Rightarrow> string \<Rightarrow> acl_error option" where
  "CheckAccess rules src skillID =
     (let sourceID = source_id src in
      case check_rules sourceID skillID rules of
        Some result \<Rightarrow> result
      | None \<Rightarrow>
          if length rules = 0 then None
          else Some (NoMatchingRule sourceID skillID))"

section \<open>Rate limiting\<close>

record RateLimitRule =
  over_Source :: string
  over_RPS :: int

record RateLimitConfig =
  cfg_DefaultRPS :: int
  cfg_Overrides :: "RateLimitRule list"

record 'l rate_ops =
  lim_New :: "int \<Rightarrow> int \<Rightarrow> 'l"
  lim_Allow :: "gotime \<Rightarrow> 'l \<Rightarrow> bool \<times> 'l"

record 'l limiterEntry =
  limiter :: 'l
  lastSeen :: gotime

record 'l RateLimiter =
  limiters :: "string \<rightharpoonup> 'l limiterEntry"
  defaultRPS :: int
  overrides :: "string \<rightharpoonup> int"

fun load_overrides :: "RateLimitRule list \<Rightarrow> (string \<rightharpoonup> int) \<Rightarrow> (string \<rightharpoonup> int)" where
  "load_overrides [] m = m"
| "load_overrides (ov # rest) m = load_overrides rest (m(over_Source ov \<mapsto> over_RPS ov))"

definition NewRateLimiter :: "RateLimitConfig \<Rightarrow> 'l RateLimiter" where
  "NewRateLimiter cfg =
     \<lparr>limiters = Map.empty,
      defaultRPS = (if cfg_DefaultRPS cfg \<le> 0 then 100 else cfg_DefaultRPS cfg),
      overrides = load_overrides (cfg_Overrides cfg) Map.empty\<rparr>"

definition rps_for :: "'l RateLimiter \<Rightarrow> string \<Rightarrow> int" where
  "rps_for rl sourceID =
     (case overrides rl sourceID of Some r \<Rightarrow> r | None \<Rightarrow> defaultRPS rl)"

definition Allow :: "'l rate_ops \<Rightarrow> gotime \<Rightarrow> AgentIdentity \<Rightarrow> 'l RateLimiter \<Rightarrow> bool \<times> 'l RateLimiter" where
  "Allow R now src rl =
     (let sourceID = source_id src in
      if sourceID = [] then (True, rl)
      else
        let entry = (case limiters rl sourceID of
                       Some e \<Rightarrow> e
                     | None \<Rightarrow> (let rps = rps_for rl sourceID in
                          \<lparr>limiter = lim_New R rps rps, lastSeen = zero_time\<rparr>));
            (allowed, l) = lim_Allow R now (limiter entry)
        in (allowed, rl\<lparr>limiters := (limiters rl)(sourceID \<mapsto> \<lparr>limiter = l, lastSeen = now\<rparr>)\<rparr>))"

definition AllowN :: "'l rate_ops \<Rightarrow> gotime \<Rightarrow> AgentIdentity \<Rightarrow> 'l RateLimiter \<Rightarrow> string option \<times> 'l RateLimiter" where
  "AllowN R now src rl =
     (case Allow R now src rl of
        (allowed, rl') \<Rightarrow> (if allowed then None else Some (source_id src), rl'))"

text \<open>One tick of the cleanup goroutine.\<close>

definition rl_cleanup :: "gotime \<Rightarrow> 'l RateLimiter \<Rightarrow> 'l RateLimiter" where
  "rl_cleanup now rl =
     (let threshold = now - 10 * Minute in
      rl\<lparr>limiters := (\<lambda>k. case limiters rl k of
           Some v \<Rightarrow> (if lastSeen v < threshold then None else Some v)
         | None \<Rightarrow> None)\<rparr>)"

section \<open>Audit log\<close>

record AuditEvent =
  ev_Timestamp :: string
  ev_Source :: string
  ev_Target :: string
  ev_Skill :: string
  ev_Action :: string
  ev_Transport :: string
  ev_EnvID :: string

definition no_event :: AuditEvent where
  "no_event = \<lparr>ev_Timestamp = [], ev_Source = [], ev_Target = [], ev_Skill = [], ev_Action = [],
     ev_Transport = [], ev_EnvID = []\<rparr>"

text \<open>
  A nil logger is \<open>None\<close>. \<open>enc\<close> encodes an event into the file; when it fails, the error is
  only logged and the file is as the failed write left it.
\<close>

definition audit_Log ::
  "(AuditEvent \<Rightarrow> 'f \<Rightarrow> bool \<times> 'f) \<Rightarrow> string \<Rightarrow> AuditEvent \<Rightarrow> 'f option \<Rightarrow> 'f option" where
  "audit_Log enc stamp event a =
     (case a of
        None \<Rightarrow> None
      | Some f \<Rightarrow>
          (let event = (if ev_Timestamp event = [] then event\<lparr>ev_Timestamp := stamp\<rparr> else event)
           in Some (snd (enc event f))))"

text \<open>\<open>NewAuditLogger\<close>: an empty path disables the log; opening the file may fail.\<close>

definition NewAuditLogger :: "(string \<Rightarrow> string + 'f) \<Rightarrow> string \<Rightarrow> string + 'f option" where
  "NewAuditLogger open_file path =
     (if path = [] then Inr None
      else case open_file path of
        Inl err \<Rightarrow> Inl err
      | Inr f \<Rightarrow> Inr (Some f))"

section \<open>Access rules decide by the first match\<close>

definition rule_applies :: "string \<Rightarrow> string \<Rightarrow> ACLRule \<Rightarrow> bool" where
  "rule_applies sourceID skillID rule \<longleftrightarrow>
     matchGlob (rule_Source rule) sourceID \<and> matchGlob (rule_Skill rule) skillID"

lemma check_rules_eq:
  "check_rules sid sk rules =
     (case find (rule_applies sid sk) rules of
        None \<Rightarrow> None
      | Some r \<Rightarrow> Some (if rule_Allow r then None else Some (AccessDenied sid sk)))"
  by (induction rules) (auto simp: rule_applies_def)

text \<open>
  Access is granted exactly when there are no rules, or the first rule that applies to the
  source's identity and the skill is an allowing one; with rules and none applicable the answer
  is the default denial.
\<close>

theorem CheckAccess_first_match:
  "(CheckAccess rules src skill = None \<longleftrightarrow>
      rules = [] \<or> (\<exists>pre r post. rules = pre @ r # post \<and> rule_Allow r \<and>
         rule_applies (source_id src) skill r \<and> (\<forall>q\<in>set pre. \<not> rule_applies (source_id src) skill q))) \<and>
   (CheckAccess rules src skill = Some (NoMatchingRule (source_id src) skill) \<longleftrightarrow>
      rules \<noteq> [] \<and> (\<forall>q\<in>set rules. \<not> rule_applies (source_id src) skill q))"
proof -
  let ?P = "rule_applies (source_id src) skill"
  show ?thesis
  proof (cases "find ?P rules")
    case None
    then have "\<forall>q\<in>set rules. \<not> ?P q" by (simp add: find_None_iff)
    with None show ?thesis by (auto simp: CheckAccess_def check_rules_eq)
  next
    case (Some r)
    then obtain i where i: "i < length rules" "?P (rules ! i)" "r = rules ! i" "\<forall>j<i. \<not> ?P (rules ! j)"
      by (auto simp: find_Some_iff)
    have split: "rules = take i rules @ r # drop (Suc i) rules"
      using i by (simp add: id_take_nth_drop)
    have none_before: "\<forall>q\<in>set (take i rules). \<not> ?P q"
      using i by (auto simp: in_set_conv_nth)
    have uniq: "r' = r" if "rules = pre @ r' # post" "?P r'" "\<forall>q\<in>set pre. \<not> ?P q" for pre r' post
    proof -
      have "find ?P pre = None" using that(3) by (simp add: find_None_iff)
      then have "find ?P (pre @ r' # post) = Some r'" using that(2) by (induction pre) auto
      with Some that(1) show ?thesis by simp
    qed
    have "CheckAccess rules src skill = (if rule_Allow r then None else Some (AccessDenied (source_id src) skill))"
      using Some by (simp add: CheckAccess_def check_rules_eq)
    moreover have "rules \<noteq> []" "?P r" "r \<in> set rules" using i by auto
    moreover have "(\<exists>pre r post. rules = pre @ r # post \<and> rule_Allow r \<and> ?P r \<and> (\<forall>q\<in>set pre. \<not> ?P q))
        \<longleftrightarrow> rule_Allow r"
      using split none_before uniq \<open>?P r\<close> by metis
    moreover have "\<not> (\<forall>q\<in>set rules. \<not> ?P q)"
      using \<open>?P r\<close> \<open>r \<in> set rules\<close> by blast
    ultimately show ?thesis by simp
  qed
qed

theorem CheckAccess_first_match_witness:
  "CheckAccess [\<lparr>rule_Source = ''a'', rule_Skill = ''*'', rule_Allow = True\<rparr>]
     \<lparr>PeerID = ''a'', DIDKey = []\<rparr> ''s'' = None"
proof -
  let ?r = "\<lparr>rule_Source = ''a'', rule_Skill = ''*'', rule_Allow = True\<rparr>"
  let ?src = "\<lparr>PeerID = ''a'', DIDKey = []\<rparr>"
  have id: "source_id ?src = ''a''" by (simp add: source_id_def)
  have "matchGlob ''a'' ''a''" by (simp add: matchGlob_def HasSuffix_def Match_plain plain_def)
  moreover have "matchGlob ''*'' ''s''" by (simp add: matchGlob_def)
  ultimately have "rule_applies (source_id ?src) ''s'' ?r" by (simp add: id rule_applies_def)
  then have "\<exists>pre r post. [?r] = pre @ r # post \<and> rule_Allow r \<and>
      rule_applies (source_id ?src) ''s'' r \<and> (\<forall>q\<in>set pre. \<not> rule_applies (source_id ?src) ''s'' q)"
    by (intro exI [of _ "[]"]) simp
  then show ?thesis
    using CheckAccess_first_match [of "[?r]" ?src "''s''"] by blast
qed

section \<open>The grants of a source are bounded\<close>

lemma rps_for_limiters [simp]: "rps_for (rl\<lparr>limiters := m\<rparr>) s = rps_for rl s"
  by (simp add: rps_for_def split: option.splits)

text \<open>
  What the documentation of \<open>rate.Limiter\<close> promises of a limiter with rate \<open>r\<close> per second and
  burst \<open>r\<close>: a bucket of \<open>r\<close> tokens, full at first, refilled at \<open>r\<close> tokens per second, from which
  a granted call takes one token. \<open>tok l t\<close> is the content at time \<open>t\<close> in billionths of a token.
\<close>

locale token_bucket =
  fixes R :: "'l rate_ops" and tok :: "'l \<Rightarrow> gotime \<Rightarrow> int" and rt :: "'l \<Rightarrow> int"
  assumes new_rate: "rt (lim_New R r r) = r"
    and new_full: "0 \<le> r \<Longrightarrow> tok (lim_New R r r) t = r * Second"
    and advance: "0 \<le> rt l \<Longrightarrow> t \<le> t' \<Longrightarrow> tok l t' \<le> tok l t + rt l * (t' - t)"
    and capacity: "0 \<le> rt l \<Longrightarrow> tok l t \<le> rt l * Second"
    and nonneg: "0 \<le> tok l t"
    and allow: "lim_Allow R t l = (g, l') \<Longrightarrow>
      rt l' = rt l \<and> (g \<longleftrightarrow> Second \<le> tok l t) \<and> tok l' t = tok l t - (if g then Second else 0)"
    and refill: "lim_Allow R t l = (g, l') \<Longrightarrow> 0 \<le> rt l \<Longrightarrow> t + Second \<le> t' \<Longrightarrow>
      tok l' t' = rt l * Second"

datatype rl_op = RAllow AgentIdentity | RCleanup

text \<open>A run of the limiter: calls and cleanup ticks with their times. The count is of the calls
  granted to source \<open>s\<close>.\<close>

fun rl_run :: "'l rate_ops \<Rightarrow> string \<Rightarrow> (gotime \<times> rl_op) list \<Rightarrow> 'l RateLimiter \<Rightarrow> nat \<times> 'l RateLimiter" where
  "rl_run R s [] rl = (0, rl)"
| "rl_run R s ((now, RAllow src) # ops) rl =
     (let (g, rl1) = Allow R now src rl;
          (n, rl2) = rl_run R s ops rl1
      in (if g \<and> source_id src = s then Suc n else n, rl2))"
| "rl_run R s ((now, RCleanup) # ops) rl = rl_run R s ops (rl_cleanup now rl)"

lemma rps_for_Allow [simp]: "Allow R now src rl = (g, rl') \<Longrightarrow> rps_for rl' s = rps_for rl s"
  by (auto simp: Allow_def Let_def split: if_splits prod.splits)

lemma rps_for_cleanup [simp]: "rps_for (rl_cleanup now rl) s = rps_for rl s"
  by (simp add: rl_cleanup_def Let_def)

lemma rl_run_rps [simp]: "rps_for (snd (rl_run R s ops rl)) s' = rps_for rl s'"
  by (induction R s ops rl rule: rl_run.induct) (auto dest: rps_for_Allow split: prod.splits)

context token_bucket
begin

definition level :: "string \<Rightarrow> gotime \<Rightarrow> 'l RateLimiter \<Rightarrow> int" where
  "level s t rl =
     (case limiters rl s of None \<Rightarrow> rps_for rl s * Second | Some e \<Rightarrow> tok (limiter e) t)"

text \<open>An entry has the rate of its source, and its bucket is full one second after its last use.\<close>

definition rl_ok :: "string \<Rightarrow> 'l RateLimiter \<Rightarrow> bool" where
  "rl_ok s rl \<longleftrightarrow> 0 \<le> rps_for rl s \<and>
     (\<forall>e. limiters rl s = Some e \<longrightarrow> rt (limiter e) = rps_for rl s \<and>
        (\<forall>t. lastSeen e + Second \<le> t \<longrightarrow> tok (limiter e) t = rps_for rl s * Second))"

lemma level_advance: "rl_ok s rl \<Longrightarrow> t \<le> t' \<Longrightarrow> level s t' rl \<le> level s t rl + rps_for rl s * (t' - t)"
  by (cases "limiters rl s") (auto simp: level_def rl_ok_def, metis advance)

lemma level_capacity: "rl_ok s rl \<Longrightarrow> level s t rl \<le> rps_for rl s * Second"
  by (cases "limiters rl s") (auto simp: level_def rl_ok_def, metis capacity)

lemma level_nonneg: "rl_ok s rl \<Longrightarrow> 0 \<le> level s t rl"
  using nonneg by (auto simp: level_def rl_ok_def Second_def split: option.splits)

lemma Allow_other:
  "source_id src \<noteq> s \<Longrightarrow> Allow R now src rl = (g, rl') \<Longrightarrow> limiters rl' s = limiters rl s"
  by (auto simp: Allow_def Let_def split: if_splits prod.splits)

lemma Allow_level:
  assumes "rl_ok s rl" "s \<noteq> []" "Allow R now src rl = (g, rl')"
  shows "rl_ok s rl' \<and> level s now rl' = level s now rl - (if g \<and> source_id src = s then Second else 0)"
proof (cases "source_id src = s")
  case False
  with assms Allow_other [OF False assms(3)] show ?thesis
    by (simp add: rl_ok_def level_def split: option.splits)
next
  case True
  define l where "l = (case limiters rl s of Some e \<Rightarrow> limiter e
      | None \<Rightarrow> lim_New R (rps_for rl s) (rps_for rl s))"
  have rate: "rt l = rps_for rl s"
    using assms(1) new_rate by (auto simp: l_def rl_ok_def split: option.splits)
  have lev: "level s now rl = tok l now"
    using assms(1) new_full by (auto simp: l_def level_def rl_ok_def split: option.splits)
  obtain l' where l': "lim_Allow R now l = (g, l')"
    and rl': "rl' = rl\<lparr>limiters := (limiters rl)(s \<mapsto> \<lparr>limiter = l', lastSeen = now\<rparr>)\<rparr>"
    using assms(2,3) True
    by (cases "limiters rl s") (auto simp: Allow_def l_def Let_def split: prod.splits)
  show ?thesis
    using True rate lev assms(1) allow [OF l'] refill [OF l'] rl'
    by (simp add: rl_ok_def level_def)
qed

lemma cleanup_level:
  assumes "rl_ok s rl"
  shows "rl_ok s (rl_cleanup now rl) \<and> level s now (rl_cleanup now rl) = level s now rl"
  using assms
  by (cases "limiters rl s")
    (auto simp: rl_ok_def level_def rl_cleanup_def Let_def Minute_def Second_def)

lemma rl_run_ok: "rl_ok s rl \<Longrightarrow> s \<noteq> [] \<Longrightarrow> rl_ok s (snd (rl_run R s ops rl))"
proof (induction ops arbitrary: rl)
  case (Cons o1 ops)
  obtain now opn where "o1 = (now, opn)" by (cases o1)
  with Cons Allow_level [of s rl now] cleanup_level [of s rl now] show ?case
    by (cases opn) (auto split: prod.splits, metis snd_conv)
qed simp

lemma rl_run_bound:
  assumes "rl_ok s rl" "s \<noteq> []" "sorted (map fst ops)" "\<forall>t\<in>fst ` set ops. t0 \<le> t \<and> t \<le> t1" "t0 \<le> t1"
  shows "int (fst (rl_run R s ops rl)) * Second \<le> level s t0 rl + rps_for rl s * (t1 - t0)"
  using assms
proof (induction ops arbitrary: rl t0)
  case Nil
  then have "0 \<le> rps_for rl s * (t1 - t0)" by (simp add: rl_ok_def)
  with Nil level_nonneg show ?case by simp
next
  case (Cons o1 ops)
  obtain now opn where o1: "o1 = (now, opn)" by (cases o1)
  have t: "t0 \<le> now" "now \<le> t1" "sorted (map fst ops)" "\<forall>t\<in>fst ` set ops. now \<le> t \<and> t \<le> t1"
    using Cons.prems o1 by auto
  have adv: "level s now rl \<le> level s t0 rl + rps_for rl s * (now - t0)"
    using Cons.prems t level_advance by simp
  have sum: "rps_for rl s * (t1 - t0) = rps_for rl s * (t1 - now) + rps_for rl s * (now - t0)"
    by (simp add: algebra_simps)
  show ?case
  proof (cases opn)
    case (RAllow src)
    obtain g rl1 where A: "Allow R now src rl = (g, rl1)" by fastforce
    note L = Allow_level [OF Cons.prems(1,2) A]
    have "int (fst (rl_run R s ops rl1)) * Second \<le> level s now rl1 + rps_for rl1 s * (t1 - now)"
      using Cons.IH [of rl1 now] L Cons.prems(2) t by simp
    with L adv sum A o1 RAllow show ?thesis
      by (auto simp: algebra_simps split: prod.splits)
  next
    case RCleanup
    note L = cleanup_level [OF Cons.prems(1), of now]
    have "int (fst (rl_run R s ops (rl_cleanup now rl))) * Second
        \<le> level s now (rl_cleanup now rl) + rps_for (rl_cleanup now rl) s * (t1 - now)"
      using Cons.IH [of "rl_cleanup now rl" now] L Cons.prems(2) t by simp
    with L adv sum o1 RCleanup show ?thesis by simp
  qed
qed

end

text \<open>A token bucket in integers: the rate, the content at the last use, the time of the last use.\<close>

type_synonym bucket = "int \<times> int \<times> gotime"

definition bucket_tok :: "bucket \<Rightarrow> gotime \<Rightarrow> int" where
  "bucket_tok b t =
     (case b of (r, n, last_use) \<Rightarrow> max 0 (min (r * Second) (n + r * max 0 (t - last_use))))"

definition bucket_ops :: "bucket rate_ops" where
  "bucket_ops =
     \<lparr>lim_New = (\<lambda>r b. (r, b * Second, zero_time)),
      lim_Allow = (\<lambda>t b. let n = bucket_tok b t in
         if Second \<le> n then (True, (fst b, n - Second, t)) else (False, (fst b, n, t)))\<rparr>"

lemma bucket_tok_bounds: "0 \<le> bucket_tok b t \<and> (0 \<le> fst b \<longrightarrow> bucket_tok b t \<le> fst b * Second)"
  by (cases b) (auto simp: bucket_tok_def Second_def)

lemma clip_id: "0 \<le> x \<Longrightarrow> x \<le> max 0 c \<Longrightarrow> max 0 (min c x) = (x :: int)"
  by (simp add: max_def min_def split: if_splits)

lemma bucket_tok_le: "bucket_tok b t \<le> max 0 (fst b * Second)"
  by (cases b) (simp add: bucket_tok_def)

lemma bucket_tok_now: "bucket_tok (r, n, t) t = max 0 (min (r * Second) n)"
  by (simp add: bucket_tok_def)

lemma bucket_tok_full:
  assumes "0 \<le> r" "0 \<le> n" "t + Second \<le> t'"
  shows "bucket_tok (r, n, t) t' = r * Second"
proof -
  have "r * Second \<le> r * max 0 (t' - t)"
    using assms by (intro mult_left_mono) auto
  with assms show ?thesis by (simp add: bucket_tok_def Second_def min_def)
qed

lemma bucket_tok_advance:
  assumes "0 \<le> fst b" "t \<le> t'"
  shows "bucket_tok b t' \<le> bucket_tok b t + fst b * (t' - t)"
proof -
  obtain r n u where b: "b = (r, n, u)" by (metis prod_cases3)
  have "r * max 0 (t' - u) \<le> r * (max 0 (t - u) + (t' - t))"
    using assms b by (intro mult_left_mono) auto
  moreover have "0 \<le> r * (t' - t)" using assms b by simp
  ultimately show ?thesis by (simp add: b bucket_tok_def distrib_left)
qed

interpretation bucket: token_bucket bucket_ops bucket_tok fst
proof (unfold_locales, goal_cases)
  case (1 r)
  then show ?case by (simp add: bucket_ops_def)
next
  case (2 r t)
  then show ?case by (simp add: bucket_ops_def bucket_tok_def Second_def)
next
  case (3 l t t')
  then show ?case by (rule bucket_tok_advance)
next
  case (4 l t)
  then show ?case using bucket_tok_bounds by blast
next
  case (5 l t)
  then show ?case using bucket_tok_bounds by blast
next
  case (6 t l g l')
  have l': "l' = (fst l, bucket_tok l t - (if g then Second else 0), t)" "g \<longleftrightarrow> Second \<le> bucket_tok l t"
    using 6 by (auto simp: bucket_ops_def Let_def split: if_splits)
  have "bucket_tok l' t = max 0 (min (fst l * Second) (bucket_tok l t - (if g then Second else 0)))"
    unfolding l'(1) by (rule bucket_tok_now)
  moreover have "0 \<le> bucket_tok l t - (if g then Second else 0)"
    using l' bucket_tok_bounds [of l t] by simp
  moreover have "bucket_tok l t - (if g then Second else 0) \<le> max 0 (fst l * Second)"
    using bucket_tok_le [of l t] by (simp add: Second_def)
  ultimately have "bucket_tok l' t = bucket_tok l t - (if g then Second else 0)"
    by (simp only: clip_id)
  with l' show ?case by simp
next
  case (7 t l g l' t')
  have "l' = (fst l, bucket_tok l t - (if g then Second else 0), t)" "0 \<le> bucket_tok l t - (if g then Second else 0)"
    using 7(1) bucket_tok_bounds [of l t] by (auto simp: bucket_ops_def Let_def split: if_splits)
  moreover have "fst l * Second \<le> fst l * (t' - t)"
    using 7 by (intro mult_left_mono) auto
  ultimately show ?case
    using 7 bucket_tok_full [of "fst l" "bucket_tok l t - (if g then Second else 0)" t t'] by simp
qed

lemma NewRateLimiter_limiters [simp]: "limiters (NewRateLimiter cfg) s = None"
  by (simp add: NewRateLimiter_def)

lemma NewRateLimiter_ok:
  fixes R :: "'l rate_ops"
  assumes "token_bucket R tok rt" and "0 \<le> rps_for (NewRateLimiter cfg :: 'l RateLimiter) s"
  shows "token_bucket.rl_ok tok rt s (NewRateLimiter cfg)"
  using assms(2) by (simp add: token_bucket.rl_ok_def [OF assms(1)])

text \<open>
  C19. A source is never granted more calls than its rate allows. In any run of the limiter, with
  calls from any sources and eviction passes in between, the calls granted to one source in a
  window from \<open>t0\<close> to \<open>t1\<close> are at most its rate times one second more than the window's length
  (the extra second is the burst). Eviction of idle entries does not weaken the bound: an entry
  is evicted only when its bucket is full again.
\<close>

theorem rate_limit_bound:
  fixes R :: "'l rate_ops"
  assumes "token_bucket R tok rt"
    and "s \<noteq> []" and "0 \<le> rps_for (NewRateLimiter cfg :: 'l RateLimiter) s"
    and "sorted (map fst ops)" and "\<forall>t\<in>fst ` set ops. t0 \<le> t \<and> t \<le> t1" and "t0 \<le> t1"
  shows "int (fst (rl_run R s ops (snd (rl_run R s earlier (NewRateLimiter cfg))))) * Second
     \<le> rps_for (NewRateLimiter cfg :: 'l RateLimiter) s * (t1 - t0 + Second)"
proof -
  let ?rl = "snd (rl_run R s earlier (NewRateLimiter cfg :: 'l RateLimiter))"
  have ok: "token_bucket.rl_ok tok rt s ?rl"
    using token_bucket.rl_run_ok [OF assms(1) NewRateLimiter_ok [OF assms(1,3)] assms(2)] .
  have "int (fst (rl_run R s ops ?rl)) * Second
      \<le> token_bucket.level tok s t0 ?rl + rps_for ?rl s * (t1 - t0)"
    by (rule token_bucket.rl_run_bound [OF assms(1) ok assms(2,4,5,6)])
  moreover have "token_bucket.level tok s t0 ?rl \<le> rps_for ?rl s * Second"
    by (rule token_bucket.level_capacity [OF assms(1) ok])
  ultimately show ?thesis by (simp add: algebra_simps)
qed

theorem rate_limit_bound_witness:
  "int (fst (rl_run bucket_ops ''p'' [(5, RAllow \<lparr>PeerID = ''p'', DIDKey = []\<rparr>), (6, RCleanup)]
     (snd (rl_run bucket_ops ''p'' [] (NewRateLimiter \<lparr>cfg_DefaultRPS = 2, cfg_Overrides = []\<rparr>))))) * Second
   \<le> 2 * (6 - 5 + Second)"
  using rate_limit_bound [OF bucket.token_bucket_axioms, of "''p''" "\<lparr>cfg_DefaultRPS = 2, cfg_Overrides = []\<rparr>"
      "[(5, RAllow \<lparr>PeerID = ''p'', DIDKey = []\<rparr>), (6, RCleanup)]" 5 6 "[]"]
  by (simp add: NewRateLimiter_def rps_for_def)

end
