(* ===== verification/ConnCore.thy ===== *)
theory ConnCore
  imports Policy
begin

text \<open>
  The Connection Core: \<^verbatim>\<open>internal/core/core.go\<close>, the payload encryption of
  \<^verbatim>\<open>internal/core/crypto.go\<close> and the adapter interfaces of \<^verbatim>\<open>internal/adapter/\<close>.

  An adapter is a record of functions; what a transport's \<open>Send\<close> does to the outside world is
  the function \<open>tr_Send\<close> on a world of type \<open>'w\<close>. SHA-512, the curve arithmetic of
  \<open>filippo.io/edwards25519\<close> and NaCl's box are arguments, the record \<open>box_ops\<close>, with their laws
  in the locale \<open>box_laws\<close>. Spans and log lines are left out.
\<close>

unbundle bit_operations_syntax

section \<open>Payload encryption\<close>

record box_ops =
  Sum512 :: "bytes \<Rightarrow> bytes"
  point_Montgomery :: "bytes \<Rightarrow> bytes option"
  box_Seal :: "bytes \<Rightarrow> bytes \<Rightarrow> bytes \<Rightarrow> bytes \<Rightarrow> bytes"
  box_Open :: "bytes \<Rightarrow> bytes \<Rightarrow> bytes \<Rightarrow> bytes \<Rightarrow> bytes option"

datatype crypto_error =
    SeedPanic
  | BadPublicKey
  | NonceFailed
  | CiphertextTooShort nat
  | AuthenticationError

text \<open>\<open>copy(dst[:], src)\<close> into a zeroed array of \<open>n\<close> bytes.\<close>

definition copy_array :: "nat \<Rightarrow> bytes \<Rightarrow> bytes" where
  "copy_array n src = take n src @ replicate (n - length src) 0"

text \<open>\<open>priv.Seed()\<close> slices the first 32 bytes and panics on a shorter key.\<close>

definition ed25519PrivateToX25519 :: "box_ops \<Rightarrow> bytes \<Rightarrow> bytes option" where
  "ed25519PrivateToX25519 B priv =
     (if length priv < 32 then None
      else
        let h = Sum512 B (take 32 priv);
            h = h[0 := h ! 0 AND 248];
            h = h[31 := h ! 31 AND 127];
            h = h[31 := h ! 31 OR 64]
        in Some (take 32 h))"

definition ed25519PublicToX25519 :: "box_ops \<Rightarrow> bytes \<Rightarrow> bytes option" where
  "ed25519PublicToX25519 B pub = point_Montgomery B pub"

definition EncryptPayload ::
  "box_ops \<Rightarrow> bytes option \<Rightarrow> bytes \<Rightarrow> bytes \<Rightarrow> bytes \<Rightarrow> crypto_error + bytes" where
  "EncryptPayload B rand_nonce plaintext senderPrivate recipientPublic =
     (case ed25519PrivateToX25519 B senderPrivate of
        None \<Rightarrow> Inl SeedPanic
      | Some senderX25519 \<Rightarrow>
     (case ed25519PublicToX25519 B recipientPublic of
        None \<Rightarrow> Inl BadPublicKey
      | Some recipientX25519 \<Rightarrow>
     (case rand_nonce of
        None \<Rightarrow> Inl NonceFailed
      | Some nonce \<Rightarrow>
          let senderKey = copy_array 32 senderX25519;
              recipientKey = copy_array 32 recipientX25519
          in Inr (nonce @ box_Seal B plaintext nonce recipientKey senderKey))))"

definition DecryptPayload :: "box_ops \<Rightarrow> bytes \<Rightarrow> bytes \<Rightarrow> bytes \<Rightarrow> crypto_error + bytes" where
  "DecryptPayload B encrypted senderPublic recipientPrivate =
     (if length encrypted < 24 then Inl (CiphertextTooShort (length encrypted))
      else
        let nonce = copy_array 24 (take 24 encrypted);
            ciphertext = drop 24 encrypted
        in case ed25519PublicToX25519 B senderPublic of
             None \<Rightarrow> Inl BadPublicKey
           | Some senderX25519 \<Rightarrow>
          (case ed25519PrivateToX25519 B recipientPrivate of
             None \<Rightarrow> Inl SeedPanic
           | Some recipientX25519 \<Rightarrow>
               let senderKey = copy_array 32 senderX25519;
                   recipientKey = copy_array 32 recipientX25519
               in case box_Open B ciphertext nonce senderKey recipientKey of
                    None \<Rightarrow> Inl AuthenticationError
                  | Some plaintext \<Rightarrow> Inr plaintext))"

section \<open>Hexadecimal\<close>

text \<open>\<open>hex.DecodeString\<close>; \<open>None\<close> is its error.\<close>

definition hex_digit :: "char \<Rightarrow> nat option" where
  "hex_digit c =
     (let n = code c in
      if 48 \<le> n \<and> n \<le> 57 then Some (n - 48)
      else if 97 \<le> n \<and> n \<le> 102 then Some (n - 87)
      else if 65 \<le> n \<and> n \<le> 70 then Some (n - 55)
      else None)"

fun hex_DecodeString :: "string \<Rightarrow> bytes option" where
  "hex_DecodeString [] = Some []"
| "hex_DecodeString [c] = None"
| "hex_DecodeString (a # b # rest) =
     (case (hex_digit a, hex_digit b, hex_DecodeString rest) of
        (Some x, Some y, Some bs) \<Rightarrow> Some (word_of_nat (16 * x + y) # bs)
      | _ \<Rightarrow> None)"

section \<open>Adapters\<close>

record Endpoint =
  ep_Protocol :: string
  ep_Address :: string

record ProtocolAdapter =
  pa_Name :: string
  pa_Ingest :: "bytes \<Rightarrow> (string \<rightharpoonup> string) \<Rightarrow> string + Envelope"
  pa_Emit :: "Envelope \<Rightarrow> string + bytes"
  pa_Endpoints :: "Endpoint list"

record 'w TransportAdapter =
  tr_Name :: string
  MatchesTarget :: "string \<Rightarrow> bool"
  tr_Send :: "string \<Rightarrow> Envelope \<Rightarrow> 'w \<Rightarrow> string option \<times> 'w"

section \<open>The core\<close>

record ('l, 'f, 'w) Core =
  protocols :: "string \<rightharpoonup> ProtocolAdapter"
  transports :: "'w TransportAdapter list"
  acl :: "ACLRule list option"
  rateLimit :: "'l RateLimiter option"
  audit :: "'f option"
  localPrivateKey :: "bytes option"

datatype core_error =
    ErrACL acl_error
  | ErrRateLimit string
  | ErrInboundRateLimit string
  | ErrEncrypt crypto_error
  | ErrSendVia string string
  | ErrNoTransport string string

text \<open>The libraries the core calls, and what one call takes from outside: the clock, its text for
  the audit log, and the random nonce.\<close>

record ('l, 'f) core_libs =
  lib_rate :: "'l rate_ops"
  lib_encode :: "AuditEvent \<Rightarrow> 'f \<Rightarrow> bool \<times> 'f"
  lib_box :: box_ops

record core_inputs =
  in_now :: gotime
  in_stamp :: string
  in_nonce :: "bytes option"

definition core_New :: "('l, 'f, 'w) Core" where
  "core_New = \<lparr>protocols = Map.empty, transports = [], acl = None, rateLimit = None, audit = None,
     localPrivateKey = None\<rparr>"

definition RegisterProtocol :: "ProtocolAdapter \<Rightarrow> ('l, 'f, 'w) Core \<Rightarrow> ('l, 'f, 'w) Core" where
  "RegisterProtocol pa c = c\<lparr>protocols := (protocols c)(pa_Name pa \<mapsto> pa)\<rparr>"

definition RegisterTransport :: "'w TransportAdapter \<Rightarrow> ('l, 'f, 'w) Core \<Rightarrow> ('l, 'f, 'w) Core" where
  "RegisterTransport ta c = c\<lparr>transports := transports c @ [ta]\<rparr>"

definition Protocol :: "string \<Rightarrow> ('l, 'f, 'w) Core \<Rightarrow> ProtocolAdapter option" where
  "Protocol name c = protocols c name"

definition Transports :: "('l, 'f, 'w) Core \<Rightarrow> 'w TransportAdapter list" where
  "Transports c = transports c"

fun send_loop :: "Envelope \<Rightarrow> 'w TransportAdapter list \<Rightarrow> 'w \<Rightarrow> core_error option \<times> 'w" where
  "send_loop env [] w = (Some (ErrNoTransport (Target env) (ID env)), w)"
| "send_loop env (t # ts) w =
     (if MatchesTarget t (Target env) then
        (case tr_Send t (Target env) env w of
           (Some err, w') \<Rightarrow> (Some (ErrSendVia (tr_Name t) err), w')
         | (None, w') \<Rightarrow> (None, w'))
      else send_loop env ts w)"

definition core_Send :: "Envelope \<Rightarrow> ('l, 'f, 'w) Core \<Rightarrow> 'w \<Rightarrow> core_error option \<times> 'w" where
  "core_Send env c w = send_loop env (transports c) w"

definition SetEncryptionKey :: "bytes option \<Rightarrow> ('l, 'f, 'w) Core \<Rightarrow> ('l, 'f, 'w) Core" where
  "SetEncryptionKey priv c = c\<lparr>localPrivateKey := priv\<rparr>"

definition SetACLManager :: "ACLRule list option \<Rightarrow> ('l, 'f, 'w) Core \<Rightarrow> ('l, 'f, 'w) Core" where
  "SetACLManager a c = c\<lparr>acl := a\<rparr>"

definition SetRateLimiter :: "'l RateLimiter option \<Rightarrow> ('l, 'f, 'w) Core \<Rightarrow> ('l, 'f, 'w) Core" where
  "SetRateLimiter rl c = c\<lparr>rateLimit := rl\<rparr>"

definition SetAuditLogger :: "'f option \<Rightarrow> ('l, 'f, 'w) Core \<Rightarrow> ('l, 'f, 'w) Core" where
  "SetAuditLogger al c = c\<lparr>audit := al\<rparr>"

definition acl_check :: "AgentIdentity \<Rightarrow> string \<Rightarrow> ('l, 'f, 'w) Core \<Rightarrow> acl_error option" where
  "acl_check src skillID c =
     (case acl c of None \<Rightarrow> None | Some rules \<Rightarrow> CheckAccess rules src skillID)"

definition rate_check ::
  "('l, 'f) core_libs \<Rightarrow> gotime \<Rightarrow> AgentIdentity \<Rightarrow> ('l, 'f, 'w) Core \<Rightarrow> bool \<times> ('l, 'f, 'w) Core" where
  "rate_check L now src c =
     (case rateLimit c of
        None \<Rightarrow> (True, c)
      | Some rl \<Rightarrow> (case Allow (lib_rate L) now src rl of
          (ok, rl') \<Rightarrow> (ok, c\<lparr>rateLimit := Some rl'\<rparr>)))"

definition core_Log ::
  "('l, 'f) core_libs \<Rightarrow> string \<Rightarrow> AuditEvent \<Rightarrow> ('l, 'f, 'w) Core \<Rightarrow> ('l, 'f, 'w) Core" where
  "core_Log L stamp ev c = c\<lparr>audit := audit_Log (lib_encode L) stamp ev (audit c)\<rparr>"

text \<open>Step 3.5 of \<open>Route\<close>: the envelope is modified in place.\<close>

definition route_encrypt ::
  "('l, 'f) core_libs \<Rightarrow> bytes option \<Rightarrow> Envelope \<Rightarrow> ('l, 'f, 'w) Core \<Rightarrow> crypto_error + Envelope" where
  "route_encrypt L nonce env c =
     (case localPrivateKey c of
        None \<Rightarrow> Inr env
      | Some priv \<Rightarrow>
          (let recipientPubKeyHex = Meta ''recipient_pubkey'' env in
           if recipientPubKeyHex \<noteq> [] then
             (case hex_DecodeString recipientPubKeyHex of
                None \<Rightarrow> Inr env
              | Some recipientPubKey \<Rightarrow>
                  if length recipientPubKey = 32 then
                    (case EncryptPayload (lib_box L) nonce
                            (case Payload env of None \<Rightarrow> [] | Some p \<Rightarrow> p) priv recipientPubKey of
                       Inl err \<Rightarrow> Inl err
                     | Inr encrypted \<Rightarrow>
                         Inr (SetMeta ''encrypted'' ''nacl-box'' (env\<lparr>Payload := Some encrypted\<rparr>)))
                  else Inr env)
           else Inr env))"

definition Route ::
  "('l, 'f) core_libs \<Rightarrow> core_inputs \<Rightarrow> Envelope \<Rightarrow> ('l, 'f, 'w) Core \<Rightarrow> 'w \<Rightarrow>
   core_error option \<times> Envelope \<times> ('l, 'f, 'w) Core \<times> 'w" where
  "Route L i env c w =
     (let skillID = Meta MetaKeySkill env;
          sourceID = source_id (Source env);
          ev = no_event\<lparr>ev_Source := sourceID, ev_Target := Target env, ev_Skill := skillID,
                        ev_EnvID := ID env\<rparr>
      in case acl_check (Source env) skillID c of
           Some err \<Rightarrow> (Some (ErrACL err), env, core_Log L (in_stamp i) (ev\<lparr>ev_Action := ''deny''\<rparr>) c, w)
         | None \<Rightarrow>
        (case rate_check L (in_now i) (Source env) c of
           (False, c1) \<Rightarrow>
             (Some (ErrRateLimit sourceID), env, core_Log L (in_stamp i) (ev\<lparr>ev_Action := ''rate_limit''\<rparr>) c1, w)
         | (True, c1) \<Rightarrow>
             (let c2 = core_Log L (in_stamp i) (ev\<lparr>ev_Action := ''allow''\<rparr>) c1 in
              case route_encrypt L (in_nonce i) env c2 of
                Inl err \<Rightarrow> (Some (ErrEncrypt err), env, c2, w)
              | Inr env' \<Rightarrow> (case core_Send env' c2 w of (err, w') \<Rightarrow> (err, env', c2, w')))))"

definition CheckInbound ::
  "('l, 'f) core_libs \<Rightarrow> core_inputs \<Rightarrow> AgentIdentity \<Rightarrow> string \<Rightarrow> string \<Rightarrow> ('l, 'f, 'w) Core \<Rightarrow>
   core_error option \<times> ('l, 'f, 'w) Core" where
  "CheckInbound L i src skillID envelopeID c =
     (let sourceID = source_id src;
          ev = no_event\<lparr>ev_Source := sourceID, ev_Skill := skillID, ev_EnvID := envelopeID,
                        ev_Transport := ''inbound''\<rparr>
      in case acl_check src skillID c of
           Some err \<Rightarrow> (Some (ErrACL err), core_Log L (in_stamp i) (ev\<lparr>ev_Action := ''deny''\<rparr>) c)
         | None \<Rightarrow>
        (case rate_check L (in_now i) src c of
           (False, c1) \<Rightarrow>
             (Some (ErrInboundRateLimit sourceID), core_Log L (in_stamp i) (ev\<lparr>ev_Action := ''rate_limit''\<rparr>) c1)
         | (True, c1) \<Rightarrow> (None, core_Log L (in_stamp i) (ev\<lparr>ev_Action := ''allow''\<rparr>) c1)))"

text \<open>The iteration order of the map of protocols is the argument \<open>order\<close>.\<close>

definition ProtocolNames :: "string list \<Rightarrow> ('l, 'f, 'w) Core \<Rightarrow> string list" where
  "ProtocolNames order c = filter (\<lambda>n. protocols c n \<noteq> None) order"

definition TransportNames :: "('l, 'f, 'w) Core \<Rightarrow> string list" where
  "TransportNames c = map tr_Name (transports c)"

section \<open>Round trip of the encryption\<close>

text \<open>
  What the encryption relies on: SHA-512 gives 64 bytes, and a box sealed for the public value of
  one scalar with another scalar opens with the roles exchanged. \<open>base\<close> is the scalar
  multiplication of the base point of Curve25519.
\<close>

locale box_laws =
  fixes B :: box_ops and base :: "bytes \<Rightarrow> bytes"
  assumes hash_length: "length (Sum512 B s) = 64"
    and base_length: "length k = 32 \<Longrightarrow> length (base k) = 32"
    and open_seal: "length n = 24 \<Longrightarrow> length a = 32 \<Longrightarrow> length b = 32 \<Longrightarrow>
      box_Open B (box_Seal B m n (base b) a) n (base a) b = Some m"

text \<open>A matching Ed25519 key pair: the birational image of the public key is the public value of
  the converted private key.\<close>

definition keypair :: "box_ops \<Rightarrow> (bytes \<Rightarrow> bytes) \<Rightarrow> bytes \<Rightarrow> bytes \<Rightarrow> bool" where
  "keypair B base priv pub \<longleftrightarrow>
     (case ed25519PrivateToX25519 B priv of
        None \<Rightarrow> False
      | Some k \<Rightarrow> ed25519PublicToX25519 B pub = Some (base k))"

lemma copy_array_id [simp]: "length xs = n \<Longrightarrow> copy_array n xs = xs"
  by (simp add: copy_array_def)

context box_laws
begin

lemma private_length: "ed25519PrivateToX25519 B priv = Some k \<Longrightarrow> length k = 32"
  using hash_length by (auto simp: ed25519PrivateToX25519_def Let_def split: if_splits)

lemma decrypt_encrypt:
  assumes "keypair B base spriv spub" "keypair B base rpriv rpub" "length n = 24"
  shows "\<exists>ct. EncryptPayload B (Some n) m spriv rpub = Inr ct \<and> DecryptPayload B ct spub rpriv = Inr m"
proof -
  obtain a b where a: "ed25519PrivateToX25519 B spriv = Some a" "ed25519PublicToX25519 B spub = Some (base a)"
    and b: "ed25519PrivateToX25519 B rpriv = Some b" "ed25519PublicToX25519 B rpub = Some (base b)"
    using assms(1,2) by (auto simp: keypair_def split: option.splits)
  have "length a = 32" "length b = 32"
    using a b private_length by auto
  then show ?thesis
    using a b assms(3) open_seal base_length
    by (simp add: EncryptPayload_def DecryptPayload_def Let_def)
qed

text \<open>The scalar is clamped as RFC 7748 asks: a multiple of eight, with bit 254 set and bit 255 clear.\<close>

lemma clamped:
  assumes "ed25519PrivateToX25519 B priv = Some k"
  shows "k ! 0 AND 7 = 0 \<and> k ! 31 AND 192 = 64"
proof -
  define h where "h = Sum512 B (take 32 priv)"
  have len: "length h = 64" using hash_length by (simp add: h_def)
  have k: "k = take 32 (h[0 := h ! 0 AND 248, 31 := (h ! 31 AND 127) OR 64])"
    using assms len by (auto simp: ed25519PrivateToX25519_def h_def Let_def split: if_splits)
  have "(x AND 248) AND 7 = 0" for x :: byte
    by (simp add: and.assoc)
  moreover have "((x AND 127) OR 64) AND 192 = 64" for x :: byte
    by (simp add: bit.conj_disj_distrib2 and.assoc)
  ultimately show ?thesis using len by (simp add: k)
qed

end

text \<open>A box for evaluation: scalars are their own public values, and the seal is a tag that
  depends symmetrically on the two keys.\<close>

definition clamp :: "bytes \<Rightarrow> bytes" where
  "clamp h = h[0 := h ! 0 AND 248, 31 := (h ! 31 AND 127) OR 64]"

definition tag_box :: box_ops where
  "tag_box =
     \<lparr>Sum512 = (\<lambda>s. copy_array 64 s),
      point_Montgomery = (\<lambda>pub. if length pub = 32 then Some (clamp pub) else None),
      box_Seal = (\<lambda>m n pub priv. map2 (XOR) pub priv @ m),
      box_Open = (\<lambda>c n pub priv.
        if length c \<ge> 32 \<and> take 32 c = map2 (XOR) pub priv then Some (drop 32 c) else None)\<rparr>"

lemma map2_xor_commute: "length a = length b \<Longrightarrow> map2 (XOR) a b = map2 (XOR) b (a :: bytes)"
  by (induction a b rule: list_induct2) (auto simp: xor.commute)

interpretation tag: box_laws tag_box id
proof (unfold_locales, goal_cases)
  case (1 s)
  then show ?case by (simp add: tag_box_def copy_array_def)
next
  case (2 k)
  then show ?case by simp
next
  case (3 n a b m)
  then show ?case by (simp add: tag_box_def map2_xor_commute)
qed

lemma tag_keypair: "length seed = 32 \<Longrightarrow> keypair tag_box id (seed @ rest) seed"
  by (simp add: keypair_def ed25519PrivateToX25519_def ed25519PublicToX25519_def tag_box_def clamp_def
      copy_array_def Let_def nth_append list_update_append)

section \<open>Policy\<close>

text \<open>The decision of the policies on a source and a skill, apart from what is done with it.\<close>

datatype verdict = Permit | DenyACL acl_error | LimitRate

definition verdict_of :: "('l, 'f) core_libs \<Rightarrow> gotime \<Rightarrow> AgentIdentity \<Rightarrow> string \<Rightarrow> ('l, 'f, 'w) Core \<Rightarrow> verdict" where
  "verdict_of L now src skill c =
     (case acl_check src skill c of
        Some e \<Rightarrow> DenyACL e
      | None \<Rightarrow> if fst (rate_check L now src c) then Permit else LimitRate)"

definition verdict_action :: "verdict \<Rightarrow> string" where
  "verdict_action v = (case v of Permit \<Rightarrow> ''allow'' | DenyACL _ \<Rightarrow> ''deny'' | LimitRate \<Rightarrow> ''rate_limit'')"

lemma rate_check_frame:
  "rate_check L now src c = (ok, c') \<Longrightarrow>
     audit c' = audit c \<and> transports c' = transports c \<and> localPrivateKey c' = localPrivateKey c"
  by (auto simp: rate_check_def split: option.splits prod.splits)

lemma core_Log_frame [simp]:
  "transports (core_Log L st ev c) = transports c" "rateLimit (core_Log L st ev c) = rateLimit c"
  "localPrivateKey (core_Log L st ev c) = localPrivateKey c"
  "audit (core_Log L st ev c) = audit_Log (lib_encode L) st ev (audit c)"
  by (simp_all add: core_Log_def)

lemma route_encrypt_Log [simp]: "route_encrypt L n env (core_Log L' st ev c) = route_encrypt L n env c"
  by (simp add: route_encrypt_def)

lemma Route_cases:
  "Route L i env c w =
     (let c1 = snd (rate_check L (in_now i) (Source env) c);
          v = verdict_of L (in_now i) (Source env) (Meta MetaKeySkill env) c;
          ev = no_event\<lparr>ev_Source := source_id (Source env), ev_Target := Target env,
                 ev_Skill := Meta MetaKeySkill env, ev_EnvID := ID env, ev_Action := verdict_action v\<rparr>
      in case v of
           DenyACL e \<Rightarrow> (Some (ErrACL e), env, core_Log L (in_stamp i) ev c, w)
         | LimitRate \<Rightarrow> (Some (ErrRateLimit (source_id (Source env))), env, core_Log L (in_stamp i) ev c1, w)
         | Permit \<Rightarrow>
             (case route_encrypt L (in_nonce i) env c1 of
                Inl e \<Rightarrow> (Some (ErrEncrypt e), env, core_Log L (in_stamp i) ev c1, w)
              | Inr env' \<Rightarrow> (case core_Send env' c1 w of
                  (err, w') \<Rightarrow> (err, env', core_Log L (in_stamp i) ev c1, w'))))"
  by (auto simp: Route_def verdict_of_def verdict_action_def core_Send_def Let_def
      split: option.splits prod.splits bool.splits sum.splits)

text \<open>
  C17. Policy on both directions. Whatever becomes of an envelope given to \<open>Route\<close>, exactly one
  audit event is logged and its action is the verdict; an envelope that is denied or limited is
  returned with an error, unchanged, and nothing is sent; a denial does not use up a token of the
  rate limiter. \<open>CheckInbound\<close> on the same source and skill admits exactly what \<open>Route\<close> permits
  and charges the limiter in the same way.
\<close>

theorem Route_policy:
  assumes "Route L i env c w = (err, env', c', w')"
    and "v = verdict_of L (in_now i) (Source env) (Meta MetaKeySkill env) c"
    and "CheckInbound L i (Source env) (Meta MetaKeySkill env) (ID env) c = (ierr, ci)"
  shows "audit c' = audit_Log (lib_encode L) (in_stamp i)
           (no_event\<lparr>ev_Source := source_id (Source env), ev_Target := Target env,
              ev_Skill := Meta MetaKeySkill env, ev_EnvID := ID env, ev_Action := verdict_action v\<rparr>) (audit c)
    \<and> (v \<noteq> Permit \<longrightarrow> err \<noteq> None \<and> env' = env \<and> w' = w)
    \<and> (\<forall>e. v = DenyACL e \<longrightarrow> err = Some (ErrACL e) \<and> rateLimit c' = rateLimit c)
    \<and> (ierr = None \<longleftrightarrow> v = Permit) \<and> rateLimit ci = rateLimit c'"
proof -
  obtain ok c1 where rc: "rate_check L (in_now i) (Source env) c = (ok, c1)" by fastforce
  note fr = rate_check_frame [OF rc]
  show ?thesis
  proof (cases v)
    case Permit
    with assms rc fr show ?thesis
      unfolding Route_cases
      by (auto simp: Let_def CheckInbound_def verdict_of_def split: sum.splits prod.splits option.splits if_splits)
  next
    case (DenyACL e)
    with assms rc fr show ?thesis
      unfolding Route_cases
      by (auto simp: Let_def CheckInbound_def verdict_of_def split: option.splits if_splits)
  next
    case LimitRate
    with assms rc fr show ?thesis
      unfolding Route_cases
      by (auto simp: Let_def CheckInbound_def verdict_of_def split: option.splits if_splits)
  qed
qed

text \<open>
  A message leaves by exactly one transport: the first registered one that matches its target.
  The others are not called, a target that none matches is an error that sends nothing, and
  registering a further transport does not change the way of a target that already has one.
\<close>

theorem core_Send_first_match:
  fixes c :: "('l, 'f, 'd) Core"
  shows "core_Send env c w =
     (case find (\<lambda>t. MatchesTarget t (Target env)) (transports c) of
        None \<Rightarrow> (Some (ErrNoTransport (Target env) (ID env)), w)
      | Some t \<Rightarrow> (let r = tr_Send t (Target env) env w in (map_option (ErrSendVia (tr_Name t)) (fst r), snd r)))
   \<and> (find (\<lambda>t. MatchesTarget t (Target env)) (transports c) = None
      \<or> core_Send env (RegisterTransport t' c) w = core_Send env c w)"
proof -
  have loop: "send_loop env ts w =
     (case find (\<lambda>t. MatchesTarget t (Target env)) ts of
        None \<Rightarrow> (Some (ErrNoTransport (Target env) (ID env)), w)
      | Some t \<Rightarrow> (let r = tr_Send t (Target env) env w in (map_option (ErrSendVia (tr_Name t)) (fst r), snd r)))" for ts
    by (induction ts) (auto simp: Let_def split: prod.splits option.splits)
  have app: "find P xs \<noteq> None \<Longrightarrow> find P (xs @ ys) = find P xs" for P :: "'d TransportAdapter \<Rightarrow> bool" and xs ys
    by (induction xs) auto
  show ?thesis
    using app [of "\<lambda>t. MatchesTarget t (Target env)" "transports c" "[t']"]
    by (cases "find (\<lambda>t. MatchesTarget t (Target env)) (transports c)")
      (simp_all add: core_Send_def loop RegisterTransport_def)
qed

theorem Route_policy_witness:
  "let L = \<lparr>lib_rate = bucket_ops, lib_encode = (\<lambda>ev f. (True, f @ [ev])), lib_box = tag_box\<rparr>;
       c = SetAuditLogger (Some []) (SetACLManager
             (Some [\<lparr>rule_Source = ''*'', rule_Skill = ''*'', rule_Allow = False\<rparr>]) core_New);
       env = envelope_New ''e1'' 0 TypeTask ''p'' None;
       (err, env', c', w') = Route L \<lparr>in_now = 0, in_stamp = ''now'', in_nonce = None\<rparr> env c (0 :: nat)
   in err \<noteq> None \<and> w' = 0 \<and> map ev_Action (the (audit c')) = [''deny'']"
proof -
  define L :: "(bucket, AuditEvent list) core_libs" where
    "L = \<lparr>lib_rate = bucket_ops, lib_encode = (\<lambda>ev f. (True, f @ [ev])), lib_box = tag_box\<rparr>"
  define c :: "(bucket, AuditEvent list, nat) Core" where
    "c = SetAuditLogger (Some []) (SetACLManager
       (Some [\<lparr>rule_Source = ''*'', rule_Skill = ''*'', rule_Allow = False\<rparr>]) core_New)"
  define env where "env = envelope_New ''e1'' 0 TypeTask ''p'' None"
  define i where "i = \<lparr>in_now = 0, in_stamp = ''now'', in_nonce = None\<rparr>"
  obtain err env' c' w' where r: "Route L i env c 0 = (err, env', c', w')" by (metis prod_cases4)
  obtain ierr ci where ci: "CheckInbound L i (Source env) (Meta MetaKeySkill env) (ID env) c = (ierr, ci)"
    by fastforce
  have acl: "acl c = Some [\<lparr>rule_Source = ''*'', rule_Skill = ''*'', rule_Allow = False\<rparr>]" "audit c = Some []"
    by (simp_all add: c_def SetAuditLogger_def SetACLManager_def)
  have v: "\<exists>e. verdict_of L (in_now i) (Source env) (Meta MetaKeySkill env) c = DenyACL e"
    by (simp add: verdict_of_def acl_check_def acl CheckAccess_def matchGlob_def Let_def)
  have "err \<noteq> None \<and> w' = 0 \<and> map ev_Action (the (audit c')) = [''deny'']"
    using Route_policy [OF r refl ci] v
    by (auto simp: acl audit_Log_def L_def verdict_action_def no_event_def i_def)
  then show ?thesis
    using r by (simp add: L_def c_def env_def i_def)
qed

section \<open>Encryption on the way out\<close>

lemma Route_permitted:
  assumes "Route L i env c w = (err, env', c', w')"
    and "verdict_of L (in_now i) (Source env) (Meta MetaKeySkill env) c = Permit"
    and "route_encrypt L (in_nonce i) env c = Inr env1"
  shows "env' = env1 \<and> core_Send env1 c w = (err, w')"
proof -
  obtain ok c1 where rc: "rate_check L (in_now i) (Source env) c = (ok, c1)" by fastforce
  have "route_encrypt L (in_nonce i) env c1 = route_encrypt L (in_nonce i) env c"
    and "core_Send env1 c1 w = core_Send env1 c w"
    using rate_check_frame [OF rc] by (simp_all add: route_encrypt_def core_Send_def)
  with assms rc show ?thesis
    unfolding Route_cases by (auto simp: Let_def split: prod.splits)
qed

text \<open>
  C20. End-to-end encryption. When the core has a private key and a permitted envelope names the
  recipient's public key, the transport is handed a payload that the recipient opens, with its
  private key and the sender's public key, to the original payload; and the envelope is marked as
  encrypted. The private scalar that does it is clamped as RFC 7748 requires.
\<close>

theorem Route_encrypts:
  assumes "box_laws (lib_box L) base"
    and "keypair (lib_box L) base spriv spub" and "keypair (lib_box L) base rpriv rpub"
    and "localPrivateKey c = Some spriv"
    and "hex_DecodeString (Meta ''recipient_pubkey'' env) = Some rpub" and "length rpub = 32"
    and "in_nonce i = Some nonce" and "length nonce = 24"
    and "verdict_of L (in_now i) (Source env) (Meta MetaKeySkill env) c = Permit"
    and "Route L i env c w = (err, env', c', w')"
  shows "\<exists>ct. Payload env' = Some ct
      \<and> DecryptPayload (lib_box L) ct spub rpriv = Inr (case Payload env of None \<Rightarrow> [] | Some p \<Rightarrow> p)
      \<and> Meta ''encrypted'' env' = ''nacl-box'' \<and> Target env' = Target env
      \<and> core_Send env' c w = (err, w')
      \<and> (\<exists>k. ed25519PrivateToX25519 (lib_box L) spriv = Some k \<and> k ! 0 AND 7 = 0 \<and> k ! 31 AND 192 = 64)"
proof -
  let ?m = "case Payload env of None \<Rightarrow> [] | Some p \<Rightarrow> p"
  obtain ct where ct: "EncryptPayload (lib_box L) (in_nonce i) ?m spriv rpub = Inr ct"
      "DecryptPayload (lib_box L) ct spub rpriv = Inr ?m"
    using box_laws.decrypt_encrypt [OF assms(1-3,8), of ?m] assms(7) by auto
  have "Meta ''recipient_pubkey'' env \<noteq> []"
    using assms(5,6) by auto
  then have "route_encrypt L (in_nonce i) env c =
      Inr (SetMeta ''encrypted'' ''nacl-box'' (env\<lparr>Payload := Some ct\<rparr>))"
    using assms(4-6) ct(1) by (simp add: route_encrypt_def)
  note R = Route_permitted [OF assms(10,9) this]
  have "\<exists>k. ed25519PrivateToX25519 (lib_box L) spriv = Some k"
    using assms(2) by (auto simp: keypair_def split: option.splits)
  then show ?thesis
    using R ct(2) box_laws.clamped [OF assms(1)] by auto
qed

text \<open>
  A recipient key that is not 64 hexadecimal digits does not stop the message: the envelope goes
  out with its payload in clear, as if no key had been given.
\<close>

theorem Route_malformed_key_sends_plaintext:
  assumes "Meta ''recipient_pubkey'' env \<noteq> []"
    and "\<And>k. hex_DecodeString (Meta ''recipient_pubkey'' env) = Some k \<Longrightarrow> length k \<noteq> 32"
    and "verdict_of L (in_now i) (Source env) (Meta MetaKeySkill env) c = Permit"
    and "Route L i env c w = (err, env', c', w')"
  shows "env' = env \<and> core_Send env c w = (err, w')"
proof -
  have "route_encrypt L (in_nonce i) env c = Inr env"
    using assms(2) by (auto simp: route_encrypt_def Let_def split: option.splits)
  from Route_permitted [OF assms(4,3) this] show ?thesis .
qed

text \<open>A core with the key pair of seed \<open>1\<close>, one transport that records what it sends, and no
  policy; an envelope with a payload.\<close>

definition demo_libs :: "(bucket, AuditEvent list) core_libs" where
  "demo_libs = \<lparr>lib_rate = bucket_ops, lib_encode = (\<lambda>ev f. (True, f @ [ev])), lib_box = tag_box\<rparr>"

definition demo_core :: "(bucket, AuditEvent list, Envelope list) Core" where
  "demo_core = SetEncryptionKey (Some (replicate 64 1)) (RegisterTransport
     \<lparr>tr_Name = ''t'', MatchesTarget = (\<lambda>_. True), tr_Send = (\<lambda>_ e w. (None, w @ [e]))\<rparr> core_New)"

definition demo_envelope :: "string \<Rightarrow> Envelope" where
  "demo_envelope key = SetMeta ''recipient_pubkey'' key (envelope_New ''e1'' 0 TypeTask ''p'' (Some [7]))"

definition demo_inputs :: core_inputs where
  "demo_inputs = \<lparr>in_now = 0, in_stamp = ''now'', in_nonce = Some (replicate 24 0)\<rparr>"

lemma demo_permit: "verdict_of demo_libs t src sk demo_core = Permit"
  by (simp add: verdict_of_def acl_check_def rate_check_def demo_core_def core_New_def SetEncryptionKey_def
      RegisterTransport_def)

lemma demo_key: "localPrivateKey demo_core = Some (replicate 64 1)"
  by (simp add: demo_core_def SetEncryptionKey_def)

lemma demo_key_32: "Meta ''recipient_pubkey'' (demo_envelope k) = k"
  by (simp add: demo_envelope_def)

theorem Route_encrypts_witness:
  "\<exists>err env' c' w'. Route demo_libs demo_inputs
       (demo_envelope ''0202020202020202020202020202020202020202020202020202020202020202'') demo_core []
       = (err, env', c', w') \<and>
     (\<exists>ct. Payload env' = Some ct \<and> DecryptPayload tag_box ct (replicate 32 1) (replicate 64 2) = Inr [7])"
proof -
  let ?k = "''0202020202020202020202020202020202020202020202020202020202020202''"
  obtain err env' c' w' where r: "Route demo_libs demo_inputs (demo_envelope ?k) demo_core [] = (err, env', c', w')"
    by (metis prod_cases4)
  have laws: "box_laws (lib_box demo_libs) id"
    using tag.box_laws_axioms by (simp add: demo_libs_def)
  have kp: "keypair (lib_box demo_libs) id (replicate 64 v) (replicate 32 v)" for v
    using tag_keypair [of "replicate 32 v" "replicate 32 v"]
    by (simp add: demo_libs_def replicate_add [symmetric])
  have hex: "hex_DecodeString (Meta ''recipient_pubkey'' (demo_envelope ?k)) = Some (replicate 32 2)"
    unfolding demo_key_32 by code_simp
  have p: "Payload (demo_envelope ?k) = Some [7]"
    by (simp add: demo_envelope_def envelope_New_def)
  show ?thesis
    using Route_encrypts [OF laws kp kp demo_key hex _ _ _ demo_permit r] r p
    by (simp add: demo_inputs_def) (auto simp: demo_libs_def)
qed

theorem Route_malformed_key_sends_plaintext_witness:
  "fst (snd (Route demo_libs demo_inputs (demo_envelope ''0x02'') demo_core [])) = demo_envelope ''0x02''"
proof -
  obtain err env' c' w' where r: "Route demo_libs demo_inputs (demo_envelope ''0x02'') demo_core [] = (err, env', c', w')"
    by (metis prod_cases4)
  have "hex_DecodeString ''0x02'' = None" by code_simp
  then show ?thesis
    using Route_malformed_key_sends_plaintext [OF _ _ demo_permit r] r by (simp add: demo_key_32)
qed

end
