(* ===== verification/Router.thy ===== *)
theory Router
  imports Engine AckTracker ConnCore
begin

text \<open>
  The A2A router of \<^verbatim>\<open>internal/a2a/router.go\<close>: dispatch of received envelopes, deduplication,
  inbound policy, task update subscriptions and the sending side.

  The router owns the engine, the acknowledgement tracker and the subscriber channels; the
  database and the outside world (what \<open>sendFn\<close> acts on) are passed along. A channel is a
  number, its buffer a list; sending on a closed channel sets \<open>panicked\<close>. The inbound policy
  is a function on a state of its own, \<open>'p\<close>; the daemon installs \<open>CheckInbound\<close> of the
  Connection Core.
\<close>

section \<open>Events and channels\<close>

record IncomingTaskEvent =
  inc_Task :: pb_Task
  inc_SenderCard :: "pb_AgentCard option"
  inc_SenderPeer :: peer_id

record TaskUpdateEvent =
  upd_TaskID :: string
  upd_Status :: pb_TaskStatus
  upd_Message :: "pb_Message option"
  upd_Artifacts :: "pb_Artifact list"

record sub_state =
  taskUpdateSubs :: "string \<rightharpoonup> nat list"
  chans :: "nat \<rightharpoonup> TaskUpdateEvent list"
  fresh_chan :: nat
  panicked :: bool

definition subs_of :: "string \<Rightarrow> sub_state \<Rightarrow> nat list" where
  "subs_of taskID st = (case taskUpdateSubs st taskID of None \<Rightarrow> [] | Some chs \<Rightarrow> chs)"

text \<open>\<open>select { case ch <- evt: default: }\<close> on a subscriber channel of 16 slots.\<close>

definition offer :: "TaskUpdateEvent \<Rightarrow> nat \<Rightarrow> sub_state \<Rightarrow> sub_state" where
  "offer evt ch st =
     (case chans st ch of
        None \<Rightarrow> st\<lparr>panicked := True\<rparr>
      | Some q \<Rightarrow> st\<lparr>chans := (chans st)(ch \<mapsto> try_send 16 evt q)\<rparr>)"

fun offer_all :: "TaskUpdateEvent \<Rightarrow> nat list \<Rightarrow> sub_state \<Rightarrow> sub_state" where
  "offer_all evt [] st = st"
| "offer_all evt (ch # chs) st = offer_all evt chs (offer evt ch st)"

section \<open>Status conversion\<close>

fun TaskStatusToProto :: "TaskStatus \<Rightarrow> pb_TaskStatus" where
  "TaskStatusToProto StatusSubmitted = TASK_STATUS_SUBMITTED"
| "TaskStatusToProto StatusWorking = TASK_STATUS_WORKING"
| "TaskStatusToProto StatusInputRequired = TASK_STATUS_INPUT_REQUIRED"
| "TaskStatusToProto StatusCompleted = TASK_STATUS_COMPLETED"
| "TaskStatusToProto StatusFailed = TASK_STATUS_FAILED"
| "TaskStatusToProto StatusCanceled = TASK_STATUS_CANCELED"
| "TaskStatusToProto StatusRejected = TASK_STATUS_REJECTED"
| "TaskStatusToProto _ = TASK_STATUS_UNSPECIFIED"

fun ProtoToTaskStatus :: "pb_TaskStatus \<Rightarrow> TaskStatus" where
  "ProtoToTaskStatus TASK_STATUS_SUBMITTED = StatusSubmitted"
| "ProtoToTaskStatus TASK_STATUS_WORKING = StatusWorking"
| "ProtoToTaskStatus TASK_STATUS_INPUT_REQUIRED = StatusInputRequired"
| "ProtoToTaskStatus TASK_STATUS_COMPLETED = StatusCompleted"
| "ProtoToTaskStatus TASK_STATUS_FAILED = StatusFailed"
| "ProtoToTaskStatus TASK_STATUS_CANCELED = StatusCanceled"
| "ProtoToTaskStatus TASK_STATUS_REJECTED = StatusRejected"
| "ProtoToTaskStatus _ = StatusUnspecified"

section \<open>The router\<close>

definition dedupCacheSize :: nat where
  "dedupCacheSize = 1024"

type_synonym 'p inbound_policy = "AgentIdentity \<Rightarrow> string \<Rightarrow> string \<Rightarrow> 'p \<Rightarrow> core_error option \<times> 'p"

record 'p Router =
  engine :: "sub_state Engine"
  subs :: sub_state
  ackTracker :: AckTracker
  inboundPolicy :: "'p inbound_policy option"
  policy_state :: 'p
  incomingCh :: "IncomingTaskEvent list"
  dedupCache :: "string set"
  dedupOrder :: "string list"

record ('db, 'w) router_libs =
  lib_bolt :: "'db bolt_ops"
  lib_json :: task_codec
  lib_pb :: pb_codec
  sendFn :: "'w send_func"
  peerCardFn :: "(peer_id \<Rightarrow> bytes option) option"

text \<open>What a call takes from outside: the successive readings of the clock, two generated
  identifiers and the trace fields to inject.\<close>

record router_inputs =
  ri_clock :: "nat \<Rightarrow> gotime"
  ri_uuid :: string
  ri_uuid2 :: string
  ri_trace :: "(string \<times> string) list"

text \<open>The engine callback that \<open>NewRouter\<close> installs.\<close>

definition engine_callback :: "Task \<Rightarrow> sub_state \<Rightarrow> sub_state" where
  "engine_callback t st =
     offer_all \<lparr>upd_TaskID = task_ID t, upd_Status = TaskStatusToProto (Status t),
                upd_Message = None, upd_Artifacts = []\<rparr>
       (subs_of (task_ID t) st) st"

definition no_subs :: sub_state where
  "no_subs = \<lparr>taskUpdateSubs = Map.empty, chans = Map.empty, fresh_chan = 0, panicked = False\<rparr>"

definition NewRouter :: "sub_state Engine \<Rightarrow> 'p \<Rightarrow> 'p Router" where
  "NewRouter e p =
     \<lparr>engine = SetOnTaskUpdate engine_callback e, subs = no_subs, ackTracker = NewAckTracker,
      inboundPolicy = None, policy_state = p, incomingCh = [], dedupCache = {}, dedupOrder = []\<rparr>"

definition SetInboundPolicy :: "'p inbound_policy \<Rightarrow> 'p Router \<Rightarrow> 'p Router" where
  "SetInboundPolicy policy r = r\<lparr>inboundPolicy := Some policy\<rparr>"

definition SubscribeTaskUpdates :: "string \<Rightarrow> 'p Router \<Rightarrow> nat \<times> 'p Router" where
  "SubscribeTaskUpdates taskID r =
     (let st = subs r; ch = fresh_chan st in
      (ch, r\<lparr>subs := st\<lparr>taskUpdateSubs := (taskUpdateSubs st)(taskID \<mapsto> subs_of taskID st @ [ch]),
                        chans := (chans st)(ch \<mapsto> []),
                        fresh_chan := Suc ch\<rparr>\<rparr>))"

text \<open>Closing a channel that is not open panics.\<close>

definition close_chan :: "nat \<Rightarrow> sub_state \<Rightarrow> sub_state" where
  "close_chan ch st =
     (case chans st ch of
        None \<Rightarrow> st\<lparr>panicked := True\<rparr>
      | Some _ \<Rightarrow> st\<lparr>chans := (chans st)(ch := None)\<rparr>)"

definition remove_sub :: "string \<Rightarrow> nat \<Rightarrow> sub_state \<Rightarrow> sub_state" where
  "remove_sub taskID ch st =
     (let rest = remove_first ch (subs_of taskID st) in
      st\<lparr>taskUpdateSubs := (taskUpdateSubs st)(taskID := (if rest = [] then None else Some rest))\<rparr>)"

definition UnsubscribeTaskUpdates :: "string \<Rightarrow> nat \<Rightarrow> 'p Router \<Rightarrow> 'p Router" where
  "UnsubscribeTaskUpdates taskID ch r = r\<lparr>subs := close_chan ch (remove_sub taskID ch (subs r))\<rparr>"

definition notifyUpdate ::
  "string \<Rightarrow> pb_TaskStatus \<Rightarrow> pb_Message option \<Rightarrow> pb_Artifact list \<Rightarrow> 'p Router \<Rightarrow> 'p Router" where
  "notifyUpdate taskID st msg artifacts r =
     r\<lparr>subs := offer_all \<lparr>upd_TaskID = taskID, upd_Status = st, upd_Message = msg,
                          upd_Artifacts = artifacts\<rparr>
                (subs_of taskID (subs r)) (subs r)\<rparr>"

section \<open>Receiving\<close>

definition isDuplicate :: "string \<Rightarrow> 'p Router \<Rightarrow> bool \<times> 'p Router" where
  "isDuplicate envID r =
     (if envID \<in> dedupCache r then (True, r)
      else
        let r1 = (if length (dedupOrder r) \<ge> dedupCacheSize
                  then r\<lparr>dedupOrder := tl (dedupOrder r), dedupCache := dedupCache r - {hd (dedupOrder r)}\<rparr>
                  else r)
        in (False, r1\<lparr>dedupCache := insert envID (dedupCache r1),
                      dedupOrder := dedupOrder r1 @ [envID]\<rparr>))"

definition extractSkillID :: "A2AEnvelope \<Rightarrow> string" where
  "extractSkillID env =
     (case GetSendTask (env_Payload env) of Some p \<Rightarrow> st_TargetSkillId p | None \<Rightarrow> [])"

definition ExtractEnvelopeID :: "pb_codec \<Rightarrow> string \<Rightarrow> bytes \<Rightarrow> string" where
  "ExtractEnvelopeID P uuid dat =
     (case pb_Unmarshal P dat of
        Some env \<Rightarrow> (if EnvelopeId env \<noteq> [] then EnvelopeId env else uuid)
      | None \<Rightarrow> uuid)"

definition lookup_card :: "('db, 'w) router_libs \<Rightarrow> peer_id \<Rightarrow> pb_AgentCard option" where
  "lookup_card L remotePeer =
     (case peerCardFn L of
        None \<Rightarrow> None
      | Some fn \<Rightarrow> (case fn remotePeer of
          None \<Rightarrow> None
        | Some cardData \<Rightarrow> pb_UnmarshalCard (lib_pb L) cardData))"

definition handleSendTask ::
  "('db, 'w) router_libs \<Rightarrow> router_inputs \<Rightarrow> peer_id \<Rightarrow> A2AEnvelope \<Rightarrow> 'p Router \<Rightarrow> 'db \<Rightarrow> 'p Router \<times> 'db" where
  "handleSendTask L i remotePeer env r d =
     (case GetSendTask (env_Payload env) of
        None \<Rightarrow> (r, d)
      | Some payload \<Rightarrow>
          (let taskID = (if st_TaskId payload = [] then ri_uuid i else st_TaskId payload);
               task = \<lparr>task_ID = taskID, ContextID = st_ContextId payload, Status = StatusSubmitted,
                       TargetSkillID = st_TargetSkillId payload, OriginatorPeerID = remotePeer,
                       CreatedAt = ri_clock i 0, UpdatedAt = ri_clock i 1\<rparr>;
               (e', d') = RegisterTask (lib_bolt L) (lib_json L) task (engine r) d;
               pbTask = \<lparr>pbt_TaskId = taskID, pbt_ContextId = st_ContextId payload,
                         pbt_Status = TASK_STATUS_SUBMITTED, pbt_TargetSkillId = st_TargetSkillId payload,
                         pbt_OriginatorPeerId = remotePeer,
                         pbt_Messages = (case st_Message payload of None \<Rightarrow> [] | Some m \<Rightarrow> [m]),
                         pbt_Artifacts = [], pbt_CreatedAt = Some (ri_clock i 2),
                         pbt_UpdatedAt = Some (ri_clock i 3)\<rparr>;
               evt = \<lparr>inc_Task = pbTask, inc_SenderCard = lookup_card L remotePeer, inc_SenderPeer = remotePeer\<rparr>
           in (r\<lparr>engine := e', incomingCh := try_send 64 evt (incomingCh r)\<rparr>, d')))"

text \<open>The common part of the four handlers that move a task: the transition, then the update to
  the subscribers when it was accepted.\<close>

definition move_task ::
  "('db, 'w) router_libs \<Rightarrow> router_inputs \<Rightarrow> string \<Rightarrow> TaskStatus \<Rightarrow> pb_TaskStatus \<Rightarrow> pb_Message option \<Rightarrow>
   pb_Artifact list \<Rightarrow> 'p Router \<Rightarrow> 'db \<Rightarrow> 'p Router \<times> 'db" where
  "move_task L i taskID newStatus pbStatus msg artifacts r d =
     (case TransitionTask (lib_bolt L) (lib_json L) (ri_clock i 0) taskID newStatus (engine r) d (subs r) of
        (Some err, e', d', st') \<Rightarrow> (r\<lparr>engine := e', subs := st'\<rparr>, d')
      | (None, e', d', st') \<Rightarrow>
          (notifyUpdate taskID pbStatus msg artifacts (r\<lparr>engine := e', subs := st'\<rparr>), d'))"

definition handleTaskStatusUpdate ::
  "('db, 'w) router_libs \<Rightarrow> router_inputs \<Rightarrow> peer_id \<Rightarrow> A2AEnvelope \<Rightarrow> 'p Router \<Rightarrow> 'db \<Rightarrow> 'p Router \<times> 'db" where
  "handleTaskStatusUpdate L i remotePeer env r d =
     (case GetTaskStatusUpdate (env_Payload env) of
        None \<Rightarrow> (r, d)
      | Some payload \<Rightarrow> move_task L i (su_TaskId payload) (ProtoToTaskStatus (su_Status payload))
                         (su_Status payload) (su_Message payload) [] r d)"

definition handleTaskComplete ::
  "('db, 'w) router_libs \<Rightarrow> router_inputs \<Rightarrow> peer_id \<Rightarrow> A2AEnvelope \<Rightarrow> 'p Router \<Rightarrow> 'db \<Rightarrow> 'p Router \<times> 'db" where
  "handleTaskComplete L i remotePeer env r d =
     (case GetTaskComplete (env_Payload env) of
        None \<Rightarrow> (r, d)
      | Some payload \<Rightarrow> move_task L i (tc_TaskId payload) StatusCompleted TASK_STATUS_COMPLETED
                         (tc_Message payload) (tc_Artifacts payload) r d)"

definition handleTaskFail ::
  "('db, 'w) router_libs \<Rightarrow> router_inputs \<Rightarrow> peer_id \<Rightarrow> A2AEnvelope \<Rightarrow> 'p Router \<Rightarrow> 'db \<Rightarrow> 'p Router \<times> 'db" where
  "handleTaskFail L i remotePeer env r d =
     (case GetTaskFail (env_Payload env) of
        None \<Rightarrow> (r, d)
      | Some payload \<Rightarrow> move_task L i (tf_TaskId payload) StatusFailed TASK_STATUS_FAILED
                         (tf_Message payload) [] r d)"

definition handleTaskCancel ::
  "('db, 'w) router_libs \<Rightarrow> router_inputs \<Rightarrow> peer_id \<Rightarrow> A2AEnvelope \<Rightarrow> 'p Router \<Rightarrow> 'db \<Rightarrow> 'p Router \<times> 'db" where
  "handleTaskCancel L i remotePeer env r d =
     (case GetTaskCancel (env_Payload env) of
        None \<Rightarrow> (r, d)
      | Some payload \<Rightarrow> move_task L i (tx_TaskId payload) StatusCanceled TASK_STATUS_CANCELED None [] r d)"

definition handleAck :: "peer_id \<Rightarrow> A2AEnvelope \<Rightarrow> 'p Router \<Rightarrow> 'p Router" where
  "handleAck remotePeer env r =
     (case GetAck (env_Payload env) of
        None \<Rightarrow> r
      | Some payload \<Rightarrow>
          r\<lparr>ackTracker := snd (Acknowledge (AcknowledgedEnvelopeId payload) (ackTracker r))\<rparr>)"

text \<open>The inbound policy check at the head of \<open>HandleMessage\<close>: whether the message may go on.\<close>

definition policy_check :: "peer_id \<Rightarrow> A2AEnvelope \<Rightarrow> 'p Router \<Rightarrow> bool \<times> 'p Router" where
  "policy_check remotePeer env r =
     (case inboundPolicy r of
        None \<Rightarrow> (True, r)
      | Some policy \<Rightarrow>
          if env_Type env = ENVELOPE_TYPE_ACK then (True, r)
          else case policy \<lparr>PeerID = remotePeer, DIDKey = []\<rparr> (extractSkillID env) (EnvelopeId env) (policy_state r) of
            (err, p') \<Rightarrow> (err = None, r\<lparr>policy_state := p'\<rparr>))"

definition dedup_check :: "A2AEnvelope \<Rightarrow> 'p Router \<Rightarrow> bool \<times> 'p Router" where
  "dedup_check env r =
     (if EnvelopeId env \<noteq> [] \<and> env_Type env \<noteq> ENVELOPE_TYPE_ACK then isDuplicate (EnvelopeId env) r
      else (False, r))"

definition dispatch ::
  "('db, 'w) router_libs \<Rightarrow> router_inputs \<Rightarrow> peer_id \<Rightarrow> A2AEnvelope \<Rightarrow> 'p Router \<Rightarrow> 'db \<Rightarrow> bool \<times> 'p Router \<times> 'db" where
  "dispatch L i remotePeer env r d =
     (case env_Type env of
        ENVELOPE_TYPE_SEND_TASK \<Rightarrow> (True, handleSendTask L i remotePeer env r d)
      | ENVELOPE_TYPE_TASK_STATUS_UPDATE \<Rightarrow> (True, handleTaskStatusUpdate L i remotePeer env r d)
      | ENVELOPE_TYPE_TASK_COMPLETE \<Rightarrow> (True, handleTaskComplete L i remotePeer env r d)
      | ENVELOPE_TYPE_TASK_FAIL \<Rightarrow> (True, handleTaskFail L i remotePeer env r d)
      | ENVELOPE_TYPE_TASK_CANCEL \<Rightarrow> (True, handleTaskCancel L i remotePeer env r d)
      | ENVELOPE_TYPE_ACK \<Rightarrow> (False, handleAck remotePeer env r, d)
      | _ \<Rightarrow> (False, r, d))"

definition HandleMessage ::
  "('db, 'w) router_libs \<Rightarrow> router_inputs \<Rightarrow> peer_id \<Rightarrow> bytes \<Rightarrow> 'p Router \<times> 'db \<times> 'w \<Rightarrow> 'p Router \<times> 'db \<times> 'w" where
  "HandleMessage L i remotePeer dat s =
     (case s of (r, d, w) \<Rightarrow>
      case pb_Unmarshal (lib_pb L) dat of
        None \<Rightarrow> (r, d, w)
      | Some env \<Rightarrow>
       (case policy_check remotePeer env r of
          (False, r1) \<Rightarrow> (r1, d, w)
        | (True, r1) \<Rightarrow>
         (case dedup_check env r1 of
            (True, r2) \<Rightarrow> (r2, d, w)
          | (False, r2) \<Rightarrow>
           (case dispatch L i remotePeer env r2 d of
              (False, r3, d') \<Rightarrow> (r3, d', w)
            | (True, r3, d') \<Rightarrow>
                (r3, d', snd (SendAck (lib_pb L) (sendFn L) (ri_uuid2 i) (ri_clock i 4) remotePeer
                                (EnvelopeId env) w))))))"

section \<open>Sending\<close>

datatype router_error =
    MarshalFailed
  | SendFailed peer_id string

text \<open>The tail of the four senders: marshal, send, and track for acknowledgement on success.\<close>

definition send_tracked ::
  "('db, 'w) router_libs \<Rightarrow> gotime \<Rightarrow> peer_id \<Rightarrow> A2AEnvelope \<Rightarrow> 'p Router \<Rightarrow> 'w \<Rightarrow> router_error option \<times> 'p Router \<times> 'w" where
  "send_tracked L now targetPeer env r w =
     (case pb_Marshal (lib_pb L) env of
        None \<Rightarrow> (Some MarshalFailed, r, w)
      | Some dat \<Rightarrow>
          (case sendFn L targetPeer dat w of
             (Some err, w') \<Rightarrow> (Some (SendFailed targetPeer err), r, w')
           | (None, w') \<Rightarrow>
               (None, r\<lparr>ackTracker := Track now targetPeer (EnvelopeId env) dat (ackTracker r)\<rparr>, w')))"

definition mk_envelope :: "string \<Rightarrow> pb_EnvelopeType \<Rightarrow> gotime \<Rightarrow> pb_Payload \<Rightarrow> A2AEnvelope" where
  "mk_envelope eid typ now payload =
     \<lparr>EnvelopeId = eid, env_Type = typ, env_Timestamp = Some now, TraceParent = [], TraceState = [],
      env_Payload = Some payload\<rparr>"

definition SendTask ::
  "('db, 'w) router_libs \<Rightarrow> router_inputs \<Rightarrow> peer_id \<Rightarrow> pb_Message option \<Rightarrow> string \<Rightarrow> string \<Rightarrow>
   'p Router \<Rightarrow> 'db \<Rightarrow> 'w \<Rightarrow> (router_error + Task) \<times> 'p Router \<times> 'db \<times> 'w" where
  "SendTask L i targetPeer msg targetSkillID contextID r d w =
     (case CreateTask (lib_bolt L) (lib_json L) (ri_uuid i) (ri_clock i 0) (ri_clock i 1)
             contextID targetSkillID ''local'' (engine r) d of
        (task, e', d') \<Rightarrow>
          (let r1 = r\<lparr>engine := e'\<rparr>;
               env = InjectTraceContext (ri_trace i)
                 (mk_envelope (ri_uuid2 i) ENVELOPE_TYPE_SEND_TASK (ri_clock i 2)
                   (PSendTask \<lparr>st_TaskId = task_ID task, st_ContextId = contextID, st_Message = msg,
                               st_TargetSkillId = targetSkillID\<rparr>))
           in case send_tracked L (ri_clock i 3) targetPeer env r1 w of
                (Some err, r2, w') \<Rightarrow> (Inl err, r2, d', w')
              | (None, r2, w') \<Rightarrow> (Inr task, r2, d', w')))"

definition SendStatusUpdate ::
  "('db, 'w) router_libs \<Rightarrow> router_inputs \<Rightarrow> peer_id \<Rightarrow> string \<Rightarrow> pb_TaskStatus \<Rightarrow> pb_Message option \<Rightarrow>
   'p Router \<Rightarrow> 'w \<Rightarrow> router_error option \<times> 'p Router \<times> 'w" where
  "SendStatusUpdate L i targetPeer taskID st msg r w =
     send_tracked L (ri_clock i 1) targetPeer
       (mk_envelope (ri_uuid2 i) ENVELOPE_TYPE_TASK_STATUS_UPDATE (ri_clock i 0)
         (PTaskStatusUpdate \<lparr>su_TaskId = taskID, su_Status = st, su_Message = msg\<rparr>)) r w"

definition SendComplete ::
  "('db, 'w) router_libs \<Rightarrow> router_inputs \<Rightarrow> peer_id \<Rightarrow> string \<Rightarrow> pb_Artifact list \<Rightarrow> pb_Message option \<Rightarrow>
   'p Router \<Rightarrow> 'w \<Rightarrow> router_error option \<times> 'p Router \<times> 'w" where
  "SendComplete L i targetPeer taskID artifacts msg r w =
     send_tracked L (ri_clock i 1) targetPeer
       (mk_envelope (ri_uuid2 i) ENVELOPE_TYPE_TASK_COMPLETE (ri_clock i 0)
         (PTaskComplete \<lparr>tc_TaskId = taskID, tc_Artifacts = artifacts, tc_Message = msg\<rparr>)) r w"

definition SendFail ::
  "('db, 'w) router_libs \<Rightarrow> router_inputs \<Rightarrow> peer_id \<Rightarrow> string \<Rightarrow> string \<Rightarrow>
   'p Router \<Rightarrow> 'w \<Rightarrow> router_error option \<times> 'p Router \<times> 'w" where
  "SendFail L i targetPeer taskID errorMessage r w =
     send_tracked L (ri_clock i 1) targetPeer
       (mk_envelope (ri_uuid2 i) ENVELOPE_TYPE_TASK_FAIL (ri_clock i 0)
         (PTaskFail \<lparr>tf_TaskId = taskID, tf_ErrorMessage = errorMessage, tf_Message = None\<rparr>)) r w"

end
