(* ===== verification/RouterFacts.thy ===== *)
theory RouterFacts
  imports Router OfflineQueue
begin

text \<open>
  What the router guarantees: the deduplication window, the effect of a received message on
  every branch, the task life cycle over any traffic, subscriber channels, and the exchange
  between two nodes.
\<close>

section \<open>Status conversion\<close>

text \<open>
  The status of a task survives the conversion to the wire and back, for every status the
  engine gives a task; an unknown status on either side becomes the unspecified one.
\<close>

theorem status_roundtrip:
  "(ProtoToTaskStatus (TaskStatusToProto s) = (case s of StatusOther n \<Rightarrow> StatusUnspecified | _ \<Rightarrow> s)) \<and>
   (TaskStatusToProto (ProtoToTaskStatus p) = (case p of TASK_STATUS_unknown n \<Rightarrow> TASK_STATUS_UNSPECIFIED | _ \<Rightarrow> p))"
  by (cases s; cases p) simp_all

section \<open>Deduplication\<close>

definition dedup_wf :: "'p Router \<Rightarrow> bool" where
  "dedup_wf r \<longleftrightarrow> dedupCache r = set (dedupOrder r) \<and> distinct (dedupOrder r) \<and>
     length (dedupOrder r) \<le> dedupCacheSize"

text \<open>The specification: a window over the identifiers that were new when they came.\<close>

definition window_add :: "string \<Rightarrow> string list \<Rightarrow> string list" where
  "window_add k win =
     (if k \<in> set win then win
      else (if length win \<ge> dedupCacheSize then tl win else win) @ [k])"

lemma isDuplicate_refines:
  assumes "dedup_wf r"
  shows "fst (isDuplicate k r) = (k \<in> set (dedupOrder r)) \<and>
    dedupOrder (snd (isDuplicate k r)) = window_add k (dedupOrder r) \<and>
    dedup_wf (snd (isDuplicate k r))"
proof (cases "length (dedupOrder r) \<ge> dedupCacheSize")
  case True
  then obtain x xs where xs: "dedupOrder r = x # xs"
    by (cases "dedupOrder r") (auto simp: dedupCacheSize_def)
  with True assms show ?thesis
    by (auto simp: isDuplicate_def dedup_wf_def window_add_def Let_def)
next
  case False
  with assms show ?thesis
    by (auto simp: isDuplicate_def dedup_wf_def window_add_def Let_def)
qed

lemma isDuplicate_frame [simp]:
  "engine (snd (isDuplicate k r)) = engine r" "subs (snd (isDuplicate k r)) = subs r"
  "ackTracker (snd (isDuplicate k r)) = ackTracker r" "incomingCh (snd (isDuplicate k r)) = incomingCh r"
  "policy_state (snd (isDuplicate k r)) = policy_state r" "inboundPolicy (snd (isDuplicate k r)) = inboundPolicy r"
  by (simp_all add: isDuplicate_def Let_def)

lemma isDuplicate_True: "fst (isDuplicate k r) \<Longrightarrow> snd (isDuplicate k r) = r"
  by (auto simp: isDuplicate_def Let_def split: if_splits)

fun dup_run :: "string list \<Rightarrow> 'p Router \<Rightarrow> 'p Router" where
  "dup_run [] r = r"
| "dup_run (k # ks) r = dup_run ks (snd (isDuplicate k r))"

lemma dup_run_wf: "dedup_wf r \<Longrightarrow> dedup_wf (dup_run ks r)"
  by (induction ks arbitrary: r) (simp_all add: isDuplicate_refines)

lemma card_new_le: "k' \<notin> S \<Longrightarrow> finite A \<Longrightarrow> k' \<in> A \<Longrightarrow> card (A - insert k' S) < card (A - S)"
  by (rule psubset_card_mono) auto

text \<open>An identifier at a given place of the window stays there while the new identifiers that
  came since fit behind it.\<close>

lemma window_keeps:
  assumes "dedup_wf r" and "dedupOrder r = us @ k # vs"
    and "length vs + card (set ks - insert k (set vs)) < dedupCacheSize"
  shows "k \<in> set (dedupOrder (dup_run ks r))"
  using assms
proof (induction ks arbitrary: r us vs)
  case Nil
  then show ?case by simp
next
  case (Cons a ks)
  let ?r = "snd (isDuplicate a r)"
  note ref = isDuplicate_refines [OF Cons.prems(1), of a]
  show ?case
  proof (cases "a \<in> set (dedupOrder r)")
    case True
    then have o: "dedupOrder ?r = us @ k # vs"
      using ref Cons.prems(2) by (simp add: window_add_def)
    have "card (set ks - insert k (set vs)) \<le> card (set (a # ks) - insert k (set vs))"
      by (rule card_mono) auto
    then show ?thesis
      using Cons.IH [OF _ o] ref Cons.prems(3) by simp
  next
    case False
    then have a: "a \<noteq> k" "a \<notin> set vs" using Cons.prems(2) by auto
    have "card (set ks - insert k (set (vs @ [a]))) \<le> card (set (a # ks) - insert a (insert k (set vs)))"
      by (rule card_mono) auto
    moreover have "card (set (a # ks) - insert a (insert k (set vs))) < card (set (a # ks) - insert k (set vs))"
      using a by (intro card_new_le) auto
    ultimately have sz: "length (vs @ [a]) + card (set ks - insert k (set (vs @ [a]))) < dedupCacheSize"
      using Cons.prems(3) by simp
    have "us \<noteq> [] \<or> length (dedupOrder r) < dedupCacheSize"
      using Cons.prems(2) sz by auto
    then obtain us' where o: "dedupOrder ?r = us' @ k # (vs @ [a])"
      using ref False Cons.prems(2)
      by (cases us; cases "length (dedupOrder r) \<ge> dedupCacheSize") (auto simp: window_add_def)
    then show ?thesis
      using Cons.IH [OF _ o sz] ref by simp
  qed
qed

text \<open>
  An envelope that was accepted once is recognised when it comes again, as long as fewer than
  1024 other identifiers came in between; and the memory for it stays bounded: the cache and the
  eviction order always hold the same identifiers, at most 1024 of them.
\<close>

theorem dedup_window:
  assumes "dedup_wf r" and "\<not> fst (isDuplicate k r)" and "card (set ks - {k}) < dedupCacheSize"
  shows "fst (isDuplicate k (dup_run ks (snd (isDuplicate k r)))) \<and>
    dedup_wf (dup_run ks (snd (isDuplicate k r)))"
proof -
  let ?r = "snd (isDuplicate k r)"
  note ref = isDuplicate_refines [OF assms(1), of k]
  obtain us where o: "dedupOrder ?r = us @ k # []"
    using ref assms(2) by (auto simp: window_add_def)
  have wf: "dedup_wf (dup_run ks ?r)" using ref dup_run_wf by blast
  moreover have "k \<in> set (dedupOrder (dup_run ks ?r))"
    using window_keeps [OF _ o] ref assms(3) by simp
  ultimately show ?thesis using isDuplicate_refines [OF wf] by simp
qed

lemma NewRouter_dedup: "dedup_wf (NewRouter e p)"
  by (simp add: dedup_wf_def NewRouter_def)

theorem dedup_window_witness:
  "fst (isDuplicate ''a'' (dup_run [''b'', ''c''] (snd (isDuplicate ''a'' (NewRouter NewEngine ())))))"
proof -
  have "\<not> fst (isDuplicate ''a'' (NewRouter NewEngine ()))"
    by (simp add: isDuplicate_def NewRouter_def Let_def)
  moreover have "card (set [''b'', ''c''] - {''a''}) < dedupCacheSize"
    by (simp add: dedupCacheSize_def card_insert_if insert_Diff_if)
  ultimately show ?thesis
    using dedup_window [OF NewRouter_dedup, of "''a''" NewEngine "()" "[''b'', ''c'']"] by blast
qed

section \<open>Received messages\<close>

fun is_task_type :: "pb_EnvelopeType \<Rightarrow> bool" where
  "is_task_type ENVELOPE_TYPE_SEND_TASK = True"
| "is_task_type ENVELOPE_TYPE_TASK_STATUS_UPDATE = True"
| "is_task_type ENVELOPE_TYPE_TASK_COMPLETE = True"
| "is_task_type ENVELOPE_TYPE_TASK_FAIL = True"
| "is_task_type ENVELOPE_TYPE_TASK_CANCEL = True"
| "is_task_type _ = False"

text \<open>The message goes past the policy and is not a duplicate.\<close>

definition admitted :: "peer_id \<Rightarrow> A2AEnvelope \<Rightarrow> 'p Router \<Rightarrow> bool" where
  "admitted p env r \<longleftrightarrow> fst (policy_check p env r) \<and> \<not> fst (dedup_check env (snd (policy_check p env r)))"

definition after_checks :: "peer_id \<Rightarrow> A2AEnvelope \<Rightarrow> 'p Router \<Rightarrow> 'p Router" where
  "after_checks p env r = snd (dedup_check env (snd (policy_check p env r)))"

lemma policy_check_frame:
  "policy_check p env r = (ok, r') \<Longrightarrow> \<exists>ps. r' = r\<lparr>policy_state := ps\<rparr>"
  by (cases r) (auto simp: policy_check_def split: option.splits if_splits prod.splits)

lemma policy_check_snd [simp]:
  "engine (snd (policy_check p env r)) = engine r" "subs (snd (policy_check p env r)) = subs r"
  "ackTracker (snd (policy_check p env r)) = ackTracker r"
  "incomingCh (snd (policy_check p env r)) = incomingCh r"
  "dedupCache (snd (policy_check p env r)) = dedupCache r"
  "dedupOrder (snd (policy_check p env r)) = dedupOrder r"
  using policy_check_frame [of p env r "fst (policy_check p env r)" "snd (policy_check p env r)"] by auto

lemma dedup_check_snd [simp]:
  "engine (snd (dedup_check env r)) = engine r" "subs (snd (dedup_check env r)) = subs r"
  "ackTracker (snd (dedup_check env r)) = ackTracker r"
  "incomingCh (snd (dedup_check env r)) = incomingCh r"
  by (simp_all add: dedup_check_def)

lemma after_checks_frame [simp]:
  "engine (after_checks p env r) = engine r" "subs (after_checks p env r) = subs r"
  "ackTracker (after_checks p env r) = ackTracker r" "incomingCh (after_checks p env r) = incomingCh r"
  by (simp_all add: after_checks_def)

lemma dispatch_acks: "fst (dispatch L i p env r d) = is_task_type (env_Type env)"
  by (cases "env_Type env") (simp_all add: dispatch_def)

text \<open>The three ways through \<open>HandleMessage\<close>.\<close>

lemma HandleMessage_garbage:
  "pb_Unmarshal (lib_pb L) dat = None \<Longrightarrow> HandleMessage L i p dat s = s"
  by (simp add: HandleMessage_def split: prod.splits)

lemma HandleMessage_refused:
  assumes "pb_Unmarshal (lib_pb L) dat = Some env" "\<not> admitted p env r"
  shows "\<exists>r'. HandleMessage L i p dat (r, d, w) = (r', d, w) \<and> engine r' = engine r \<and> subs r' = subs r \<and>
    ackTracker r' = ackTracker r \<and> incomingCh r' = incomingCh r"
proof -
  obtain ok r1 where pc: "policy_check p env r = (ok, r1)" by fastforce
  obtain dup r2 where dc: "dedup_check env r1 = (dup, r2)" by fastforce
  note f1 = policy_check_snd [of p env r, unfolded pc snd_conv]
  note f2 = dedup_check_snd [of env r1, unfolded dc snd_conv]
  show ?thesis
    using assms pc dc f1 f2
    by (cases ok; cases dup) (simp_all add: HandleMessage_def admitted_def)
qed

lemma HandleMessage_admitted:
  assumes "pb_Unmarshal (lib_pb L) dat = Some env" "admitted p env r"
  shows "HandleMessage L i p dat (r, d, w) =
    (case dispatch L i p env (after_checks p env r) d of (ack, r', d') \<Rightarrow>
       (r', d', if ack then snd (SendAck (lib_pb L) (sendFn L) (ri_uuid2 i) (ri_clock i 4) p (EnvelopeId env) w)
                else w))"
proof -
  obtain ok r1 where pc: "policy_check p env r = (ok, r1)" by fastforce
  obtain dup r2 where dc: "dedup_check env r1 = (dup, r2)" by fastforce
  show ?thesis
    using assms pc dc
    by (auto simp: HandleMessage_def admitted_def after_checks_def split: prod.splits bool.splits)
qed

text \<open>
  C16. What a received message makes the node send and what it may touch. A message that cannot be
  decoded, that the inbound policy rejects or that is a duplicate changes no task, no subscriber, no
  pending acknowledgement and no incoming queue, and nothing is sent: a duplicate is not
  acknowledged again. An admitted task message is answered by exactly one acknowledgement of its
  identifier to the peer it came from, whatever the handler made of it; any other message, an
  acknowledgement in particular, is never answered.
\<close>

theorem HandleMessage_replies:
  assumes "HandleMessage L i p dat (r, d, w) = (r', d', w')"
  shows "case pb_Unmarshal (lib_pb L) dat of
      None \<Rightarrow> r' = r \<and> d' = d \<and> w' = w
    | Some env \<Rightarrow>
        if admitted p env r
        then w' = (if is_task_type (env_Type env)
                   then snd (SendAck (lib_pb L) (sendFn L) (ri_uuid2 i) (ri_clock i 4) p (EnvelopeId env) w)
                   else w)
        else d' = d \<and> w' = w \<and> engine r' = engine r \<and> subs r' = subs r \<and> ackTracker r' = ackTracker r \<and>
             incomingCh r' = incomingCh r"
proof (cases "pb_Unmarshal (lib_pb L) dat")
  case None
  with assms show ?thesis by (simp add: HandleMessage_garbage)
next
  case (Some env)
  show ?thesis
  proof (cases "admitted p env r")
    case True
    with Some assms dispatch_acks [of L i p env "after_checks p env r" d] show ?thesis
      by (auto simp: HandleMessage_admitted split: prod.splits)
  next
    case False
    with Some assms HandleMessage_refused [OF Some False, of i d w] show ?thesis by auto
  qed
qed

section \<open>Tasks under traffic\<close>

text \<open>The engine call that an envelope leads to.\<close>

definition message_op :: "router_inputs \<Rightarrow> peer_id \<Rightarrow> A2AEnvelope \<Rightarrow> engine_op option" where
  "message_op i p env =
     (case env_Type env of
        ENVELOPE_TYPE_SEND_TASK \<Rightarrow>
          map_option (\<lambda>pl. OpRegister \<lparr>task_ID = (if st_TaskId pl = [] then ri_uuid i else st_TaskId pl),
              ContextID = st_ContextId pl, Status = StatusSubmitted, TargetSkillID = st_TargetSkillId pl,
              OriginatorPeerID = p, CreatedAt = ri_clock i 0, UpdatedAt = ri_clock i 1\<rparr>)
            (GetSendTask (env_Payload env))
      | ENVELOPE_TYPE_TASK_STATUS_UPDATE \<Rightarrow>
          map_option (\<lambda>pl. OpTransition (ri_clock i 0) (su_TaskId pl) (ProtoToTaskStatus (su_Status pl)))
            (GetTaskStatusUpdate (env_Payload env))
      | ENVELOPE_TYPE_TASK_COMPLETE \<Rightarrow>
          map_option (\<lambda>pl. OpTransition (ri_clock i 0) (tc_TaskId pl) StatusCompleted) (GetTaskComplete (env_Payload env))
      | ENVELOPE_TYPE_TASK_FAIL \<Rightarrow>
          map_option (\<lambda>pl. OpTransition (ri_clock i 0) (tf_TaskId pl) StatusFailed) (GetTaskFail (env_Payload env))
      | ENVELOPE_TYPE_TASK_CANCEL \<Rightarrow>
          map_option (\<lambda>pl. OpTransition (ri_clock i 0) (tx_TaskId pl) StatusCanceled) (GetTaskCancel (env_Payload env))
      | _ \<Rightarrow> None)"

definition run_op_option :: "'db bolt_ops \<Rightarrow> task_codec \<Rightarrow> engine_op option \<Rightarrow> 'c Engine \<times> 'db \<times> 'c \<Rightarrow> 'c Engine \<times> 'db \<times> 'c" where
  "run_op_option B J opt s = (case opt of None \<Rightarrow> s | Some op \<Rightarrow> engine_run1 B J op s)"

lemma move_task_engine:
  "move_task L i k s ps m arts r d = (r', d') \<Longrightarrow>
     \<exists>c. engine_run1 (lib_bolt L) (lib_json L) (OpTransition (ri_clock i 0) k s) (engine r, d, subs r) = (engine r', d', c)"
  by (auto simp: move_task_def notifyUpdate_def split: prod.splits option.splits)

lemma dispatch_engine:
  assumes "dispatch L i p env r d = (ack, r', d')"
  shows "\<exists>c. run_op_option (lib_bolt L) (lib_json L) (message_op i p env) (engine r, d, subs r) = (engine r', d', c)"
proof (cases "env_Type env")
  case ENVELOPE_TYPE_SEND_TASK
  with assms show ?thesis
    by (auto simp: dispatch_def handleSendTask_def message_op_def run_op_option_def Let_def
        split: option.splits prod.splits)
next
  case ENVELOPE_TYPE_TASK_STATUS_UPDATE
  with assms show ?thesis
    by (auto simp: dispatch_def handleTaskStatusUpdate_def message_op_def run_op_option_def
        split: option.splits dest: move_task_engine)
next
  case ENVELOPE_TYPE_TASK_COMPLETE
  with assms show ?thesis
    by (auto simp: dispatch_def handleTaskComplete_def message_op_def run_op_option_def
        split: option.splits dest: move_task_engine)
next
  case ENVELOPE_TYPE_TASK_FAIL
  with assms show ?thesis
    by (auto simp: dispatch_def handleTaskFail_def message_op_def run_op_option_def
        split: option.splits dest: move_task_engine)
next
  case ENVELOPE_TYPE_TASK_CANCEL
  with assms show ?thesis
    by (auto simp: dispatch_def handleTaskCancel_def message_op_def run_op_option_def
        split: option.splits dest: move_task_engine)
next
  case ENVELOPE_TYPE_ACK
  with assms show ?thesis
    by (auto simp: dispatch_def handleAck_def message_op_def run_op_option_def split: option.splits)
qed (use assms in \<open>auto simp: dispatch_def message_op_def run_op_option_def\<close>)

lemma HandleMessage_engine:
  assumes "HandleMessage L i p dat (r, d, w) = (r', d', w')"
  shows "\<exists>ops c. engine_run (lib_bolt L) (lib_json L) ops (engine r, d, subs r) = (engine r', d', c) \<and>
    (\<forall>op\<in>set ops. \<exists>env. pb_Unmarshal (lib_pb L) dat = Some env \<and> message_op i p env = Some op)"
proof (cases "\<exists>env. pb_Unmarshal (lib_pb L) dat = Some env \<and> admitted p env r")
  case True
  then obtain env where env: "pb_Unmarshal (lib_pb L) dat = Some env" "admitted p env r" by blast
  obtain ack r1 d1 where dsp: "dispatch L i p env (after_checks p env r) d = (ack, r1, d1)"
    by (metis prod_cases3)
  have eq: "r1 = r'" "d1 = d'"
    using assms env dsp by (simp_all add: HandleMessage_admitted)
  obtain c where c: "run_op_option (lib_bolt L) (lib_json L) (message_op i p env) (engine r, d, subs r) = (engine r', d', c)"
    using dispatch_engine [OF dsp] eq by auto
  show ?thesis
  proof (cases "message_op i p env")
    case None
    with c show ?thesis by (intro exI [of _ "[]"] exI [of _ c]) (simp add: run_op_option_def)
  next
    case (Some op)
    with c env show ?thesis by (intro exI [of _ "[op]"] exI [of _ c]) (simp add: run_op_option_def)
  qed
next
  case False
  have "engine r' = engine r \<and> d' = d"
  proof (cases "pb_Unmarshal (lib_pb L) dat")
    case None
    with assms show ?thesis by (simp add: HandleMessage_garbage)
  next
    case (Some env)
    with False assms HandleMessage_refused [OF Some, of p r i d w] show ?thesis by auto
  qed
  then show ?thesis by (intro exI [of _ "[]"] exI [of _ "subs r"]) simp
qed

fun receive_all ::
  "('db, 'w) router_libs \<Rightarrow> (router_inputs \<times> peer_id \<times> bytes) list \<Rightarrow> 'p Router \<times> 'db \<times> 'w \<Rightarrow> 'p Router \<times> 'db \<times> 'w" where
  "receive_all L [] s = s"
| "receive_all L ((i, p, dat) # ms) s = receive_all L ms (HandleMessage L i p dat s)"

text \<open>The message would (re)register a task under the identifier \<open>k\<close>.\<close>

definition submits :: "pb_codec \<Rightarrow> string \<Rightarrow> router_inputs \<times> peer_id \<times> bytes \<Rightarrow> bool" where
  "submits P k m =
     (case m of (i, p, dat) \<Rightarrow>
      case pb_Unmarshal P dat of
        None \<Rightarrow> False
      | Some env \<Rightarrow> (case message_op i p env of None \<Rightarrow> False | Some op \<Rightarrow> overwrites k op))"

lemma HandleMessage_status:
  assumes "HandleMessage L i p dat (r, d, w) = (r', d', w')" and "\<not> submits (lib_pb L) k (i, p, dat)"
    and "tasks (engine r) k = Some t"
  shows "\<exists>t'. tasks (engine r') k = Some t' \<and> status_step\<^sup>*\<^sup>* (Status t) (Status t') \<and>
    (IsTerminal (Status t) \<longrightarrow> t' = t)"
proof -
  obtain ops c where run: "engine_run (lib_bolt L) (lib_json L) ops (engine r, d, subs r) = (engine r', d', c)"
    and ops: "\<forall>op\<in>set ops. \<exists>env. pb_Unmarshal (lib_pb L) dat = Some env \<and> message_op i p env = Some op"
    using HandleMessage_engine [OF assms(1)] by blast
  have "\<forall>op\<in>set ops. \<not> overwrites k op"
    using ops assms(2) by (auto simp: submits_def)
  from engine_run_status [OF run this assms(3)] show ?thesis .
qed

text \<open>
  C4. Whatever peers send, in whatever order, duplicated, malformed or hostile: a task moves only
  along the A2A life cycle and a finished task stays as it is, unless a peer submits a task under
  the same identifier again.
\<close>

theorem traffic_follows_life_cycle:
  assumes "receive_all L ms (r, d, w) = (r', d', w')" and "\<forall>m\<in>set ms. \<not> submits (lib_pb L) k m"
    and "tasks (engine r) k = Some t"
  shows "\<exists>t'. tasks (engine r') k = Some t' \<and> status_step\<^sup>*\<^sup>* (Status t) (Status t') \<and>
    (IsTerminal (Status t) \<longrightarrow> t' = t)"
  using assms
proof (induction ms arbitrary: r d w t)
  case Nil
  then show ?case by simp
next
  case (Cons m ms)
  obtain i p dat where m: "m = (i, p, dat)" by (metis prod_cases3)
  obtain r1 d1 w1 where h: "HandleMessage L i p dat (r, d, w) = (r1, d1, w1)" by (metis prod_cases3)
  obtain t1 where t1: "tasks (engine r1) k = Some t1" "status_step\<^sup>*\<^sup>* (Status t) (Status t1)"
      "IsTerminal (Status t) \<longrightarrow> t1 = t"
    using HandleMessage_status [OF h, of k t] Cons.prems m by auto
  then obtain t' where "tasks (engine r') k = Some t'" "status_step\<^sup>*\<^sup>* (Status t1) (Status t')"
      "IsTerminal (Status t1) \<longrightarrow> t' = t1"
    using Cons.IH [of r1 d1 w1 t1] Cons.prems m h by auto
  with t1 show ?case by (metis rtranclp_trans)
qed

section \<open>A codec and a node for evaluation\<close>

text \<open>A codec that knows two envelopes by their first byte.\<close>

definition pair_codec :: "A2AEnvelope \<Rightarrow> A2AEnvelope \<Rightarrow> pb_codec" where
  "pair_codec a b =
     \<lparr>pb_Marshal = (\<lambda>e. if e = a then Some [0] else if e = b then Some [1] else None),
      pb_Unmarshal = (\<lambda>x. if x = [0] then Some a else if x = [1] then Some b else None),
      pb_UnmarshalCard = (\<lambda>_. None)\<rparr>"

lemma pair_codec_ok: "a \<noteq> b \<Longrightarrow> pb_codec_ok (pair_codec a b)"
  by (auto simp: pb_codec_ok_def pair_codec_def split: if_splits)

definition demo_router_inputs :: router_inputs where
  "demo_router_inputs = \<lparr>ri_clock = int, ri_uuid = ''k'', ri_uuid2 = ''u'', ri_trace = []\<rparr>"

definition demo_router_libs :: "pb_codec \<Rightarrow> (mem_db, (peer_id \<times> bytes) list) router_libs" where
  "demo_router_libs P = \<lparr>lib_bolt = mem_bolt, lib_json = demo_codec, lib_pb = P,
     sendFn = (\<lambda>p dat w. (None, w @ [(p, dat)])), peerCardFn = None\<rparr>"

definition cancel_envelope :: "string \<Rightarrow> A2AEnvelope" where
  "cancel_envelope k = mk_envelope ''c1'' ENVELOPE_TYPE_TASK_CANCEL 0 (PTaskCancel \<lparr>tx_TaskId = k\<rparr>)"

definition complete_envelope :: "string \<Rightarrow> A2AEnvelope" where
  "complete_envelope k =
     mk_envelope ''c2'' ENVELOPE_TYPE_TASK_COMPLETE 0
       (PTaskComplete \<lparr>tc_TaskId = k, tc_Artifacts = [], tc_Message = None\<rparr>)"

definition demo_router :: "unit Router" where
  "demo_router = NewRouter \<lparr>tasks = [''k'' \<mapsto> demo_task], has_store = False, onTaskUpdate = None\<rparr> ()"

lemma demo_router_task: "tasks (engine demo_router) ''k'' = Some demo_task"
  by (simp add: demo_router_def NewRouter_def SetOnTaskUpdate_def)

theorem traffic_follows_life_cycle_witness:
  "let L = demo_router_libs (pair_codec (cancel_envelope ''k'') (complete_envelope ''k''));
       (r', d', w') = receive_all L [(demo_router_inputs, ''p'', [0]), (demo_router_inputs, ''q'', [1])]
                        (demo_router, mem_empty, [])
   in \<exists>t'. tasks (engine r') ''k'' = Some t' \<and> status_step\<^sup>*\<^sup>* StatusSubmitted (Status t')"
proof -
  define L where "L = demo_router_libs (pair_codec (cancel_envelope ''k'') (complete_envelope ''k''))"
  let ?ms = "[(demo_router_inputs, ''p'', [0]), (demo_router_inputs, ''q'', [1])]"
  obtain r' d' w' where r: "receive_all L ?ms (demo_router, mem_empty, []) = (r', d', w')" by (metis prod_cases3)
  have "\<forall>m\<in>set ?ms. \<not> submits (lib_pb L) ''k'' m"
    by (simp add: submits_def L_def demo_router_libs_def pair_codec_def cancel_envelope_def
        complete_envelope_def mk_envelope_def message_op_def)
  from traffic_follows_life_cycle [OF r this demo_router_task] r show ?thesis
    by (auto simp: L_def demo_task_def)
qed

theorem HandleMessage_replies_witness:
  "snd (snd (HandleMessage (demo_router_libs (pair_codec (cancel_envelope ''k'') (complete_envelope ''k'')))
      demo_router_inputs ''p'' [7] (demo_router, mem_empty, []))) = []"
proof -
  define L where "L = demo_router_libs (pair_codec (cancel_envelope ''k'') (complete_envelope ''k''))"
  obtain r' d' w' where h: "HandleMessage L demo_router_inputs ''p'' [7] (demo_router, mem_empty, []) = (r', d', w')"
    by (metis prod_cases3)
  have "pb_Unmarshal (lib_pb L) [7] = None"
    by (simp add: L_def demo_router_libs_def pair_codec_def)
  with HandleMessage_replies [OF h] h show ?thesis by (simp add: L_def)
qed

section \<open>Who may move a task\<close>

text \<open>
  Handlers do not compare the sending peer with the task's originator: any peer whose message is
  admitted cancels any task that the life cycle allows to be canceled.
\<close>

theorem any_peer_cancels:
  assumes "pb_Unmarshal (lib_pb L) dat = Some env" and "admitted p env r"
    and "env_Type env = ENVELOPE_TYPE_TASK_CANCEL"
    and "env_Payload env = Some (PTaskCancel \<lparr>tx_TaskId = k\<rparr>)"
    and "tasks (engine r) k = Some t" and "\<not> IsTerminal (Status t)" and "validTransitions (Status t) \<noteq> None"
    and "HandleMessage L i p dat (r, d, w) = (r', d', w')"
  shows "tasks (engine r') k = Some (t\<lparr>Status := StatusCanceled, UpdatedAt := ri_clock i 0\<rparr>)"
proof -
  have st: "status_step (Status t) StatusCanceled"
    using assms(6,7) by (cases "Status t") auto
  let ?r = "after_checks p env r"
  have "tasks (engine ?r) k = Some t" using assms(5) by simp
  note tr = TransitionTask_ok [OF this st, of "lib_bolt L" "lib_json L" "ri_clock i 0" d "subs ?r"]
  show ?thesis
    using assms(3,4,8) tr
    by (auto simp: HandleMessage_admitted [OF assms(1,2)] dispatch_def handleTaskCancel_def move_task_def
        notifyUpdate_def Let_def split: prod.splits)
qed

lemma demo_admitted: "admitted p env demo_router"
  by (simp add: admitted_def policy_check_def dedup_check_def isDuplicate_def demo_router_def NewRouter_def Let_def)

theorem any_peer_cancels_witness:
  "OriginatorPeerID demo_task \<noteq> ''mallory'' \<and>
   tasks (engine (fst (HandleMessage (demo_router_libs (pair_codec (cancel_envelope ''k'') (complete_envelope ''k'')))
      demo_router_inputs ''mallory'' [0] (demo_router, mem_empty, [])))) ''k''
   = Some (demo_task\<lparr>Status := StatusCanceled, UpdatedAt := 0\<rparr>)"
proof -
  define L where "L = demo_router_libs (pair_codec (cancel_envelope ''k'') (complete_envelope ''k''))"
  obtain r' d' w' where h: "HandleMessage L demo_router_inputs ''mallory'' [0] (demo_router, mem_empty, []) = (r', d', w')"
    by (metis prod_cases3)
  have u: "pb_Unmarshal (lib_pb L) [0] = Some (cancel_envelope ''k'')"
    by (simp add: L_def demo_router_libs_def pair_codec_def)
  have "tasks (engine r') ''k'' = Some (demo_task\<lparr>Status := StatusCanceled, UpdatedAt := ri_clock demo_router_inputs 0\<rparr>)"
    by (rule any_peer_cancels [OF u demo_admitted _ _ demo_router_task _ _ h])
      (simp_all add: cancel_envelope_def mk_envelope_def demo_task_def)
  with h show ?thesis
    by (simp add: L_def demo_task_def demo_router_inputs_def)
qed

section \<open>Subscriber channels\<close>

text \<open>Every subscribed channel is open and subscribed once, and new channels are fresh.\<close>

definition subs_ok :: "sub_state \<Rightarrow> bool" where
  "subs_ok st \<longleftrightarrow> \<not> panicked st \<and>
     (\<forall>k. \<forall>ch\<in>set (subs_of k st). chans st ch \<noteq> None) \<and>
     (\<forall>k. distinct (subs_of k st)) \<and>
     (\<forall>k k'. k \<noteq> k' \<longrightarrow> set (subs_of k st) \<inter> set (subs_of k' st) = {}) \<and>
     (\<forall>ch. chans st ch \<noteq> None \<longrightarrow> ch < fresh_chan st) \<and>
     (\<forall>ch q. chans st ch = Some q \<longrightarrow> length q \<le> 16)"

lemma subs_of_chans [simp]:
  "subs_of k (st\<lparr>chans := m\<rparr>) = subs_of k st" "subs_of k (st\<lparr>panicked := b\<rparr>) = subs_of k st"
  "subs_of k (st\<lparr>fresh_chan := n\<rparr>) = subs_of k st"
  by (simp_all add: subs_of_def)

lemma open_chan: "subs_ok st \<Longrightarrow> ch \<in> set (subs_of k st) \<Longrightarrow> \<exists>q. chans st ch = Some q"
  by (metis subs_ok_def not_None_eq)

lemma offer_ok [inv_intros]:
  assumes "subs_ok st" "ch \<in> set (subs_of k st)"
  shows "subs_ok (offer evt ch st)"
proof -
  obtain q where q: "chans st ch = Some q" using open_chan [OF assms] by blast
  then have "length (try_send 16 evt q) \<le> 16"
    using assms(1) by (intro try_send_length) (simp add: subs_ok_def)
  with q assms show ?thesis by (auto simp: offer_def subs_ok_def)
qed

lemma subs_of_offer [simp]: "subs_of k (offer evt ch st) = subs_of k st"
  by (simp add: offer_def split: option.splits)

lemma offer_all_ok [inv_intros]:
  "subs_ok st \<Longrightarrow> set chs \<subseteq> set (subs_of k st) \<Longrightarrow> subs_ok (offer_all evt chs st)"
proof (induction chs arbitrary: st)
  case (Cons ch chs)
  then have "subs_ok (offer evt ch st)" by (auto intro: offer_ok)
  with Cons show ?case by simp
qed simp

lemma notifyUpdate_ok [inv_intros]: "subs_ok (subs r) \<Longrightarrow> subs_ok (subs (notifyUpdate k s m arts r))"
  by (auto simp: notifyUpdate_def intro: offer_all_ok)

lemma engine_callback_ok [inv_intros]: "subs_ok st \<Longrightarrow> subs_ok (engine_callback t st)"
  by (auto simp: engine_callback_def intro: offer_all_ok)

lemma subscribe_ok [inv_intros]:
  assumes "subs_ok (subs r)"
  shows "subs_ok (subs (snd (SubscribeTaskUpdates k r)))"
proof -
  let ?st = "subs r" and ?n = "fresh_chan (subs r)"
  have fresh: "?n \<notin> set (subs_of j ?st)" for j
    using assms unfolding subs_ok_def by (metis less_irrefl)
  have "subs_of j (subs (snd (SubscribeTaskUpdates k r))) = (if j = k then subs_of k ?st @ [?n] else subs_of j ?st)" for j
    by (simp add: SubscribeTaskUpdates_def subs_of_def Let_def)
  with assms fresh show ?thesis
    by (auto simp: subs_ok_def SubscribeTaskUpdates_def Let_def less_Suc_eq)
qed

lemma unsubscribe_ok [inv_intros]:
  assumes "subs_ok (subs r)" "ch \<in> set (subs_of k (subs r))"
  shows "subs_ok (subs (UnsubscribeTaskUpdates k ch r))"
proof -
  let ?st = "subs r"
  obtain q where q: "chans ?st ch = Some q" using open_chan [OF assms] by blast
  have rem: "subs_of j (subs (UnsubscribeTaskUpdates k ch r)) =
      (if j = k then remove_first ch (subs_of k ?st) else subs_of j ?st)" for j
    using q by (simp add: UnsubscribeTaskUpdates_def close_chan_def remove_sub_def subs_of_def Let_def)
  have st: "chans (subs (UnsubscribeTaskUpdates k ch r)) = (chans ?st)(ch := None)"
      "panicked (subs (UnsubscribeTaskUpdates k ch r)) = panicked ?st"
      "fresh_chan (subs (UnsubscribeTaskUpdates k ch r)) = fresh_chan ?st"
    using q by (simp_all add: UnsubscribeTaskUpdates_def close_chan_def remove_sub_def Let_def)
  have "ch \<notin> set (subs_of j ?st)" if "j \<noteq> k" for j
    using assms that unfolding subs_ok_def by blast
  moreover have "set (remove_first ch (subs_of k ?st)) = set (subs_of k ?st) - {ch}" "distinct (remove_first ch (subs_of k ?st))"
    using assms(1) by (simp_all add: subs_ok_def)
  moreover have "set (subs_of a ?st) \<inter> set (subs_of b ?st) = {}" if "a \<noteq> b" for a b
    using assms(1) that unfolding subs_ok_def by blast
  ultimately show ?thesis
    using assms(1) unfolding subs_ok_def rem st
    by (simp (no_asm_use) split: if_splits) blast
qed

section \<open>The router's invariant\<close>

definition router_ok :: "'p Router \<Rightarrow> bool" where
  "router_ok r \<longleftrightarrow> subs_ok (subs r) \<and> dedup_wf r \<and> keyed (tasks (engine r)) \<and>
     onTaskUpdate (engine r) = Some engine_callback \<and> length (incomingCh r) \<le> 64 \<and> ack_wf (ackTracker r)"

lemma router_okI [intro]:
  "router_ok r \<Longrightarrow> engine r' = engine r \<Longrightarrow> subs r' = subs r \<Longrightarrow> ackTracker r' = ackTracker r \<Longrightarrow>
   incomingCh r' = incomingCh r \<Longrightarrow> dedup_wf r' \<Longrightarrow> router_ok r'"
  by (simp add: router_ok_def)

lemma dedup_wf_cong: "dedupCache r' = dedupCache r \<Longrightarrow> dedupOrder r' = dedupOrder r \<Longrightarrow> dedup_wf r' = dedup_wf r"
  by (simp add: dedup_wf_def)

lemma dedup_wf_upd [simp]:
  "dedup_wf (r\<lparr>engine := e\<rparr>) = dedup_wf r" "dedup_wf (r\<lparr>subs := st\<rparr>) = dedup_wf r"
  "dedup_wf (r\<lparr>ackTracker := at\<rparr>) = dedup_wf r" "dedup_wf (r\<lparr>incomingCh := ch\<rparr>) = dedup_wf r"
  by (simp_all add: dedup_wf_def)

lemma dedup_wf_dedup_check: "dedup_wf r \<Longrightarrow> dedup_wf (snd (dedup_check env r))"
  by (simp add: dedup_check_def isDuplicate_refines)

lemma after_checks_ok [inv_intros]:
  assumes "router_ok r"
  shows "router_ok (after_checks p env r)"
proof -
  have "dedup_wf (snd (policy_check p env r)) = dedup_wf r"
    by (rule dedup_wf_cong) simp_all
  then have "dedup_wf (after_checks p env r)"
    using assms by (simp add: after_checks_def router_ok_def dedup_wf_dedup_check)
  with assms show ?thesis by (rule_tac router_okI) simp_all
qed

lemma policy_check_ok [inv_intros]:
  assumes "router_ok r"
  shows "router_ok (snd (policy_check p env r))"
proof -
  have "dedup_wf (snd (policy_check p env r)) = dedup_wf r"
    by (rule dedup_wf_cong) simp_all
  with assms show ?thesis by (rule_tac router_okI) (simp_all add: router_ok_def)
qed

lemma notifyUpdate_frame [simp]:
  "engine (notifyUpdate k s m arts r) = engine r" "ackTracker (notifyUpdate k s m arts r) = ackTracker r"
  "incomingCh (notifyUpdate k s m arts r) = incomingCh r"
  "dedup_wf (notifyUpdate k s m arts r) = dedup_wf r"
  by (simp_all add: notifyUpdate_def)

lemma move_task_ok [inv_intros]:
  assumes "router_ok r"
  shows "router_ok (fst (move_task L i k s ps m arts r d))"
proof (cases "\<exists>t. tasks (engine r) k = Some t \<and> status_step (Status t) s")
  case True
  then obtain t where t: "tasks (engine r) k = Some t" "status_step (Status t) s" by blast
  note tr = TransitionTask_ok [OF t, of "lib_bolt L" "lib_json L" "ri_clock i 0" d "subs r"]
  let ?t = "t\<lparr>Status := s, UpdatedAt := ri_clock i 0\<rparr>"
  let ?r = "r\<lparr>engine := (engine r)\<lparr>tasks := (tasks (engine r))(k \<mapsto> ?t)\<rparr>, subs := engine_callback ?t (subs r)\<rparr>"
  have "router_ok (notifyUpdate k ps m arts ?r)"
    using assms t by (auto simp: router_ok_def intro!: inv_intros dest: keyedD)
  with tr assms show ?thesis by (simp add: move_task_def Let_def router_ok_def)
next
  case False
  with TransitionTask_err [of "engine r" k s "lib_bolt L" "lib_json L" "ri_clock i 0" d "subs r"] assms
  show ?thesis by (auto simp: move_task_def)
qed

lemma handleSendTask_ok [inv_intros]:
  assumes "router_ok r"
  shows "router_ok (fst (handleSendTask L i p env r d))"
  using assms try_send_length [of "incomingCh r" 64]
  by (auto simp: handleSendTask_def RegisterTask_def router_ok_def Let_def
      intro!: keyed_upd split: option.splits)

lemma handleAck_ok [inv_intros]: "router_ok r \<Longrightarrow> router_ok (handleAck p env r)"
  by (auto simp: handleAck_def router_ok_def intro: inv_intros split: option.splits)

lemma dispatch_ok [inv_intros]:
  assumes "router_ok r"
  shows "router_ok (fst (snd (dispatch L i p env r d)))"
  using assms
  by (cases "env_Type env")
    (auto simp: dispatch_def handleTaskStatusUpdate_def handleTaskComplete_def handleTaskFail_def
      handleTaskCancel_def intro: inv_intros split: option.splits)

lemma HandleMessage_ok [inv_intros]:
  assumes "router_ok r"
  shows "router_ok (fst (HandleMessage L i p dat (r, d, w)))"
proof (cases "pb_Unmarshal (lib_pb L) dat")
  case None
  with assms show ?thesis by (simp add: HandleMessage_garbage)
next
  case (Some env)
  show ?thesis
  proof (cases "admitted p env r")
    case True
    with Some after_checks_ok [OF assms, THEN dispatch_ok, of L i p env p env d] show ?thesis
      by (auto simp: HandleMessage_admitted split: prod.splits)
  next
    case False
    then show ?thesis
      using Some policy_check_ok [OF assms, of p env] after_checks_ok [OF assms, of p env]
      by (auto simp: HandleMessage_def admitted_def after_checks_def split: prod.splits bool.splits)
  qed
qed

lemma send_tracked_ok [inv_intros]:
  "router_ok r \<Longrightarrow> router_ok (fst (snd (send_tracked L now p env r w)))"
  by (auto simp: send_tracked_def router_ok_def intro: inv_intros split: option.splits prod.splits)

lemma SendTask_ok [inv_intros]:
  assumes "router_ok r"
  shows "router_ok (fst (snd (SendTask L i p msg sk cx r d w)))"
proof -
  obtain task e' d' where c: "CreateTask (lib_bolt L) (lib_json L) (ri_uuid i) (ri_clock i 0) (ri_clock i 1)
      cx sk ''local'' (engine r) d = (task, e', d')" by (metis prod_cases3)
  then have "router_ok (r\<lparr>engine := e'\<rparr>)"
    using assms by (auto simp: CreateTask_def router_ok_def Let_def intro!: keyed_upd)
  then have "router_ok (fst (snd (send_tracked L now p env (r\<lparr>engine := e'\<rparr>) w)))" for now env
    by (rule send_tracked_ok)
  from this [of "ri_clock i 3" "InjectTraceContext (ri_trace i) (mk_envelope (ri_uuid2 i) ENVELOPE_TYPE_SEND_TASK
      (ri_clock i 2) (PSendTask \<lparr>st_TaskId = task_ID task, st_ContextId = cx, st_Message = msg, st_TargetSkillId = sk\<rparr>))"]
  show ?thesis
    unfolding SendTask_def c by (auto simp: Let_def split: prod.splits option.splits)
qed

text \<open>
  The router keeps its invariant, from its construction on, under every received message, every
  message it sends, and subscribing and unsubscribing: subscriber channels are open while they are
  subscribed and hold at most 16 events, so that no send or close panics; the incoming queue holds
  at most 64 tasks; the deduplication cache holds at most 1024 identifiers; every task is stored
  under its own identifier; no pending message was retried more than three times.
\<close>

theorem router_invariant:
  assumes "router_ok r"
  shows "router_ok (fst (HandleMessage L i p dat (r, d, w)))
    \<and> router_ok (fst (snd (SendTask L i p msg sk cx r d w)))
    \<and> router_ok (fst (snd (SendStatusUpdate L i p k st msg r w)))
    \<and> router_ok (fst (snd (SendComplete L i p k arts msg r w)))
    \<and> router_ok (fst (snd (SendFail L i p k reason r w)))
    \<and> router_ok (snd (SubscribeTaskUpdates k r))
    \<and> (ch \<in> set (subs_of k (subs r)) \<longrightarrow> router_ok (UnsubscribeTaskUpdates k ch r))"
proof (intro conjI impI)
  show "router_ok (snd (SubscribeTaskUpdates k r))"
    using assms subscribe_ok [of r k] by (auto simp: router_ok_def SubscribeTaskUpdates_def Let_def)
next
  assume "ch \<in> set (subs_of k (subs r))"
  with assms show "router_ok (UnsubscribeTaskUpdates k ch r)"
    using unsubscribe_ok [of r ch k] by (auto simp: router_ok_def UnsubscribeTaskUpdates_def)
qed (use assms in \<open>auto simp: SendStatusUpdate_def SendComplete_def SendFail_def intro: inv_intros\<close>)

lemma NewRouter_ok: "keyed (tasks e) \<Longrightarrow> router_ok (NewRouter e p)"
  by (simp add: router_ok_def NewRouter_def dedup_wf_def SetOnTaskUpdate_def subs_ok_def
      subs_of_def no_subs_def ack_wf_def NewAckTracker_def)

theorem router_invariant_witness:
  "router_ok (fst (HandleMessage (demo_router_libs (pair_codec (cancel_envelope ''k'') (complete_envelope ''k'')))
     demo_router_inputs ''p'' [0] (demo_router, mem_empty, [])))"
proof -
  have "router_ok demo_router"
    unfolding demo_router_def by (rule NewRouter_ok) (simp add: keyed_def demo_task_def)
  then show ?thesis by (rule router_invariant [THEN conjunct1])
qed

section \<open>Unsubscribing during a notification\<close>

text \<open>
  A notification reads the slice of subscribers under the lock and sends after releasing it.
  \<open>UnsubscribeTaskUpdates\<close> removes an element with \<open>append(subs[:i], subs[i+1:]...)\<close>, which shifts
  the shared array in place: a slice read before sees the shifted elements and, in its last place,
  still the old last element.
\<close>

definition slice_after_removal :: "nat \<Rightarrow> nat list \<Rightarrow> nat list" where
  "slice_after_removal ch xs = (if ch \<in> set xs then remove_first ch xs @ [last xs] else xs)"

lemma offer_all_panics:
  "ch \<in> set chs \<Longrightarrow> chans st ch = None \<Longrightarrow> panicked (offer_all evt chs st)"
proof (induction chs arbitrary: st)
  case (Cons a chs)
  have mono: "panicked st \<Longrightarrow> panicked (offer_all evt cs st)" for st cs
    by (induction cs arbitrary: st) (auto simp: offer_def split: option.splits)
  show ?case
  proof (cases "a = ch")
    case True
    with Cons.prems mono show ?thesis by (simp add: offer_def)
  next
    case False
    then have "chans (offer evt a st) ch = None"
      using Cons.prems by (simp add: offer_def split: option.splits)
    with Cons False show ?thesis by simp
  qed
qed simp

text \<open>
  The lock does not cover the sends of a notification. When the last subscriber of a task (the
  only one, say) unsubscribes after the notification has read the slice and before it sends, the
  notification sends on a closed channel, which panics.
\<close>

theorem unsubscribe_race_panics:
  assumes "router_ok r" and "subs_of k (subs r) = others @ [ch]"
  shows "panicked (offer_all evt (slice_after_removal ch (subs_of k (subs r)))
    (subs (UnsubscribeTaskUpdates k ch r)))"
proof (rule offer_all_panics)
  show "ch \<in> set (slice_after_removal ch (subs_of k (subs r)))"
    by (simp add: slice_after_removal_def assms(2))
  have "\<exists>q. chans (subs r) ch = Some q"
    using assms open_chan [of "subs r" ch k] by (simp add: router_ok_def)
  then show "chans (subs (UnsubscribeTaskUpdates k ch r)) ch = None"
    by (auto simp: UnsubscribeTaskUpdates_def close_chan_def remove_sub_def Let_def)
qed

theorem unsubscribe_race_panics_witness:
  "let (ch, r) = SubscribeTaskUpdates ''k'' demo_router;
       evt = \<lparr>upd_TaskID = ''k'', upd_Status = TASK_STATUS_WORKING, upd_Message = None, upd_Artifacts = []\<rparr>
   in panicked (offer_all evt (slice_after_removal ch (subs_of ''k'' (subs r))) (subs (UnsubscribeTaskUpdates ''k'' ch r)))"
proof -
  obtain ch r where s: "SubscribeTaskUpdates ''k'' demo_router = (ch, r)" by fastforce
  have "router_ok demo_router"
    unfolding demo_router_def by (rule NewRouter_ok) (simp add: keyed_def demo_task_def)
  then have ok: "router_ok r"
    using s subscribe_ok [of demo_router "''k''"] by (auto simp: router_ok_def SubscribeTaskUpdates_def Let_def)
  have "subs_of ''k'' (subs r) = [] @ [ch]"
    using s by (auto simp: SubscribeTaskUpdates_def Let_def subs_of_def demo_router_def NewRouter_def no_subs_def)
  from unsubscribe_race_panics [OF ok this] s show ?thesis by (simp add: Let_def)
qed

section \<open>Two nodes\<close>

text \<open>A link that records what is sent; the nodes may differ in everything but the wire format.\<close>

type_synonym outbox = "(peer_id \<times> bytes) list"

definition linked :: "('db, outbox) router_libs \<Rightarrow> bool" where
  "linked L \<longleftrightarrow> sendFn L = (\<lambda>p dat w. (None, w @ [(p, dat)]))"

lemma SendAck_sent:
  assumes "linked L" "pb_codec_ok (lib_pb L)"
    and "snd (SendAck (lib_pb L) (sendFn L) uuid now p eid []) = [(q, ack)]"
  shows "q = p \<and> (\<exists>env. pb_Unmarshal (lib_pb L) ack = Some env \<and> env_Type env = ENVELOPE_TYPE_ACK \<and>
    env_Payload env = Some (PAck \<lparr>AcknowledgedEnvelopeId = eid\<rparr>))"
  using assms by (auto simp: SendAck_def linked_def pb_codec_ok_def Let_def split: option.splits)

lemma HandleMessage_ack:
  assumes "pb_Unmarshal (lib_pb L) ack = Some env" "env_Type env = ENVELOPE_TYPE_ACK"
    and "env_Payload env = Some (PAck \<lparr>AcknowledgedEnvelopeId = eid\<rparr>)"
  shows "HandleMessage L i p ack (r, d, w) = (r\<lparr>ackTracker := snd (Acknowledge eid (ackTracker r))\<rparr>, d, w)"
  using assms
  by (simp add: HandleMessage_def policy_check_def dedup_check_def dispatch_def handleAck_def split: option.splits)

lemma send_tracked_sent:
  assumes "linked L" "pb_codec_ok (lib_pb L)" "send_tracked L now q env r [] = (None, r', out)"
  shows "\<exists>dat. out = [(q, dat)] \<and> pb_Unmarshal (lib_pb L) dat = Some env \<and>
    r' = r\<lparr>ackTracker := Track now q (EnvelopeId env) dat (ackTracker r)\<rparr>"
  using assms by (auto simp: send_tracked_def linked_def pb_codec_ok_def split: option.splits)

lemma SendTask_sent:
  assumes "linked L" "pb_codec_ok (lib_pb L)" "SendTask L i q msg sk cx r d [] = (Inr task, r', d', out)"
  shows "\<exists>dat env. out = [(q, dat)] \<and> pb_Unmarshal (lib_pb L) dat = Some env \<and>
    EnvelopeId env = ri_uuid2 i \<and> env_Type env = ENVELOPE_TYPE_SEND_TASK \<and>
    env_Payload env = Some (PSendTask \<lparr>st_TaskId = ri_uuid i, st_ContextId = cx, st_Message = msg, st_TargetSkillId = sk\<rparr>) \<and>
    pending (ackTracker r') (ri_uuid2 i) \<noteq> None \<and> task_ID task = ri_uuid i"
proof -
  define env where "env = InjectTraceContext (ri_trace i) (mk_envelope (ri_uuid2 i) ENVELOPE_TYPE_SEND_TASK (ri_clock i 2)
      (PSendTask \<lparr>st_TaskId = ri_uuid i, st_ContextId = cx, st_Message = msg, st_TargetSkillId = sk\<rparr>))"
  obtain r1 where s: "send_tracked L (ri_clock i 3) q env r1 [] = (None, r', out)" and t: "task_ID task = ri_uuid i"
    using assms(3)
    by (auto simp: SendTask_def CreateTask_def env_def Let_def split: prod.splits option.splits)
  from send_tracked_sent [OF assms(1,2) s] t show ?thesis
    by (auto simp: env_def mk_envelope_def Track_def)
qed

text \<open>
  C1. A task sent over a working link arrives and is settled. When \<open>SendTask\<close> on node A succeeds, the
  one message it puts on the link, delivered to node B that admits it, registers the task on B under
  the same identifier, submitted, with A as originator and with the skill and context that A asked
  for, and hands it to B's application if its queue has room; and the acknowledgement that B sends
  back, delivered to A, clears the message from A's table of pending messages, with no further
  message sent.
\<close>

theorem task_exchange:
  assumes "pb_codec_ok P" and "linked LA" "lib_pb LA = P" and "linked LB" "lib_pb LB = P"
    and "ri_uuid iA \<noteq> []"
    and "SendTask LA iA peerB msg sk cx rA dA [] = (Inr task, rA1, dA1, outA)"
    and "outA = [(dest, dat)]" and "pb_Unmarshal P dat = Some env" and "admitted peerA env rB"
    and "HandleMessage LB iB peerA dat (rB, dB, []) = (rB1, dB1, outB)" and "outB = [(dest', ack)]"
    and "HandleMessage LA iA2 peerB ack (rA1, dA1, []) = (rA2, dA2, outA2)"
  shows "dest = peerB \<and> dest' = peerA
    \<and> (\<exists>t. tasks (engine rB1) (task_ID task) = Some t \<and> Status t = StatusSubmitted \<and>
         OriginatorPeerID t = peerA \<and> TargetSkillID t = sk \<and> ContextID t = cx)
    \<and> (length (incomingCh rB) < 64 \<longrightarrow>
         (\<exists>evt. incomingCh rB1 = incomingCh rB @ [evt] \<and> inc_SenderPeer evt = peerA \<and>
            pbt_TaskId (inc_Task evt) = task_ID task))
    \<and> pending (ackTracker rA1) (ri_uuid2 iA) \<noteq> None \<and> pending (ackTracker rA2) (ri_uuid2 iA) = None
    \<and> outA2 = []"
proof -
  have sent: "dest = peerB" "EnvelopeId env = ri_uuid2 iA" "env_Type env = ENVELOPE_TYPE_SEND_TASK"
      "env_Payload env = Some (PSendTask \<lparr>st_TaskId = ri_uuid iA, st_ContextId = cx, st_Message = msg, st_TargetSkillId = sk\<rparr>)"
      "pending (ackTracker rA1) (ri_uuid2 iA) \<noteq> None" "task_ID task = ri_uuid iA"
    using SendTask_sent [OF assms(2) _ assms(7)] assms(1,3,8,9) by auto
  have env: "pb_Unmarshal (lib_pb LB) dat = Some env" using assms(5,9) by simp
  have B: "rB1 = fst (handleSendTask LB iB peerA env (after_checks peerA env rB) dB)"
      "outB = snd (SendAck (lib_pb LB) (sendFn LB) (ri_uuid2 iB) (ri_clock iB 4) peerA (EnvelopeId env) [])"
    using assms(11) sent(3) by (simp_all add: HandleMessage_admitted [OF env assms(10)] dispatch_def split: prod.splits)
  have acked: "dest' = peerA" "\<exists>e. pb_Unmarshal (lib_pb LA) ack = Some e \<and> env_Type e = ENVELOPE_TYPE_ACK \<and>
      env_Payload e = Some (PAck \<lparr>AcknowledgedEnvelopeId = ri_uuid2 iA\<rparr>)"
    using SendAck_sent [of LB] assms(1,3,4,5,12) B(2) sent(2) by auto
  then obtain e where e: "pb_Unmarshal (lib_pb LA) ack = Some e" "env_Type e = ENVELOPE_TYPE_ACK"
      "env_Payload e = Some (PAck \<lparr>AcknowledgedEnvelopeId = ri_uuid2 iA\<rparr>)" by blast
  have A: "rA2 = rA1\<lparr>ackTracker := snd (Acknowledge (ri_uuid2 iA) (ackTracker rA1))\<rparr>" "outA2 = []"
    using assms(13) by (simp_all add: HandleMessage_ack [OF e])
  have "\<exists>t. tasks (engine rB1) (task_ID task) = Some t \<and> Status t = StatusSubmitted \<and>
      OriginatorPeerID t = peerA \<and> TargetSkillID t = sk \<and> ContextID t = cx"
    using assms(6) sent(4,6) by (simp add: B(1) handleSendTask_def RegisterTask_def Let_def)
  moreover have "length (incomingCh rB) < 64 \<longrightarrow>
      (\<exists>evt. incomingCh rB1 = incomingCh rB @ [evt] \<and> inc_SenderPeer evt = peerA \<and> pbt_TaskId (inc_Task evt) = task_ID task)"
    using assms(6) sent(4,6) by (simp add: B(1) handleSendTask_def RegisterTask_def try_send_def Let_def)
  moreover have "pending (ackTracker rA2) (ri_uuid2 iA) = None"
    by (simp add: A(1) Acknowledge_pending)
  ultimately show ?thesis using sent(1,5) acked(1) A(2) by blast
qed

text \<open>The two envelopes of an exchange between two fresh nodes.\<close>

definition demo_task_envelope :: A2AEnvelope where
  "demo_task_envelope = mk_envelope ''u'' ENVELOPE_TYPE_SEND_TASK 2
     (PSendTask \<lparr>st_TaskId = ''k'', st_ContextId = ''cx'', st_Message = None, st_TargetSkillId = ''sk''\<rparr>)"

definition demo_ack_envelope :: A2AEnvelope where
  "demo_ack_envelope = mk_envelope ''u'' ENVELOPE_TYPE_ACK 4 (PAck \<lparr>AcknowledgedEnvelopeId = ''u''\<rparr>)"

definition demo_wire :: pb_codec where
  "demo_wire = pair_codec demo_task_envelope demo_ack_envelope"

lemma demo_wire_simps [simp]:
  "pb_Marshal demo_wire demo_task_envelope = Some [0]" "pb_Marshal demo_wire demo_ack_envelope = Some [1]"
  "pb_Unmarshal demo_wire [0] = Some demo_task_envelope" "pb_Unmarshal demo_wire [1] = Some demo_ack_envelope"
  by (simp_all add: demo_wire_def pair_codec_def demo_task_envelope_def demo_ack_envelope_def mk_envelope_def)

lemma demo_wire_ok: "pb_codec_ok demo_wire"
  unfolding demo_wire_def by (rule pair_codec_ok) (simp add: demo_task_envelope_def demo_ack_envelope_def mk_envelope_def)

lemma demo_linked: "linked (demo_router_libs P)" "lib_pb (demo_router_libs P) = P"
  by (simp_all add: linked_def demo_router_libs_def)

lemma demo_send:
  "\<exists>task r d. SendTask (demo_router_libs demo_wire) demo_router_inputs ''B'' None ''sk'' ''cx'' demo_router mem_empty []
     = (Inr task, r, d, [(''B'', [0])])"
proof -
  have "InjectTraceContext [] (mk_envelope ''u'' ENVELOPE_TYPE_SEND_TASK 2
      (PSendTask \<lparr>st_TaskId = ''k'', st_ContextId = ''cx'', st_Message = None, st_TargetSkillId = ''sk''\<rparr>)) = demo_task_envelope"
    by (simp add: demo_task_envelope_def)
  then show ?thesis
    by (simp add: SendTask_def CreateTask_def send_tracked_def demo_router_libs_def demo_router_inputs_def Let_def)
qed

lemma demo_receive:
  "\<exists>r d. HandleMessage (demo_router_libs demo_wire) demo_router_inputs ''A'' [0] (demo_router, mem_empty, [])
     = (r, d, [(''A'', [1])])"
proof -
  have u: "pb_Unmarshal (lib_pb (demo_router_libs demo_wire)) [0] = Some demo_task_envelope"
    by (simp add: demo_linked)
  have t: "env_Type demo_task_envelope = ENVELOPE_TYPE_SEND_TASK" "EnvelopeId demo_task_envelope = ''u''"
    by (simp_all add: demo_task_envelope_def mk_envelope_def)
  have a: "\<lparr>EnvelopeId = ''u'', env_Type = ENVELOPE_TYPE_ACK, env_Timestamp = Some 4, TraceParent = [], TraceState = [],
      env_Payload = Some (PAck \<lparr>AcknowledgedEnvelopeId = ''u''\<rparr>)\<rparr> = demo_ack_envelope"
    by (simp add: demo_ack_envelope_def mk_envelope_def)
  have "snd (SendAck demo_wire (sendFn (demo_router_libs demo_wire)) (ri_uuid2 demo_router_inputs)
      (ri_clock demo_router_inputs 4) ''A'' ''u'' []) = [(''A'', [1])]"
    using a by (simp add: SendAck_def demo_router_libs_def demo_router_inputs_def Let_def)
  then show ?thesis
    unfolding HandleMessage_admitted [OF u demo_admitted]
    by (auto simp: dispatch_def t demo_linked split: prod.splits)
qed

theorem task_exchange_witness:
  "\<exists>task rA1 dA1 rB1 dB1 rA2 dA2 t.
     SendTask (demo_router_libs demo_wire) demo_router_inputs ''B'' None ''sk'' ''cx'' demo_router mem_empty []
       = (Inr task, rA1, dA1, [(''B'', [0])]) \<and>
     HandleMessage (demo_router_libs demo_wire) demo_router_inputs ''A'' [0] (demo_router, mem_empty, [])
       = (rB1, dB1, [(''A'', [1])]) \<and>
     HandleMessage (demo_router_libs demo_wire) demo_router_inputs ''B'' [1] (rA1, dA1, []) = (rA2, dA2, []) \<and>
     tasks (engine rB1) (task_ID task) = Some t \<and> OriginatorPeerID t = ''A'' \<and> TargetSkillID t = ''sk'' \<and>
     pending (ackTracker rA2) ''u'' = None"
proof -
  obtain task rA1 dA1 where s: "SendTask (demo_router_libs demo_wire) demo_router_inputs ''B'' None ''sk'' ''cx''
      demo_router mem_empty [] = (Inr task, rA1, dA1, [(''B'', [0])])" using demo_send by blast
  obtain rB1 dB1 where b: "HandleMessage (demo_router_libs demo_wire) demo_router_inputs ''A'' [0]
      (demo_router, mem_empty, []) = (rB1, dB1, [(''A'', [1])])" using demo_receive by blast
  obtain rA2 dA2 o2 where a: "HandleMessage (demo_router_libs demo_wire) demo_router_inputs ''B'' [1] (rA1, dA1, [])
      = (rA2, dA2, o2)" by (metis prod_cases3)
  have "ri_uuid demo_router_inputs \<noteq> []" and u: "ri_uuid2 demo_router_inputs = ''u''"
    by (simp_all add: demo_router_inputs_def)
  note X = task_exchange [OF demo_wire_ok demo_linked [of demo_wire] demo_linked [of demo_wire] this(1) s refl
      demo_wire_simps(3) demo_admitted b refl a]
  then show ?thesis
    using s b a unfolding u by blast
qed

end
