(* ===== verification/Anycast.thy ===== *)
theory Anycast
  imports Prelude "HOL-Library.Multiset"
begin

text \<open>
  Capability-based routing, \<^verbatim>\<open>internal/anycast/\<close>: the route cache, the router with its selection
  strategy, and the discovery providers: a relay registry, several registries, any combination of
  providers, and the DHT.

  A provider is a record of functions on the outside world \<open>'w\<close>. The gRPC client of a registry, the
  DHT, SHA-256 with the CID construction and JSON are arguments. Where the code queries providers
  in parallel goroutines, the order in which the calls take effect is the argument \<open>order\<close>, a
  permutation of the provider indices.
\<close>

section \<open>Endpoints and providers\<close>

record SkillInfo =
  SkillID :: string
  si_Description :: string
  si_Tags :: "string \<rightharpoonup> string"

record AgentEndpoint =
  ep_PeerID :: peer_id
  ep_Skills :: "SkillInfo list"
  AgentName :: string
  ep_Description :: string
  LastSeen :: gotime

record 'w DiscoveryProvider =
  DiscoverBySkill :: "string \<Rightarrow> 'w \<Rightarrow> (string + AgentEndpoint list) \<times> 'w"
  RegisterSkills :: "string \<Rightarrow> SkillInfo list \<Rightarrow> string \<Rightarrow> string \<Rightarrow> 'w \<Rightarrow> string option \<times> 'w"
  UnregisterSkills :: "string \<Rightarrow> string list \<Rightarrow> 'w \<Rightarrow> string option \<times> 'w"
  provider_Close :: "'w \<Rightarrow> string option \<times> 'w"

section \<open>Selection\<close>

definition ErrNoCandidates :: string where
  "ErrNoCandidates = ''no candidate agents available''"

type_synonym 'w strategy = "AgentEndpoint list \<Rightarrow> 'w \<Rightarrow> (string + AgentEndpoint) \<times> 'w"

definition RandomStrategy :: "(nat \<Rightarrow> 'w \<Rightarrow> nat \<times> 'w) \<Rightarrow> 'w strategy" where
  "RandomStrategy IntN candidates w =
     (if length candidates = 0 then (Inl ErrNoCandidates, w)
      else case IntN (length candidates) w of (n, w') \<Rightarrow> (Inr (candidates ! n), w'))"

section \<open>The route cache\<close>

record cacheEntry =
  endpoints :: "AgentEndpoint list"
  expiresAt :: gotime

record RouteCache =
  entries :: "string \<rightharpoonup> cacheEntry"
  cache_ttl :: duration

definition NewRouteCache :: "duration \<Rightarrow> RouteCache" where
  "NewRouteCache t = \<lparr>entries = Map.empty, cache_ttl = t\<rparr>"

text \<open>A nil result and an empty one are not told apart by the caller, which tests the length.\<close>

definition cache_Get :: "gotime \<Rightarrow> string \<Rightarrow> RouteCache \<Rightarrow> AgentEndpoint list" where
  "cache_Get now skill c =
     (case entries c skill of
        None \<Rightarrow> []
      | Some e \<Rightarrow> if now > expiresAt e then [] else endpoints e)"

definition cache_Put :: "gotime \<Rightarrow> string \<Rightarrow> AgentEndpoint list \<Rightarrow> RouteCache \<Rightarrow> RouteCache" where
  "cache_Put now skill eps c =
     c\<lparr>entries := (entries c)(skill \<mapsto> \<lparr>endpoints = eps, expiresAt = now + cache_ttl c\<rparr>)\<rparr>"

definition cache_Invalidate :: "string \<Rightarrow> RouteCache \<Rightarrow> RouteCache" where
  "cache_Invalidate skill c = c\<lparr>entries := (entries c)(skill := None)\<rparr>"

definition cache_Clear :: "RouteCache \<Rightarrow> RouteCache" where
  "cache_Clear c = c\<lparr>entries := Map.empty\<rparr>"

section \<open>The router\<close>

record 'w anycast_Router =
  discovery :: "'w DiscoveryProvider"
  strategy :: "'w strategy"
  cache :: RouteCache

datatype anycast_error =
    DiscoverFailed string string
  | NoAgents string
  | SelectFailed string string

definition anycast_NewRouter ::
  "(nat \<Rightarrow> 'w \<Rightarrow> nat \<times> 'w) \<Rightarrow> 'w DiscoveryProvider \<Rightarrow> 'w strategy option \<Rightarrow> duration \<Rightarrow> 'w anycast_Router" where
  "anycast_NewRouter IntN disc strat cacheTTL =
     \<lparr>discovery = disc,
      strategy = (case strat of None \<Rightarrow> RandomStrategy IntN | Some s \<Rightarrow> s),
      cache = NewRouteCache (if cacheTTL = 0 then 30 * Second else cacheTTL)\<rparr>"

definition resolve_query ::
  "gotime \<Rightarrow> string \<Rightarrow> 'w anycast_Router \<Rightarrow> 'w \<Rightarrow> (anycast_error + peer_id) \<times> 'w anycast_Router \<times> 'w" where
  "resolve_query now skill r w =
     (case DiscoverBySkill (discovery r) skill w of
        (Inl err, w1) \<Rightarrow> (Inl (DiscoverFailed skill err), r, w1)
      | (Inr eps, w1) \<Rightarrow>
          if length eps = 0 then (Inl (NoAgents skill), r, w1)
          else
            let r1 = r\<lparr>cache := cache_Put now skill eps (cache r)\<rparr> in
            case strategy r eps w1 of
              (Inl err, w2) \<Rightarrow> (Inl (SelectFailed skill err), r1, w2)
            | (Inr selected, w2) \<Rightarrow> (Inr (ep_PeerID selected), r1, w2))"

definition Resolve ::
  "gotime \<Rightarrow> gotime \<Rightarrow> string \<Rightarrow> 'w anycast_Router \<Rightarrow> 'w \<Rightarrow> (anycast_error + peer_id) \<times> 'w anycast_Router \<times> 'w" where
  "Resolve now1 now2 skill r w =
     (let eps = cache_Get now1 skill (cache r) in
      if length eps > 0 then
        (case strategy r eps w of
           (Inr selected, w1) \<Rightarrow> (Inr (ep_PeerID selected), r, w1)
         | (Inl err, w1) \<Rightarrow> resolve_query now2 skill r w1)
      else resolve_query now2 skill r w)"

definition anycast_Discover ::
  "gotime \<Rightarrow> string \<Rightarrow> 'w anycast_Router \<Rightarrow> 'w \<Rightarrow> (anycast_error + AgentEndpoint list) \<times> 'w anycast_Router \<times> 'w" where
  "anycast_Discover now skill r w =
     (case DiscoverBySkill (discovery r) skill w of
        (Inl err, w1) \<Rightarrow> (Inl (DiscoverFailed skill err), r, w1)
      | (Inr eps, w1) \<Rightarrow>
          (Inr eps, if length eps > 0 then r\<lparr>cache := cache_Put now skill eps (cache r)\<rparr> else r, w1))"

definition anycast_RegisterSkills ::
  "string \<Rightarrow> SkillInfo list \<Rightarrow> string \<Rightarrow> string \<Rightarrow> 'w anycast_Router \<Rightarrow> 'w \<Rightarrow> string option \<times> 'w" where
  "anycast_RegisterSkills peerID skills agentName agentDesc r w =
     RegisterSkills (discovery r) peerID skills agentName agentDesc w"

definition anycast_UnregisterSkills ::
  "string \<Rightarrow> string list \<Rightarrow> 'w anycast_Router \<Rightarrow> 'w \<Rightarrow> string option \<times> 'w" where
  "anycast_UnregisterSkills peerID skillIDs r w = UnregisterSkills (discovery r) peerID skillIDs w"

definition InvalidateCache :: "string \<Rightarrow> 'w anycast_Router \<Rightarrow> 'w anycast_Router" where
  "InvalidateCache skill r =
     (if skill = [] then r\<lparr>cache := cache_Clear (cache r)\<rparr>
      else r\<lparr>cache := cache_Invalidate skill (cache r)\<rparr>)"

section \<open>Several providers\<close>

text \<open>The calls in the order in which they take effect, each result kept under its index.\<close>

fun run_parallel :: "(nat \<Rightarrow> 'w \<Rightarrow> 'r \<times> 'w) \<Rightarrow> nat list \<Rightarrow> 'w \<Rightarrow> (nat \<rightharpoonup> 'r) \<times> 'w" where
  "run_parallel call [] w = (Map.empty, w)"
| "run_parallel call (i # rest) w =
     (case call i w of (x, w1) \<Rightarrow>
      case run_parallel call rest w1 of (m, w2) \<Rightarrow> (m(i \<mapsto> x), w2))"

definition results_of :: "nat \<Rightarrow> (nat \<rightharpoonup> 'r) \<Rightarrow> 'r list" where
  "results_of n m = List.map_filter m [0..<n]"

text \<open>The loop over the results: the endpoints not seen before, and the last error.\<close>

fun merge_loop ::
  "(string + AgentEndpoint list) list \<Rightarrow> string list \<Rightarrow> AgentEndpoint list \<Rightarrow> string option \<Rightarrow>
   AgentEndpoint list \<times> string option" where
  "merge_loop [] seen merged lastErr = (merged, lastErr)"
| "merge_loop (Inl err # rs) seen merged lastErr = merge_loop rs seen merged (Some err)"
| "merge_loop (Inr eps # rs) seen merged lastErr =
     (let new = dedup_by ep_PeerID seen eps
      in merge_loop rs (map ep_PeerID new @ seen) (merged @ new) lastErr)"

definition merge_results :: "(string + AgentEndpoint list) list \<Rightarrow> string + AgentEndpoint list" where
  "merge_results rs =
     (case merge_loop rs [] [] None of
        (merged, lastErr) \<Rightarrow>
          if length merged > 0 then Inr merged
          else case lastErr of Some err \<Rightarrow> Inl err | None \<Rightarrow> Inr merged)"

fun first_error :: "string option list \<Rightarrow> string option \<Rightarrow> bool \<Rightarrow> string option" where
  "first_error [] firstErr anyOK = (if anyOK then None else firstErr)"
| "first_error (Some err # rs) firstErr anyOK =
     first_error rs (case firstErr of None \<Rightarrow> Some err | Some e \<Rightarrow> Some e) anyOK"
| "first_error (None # rs) firstErr anyOK = first_error rs firstErr True"

fun call_all :: "('p \<Rightarrow> 'w \<Rightarrow> string option \<times> 'w) \<Rightarrow> 'p list \<Rightarrow> 'w \<Rightarrow> string option list \<times> 'w" where
  "call_all f [] w = ([], w)"
| "call_all f (p # ps) w =
     (case f p w of (e, w1) \<Rightarrow> case call_all f ps w1 of (es, w2) \<Rightarrow> (e # es, w2))"

definition composite_DiscoverBySkill ::
  "nat list \<Rightarrow> 'w DiscoveryProvider list \<Rightarrow> string \<Rightarrow> 'w \<Rightarrow> (string + AgentEndpoint list) \<times> 'w" where
  "composite_DiscoverBySkill order providers skill w =
     (case run_parallel (\<lambda>i. DiscoverBySkill (providers ! i) skill) order w of
        (m, w') \<Rightarrow> (merge_results (results_of (length providers) m), w'))"

definition composite_RegisterSkills ::
  "'w DiscoveryProvider list \<Rightarrow> string \<Rightarrow> SkillInfo list \<Rightarrow> string \<Rightarrow> string \<Rightarrow> 'w \<Rightarrow> string option \<times> 'w" where
  "composite_RegisterSkills providers peerID skills agentName agentDesc w =
     (case call_all (\<lambda>p. RegisterSkills p peerID skills agentName agentDesc) providers w of
        (es, w') \<Rightarrow> (first_error es None False, w'))"

definition composite_UnregisterSkills ::
  "'w DiscoveryProvider list \<Rightarrow> string \<Rightarrow> string list \<Rightarrow> 'w \<Rightarrow> string option \<times> 'w" where
  "composite_UnregisterSkills providers peerID skillIDs w =
     (case call_all (\<lambda>p. UnregisterSkills p peerID skillIDs) providers w of
        (es, w') \<Rightarrow> (first_error es None False, w'))"

fun first_failure :: "string option list \<Rightarrow> string option" where
  "first_failure [] = None"
| "first_failure (Some e # _) = Some e"
| "first_failure (None # es) = first_failure es"

definition composite_Close :: "'w DiscoveryProvider list \<Rightarrow> 'w \<Rightarrow> string option \<times> 'w" where
  "composite_Close providers w =
     (case call_all provider_Close providers w of (es, w') \<Rightarrow> (first_failure es, w'))"

text \<open>The multi-registry provider queries and registers in parallel.\<close>

definition multi_DiscoverBySkill ::
  "nat list \<Rightarrow> 'w DiscoveryProvider list \<Rightarrow> string \<Rightarrow> 'w \<Rightarrow> (string + AgentEndpoint list) \<times> 'w" where
  "multi_DiscoverBySkill order providers skill w =
     (case run_parallel (\<lambda>i. DiscoverBySkill (providers ! i) skill) order w of
        (m, w') \<Rightarrow> (merge_results (results_of (length providers) m), w'))"

definition multi_RegisterSkills ::
  "nat list \<Rightarrow> 'w DiscoveryProvider list \<Rightarrow> string \<Rightarrow> SkillInfo list \<Rightarrow> string \<Rightarrow> string \<Rightarrow> 'w \<Rightarrow> string option \<times> 'w" where
  "multi_RegisterSkills order providers peerID skills agentName agentDesc w =
     (case run_parallel (\<lambda>i. RegisterSkills (providers ! i) peerID skills agentName agentDesc) order w of
        (m, w') \<Rightarrow> (first_error (results_of (length providers) m) None False, w'))"

definition multi_UnregisterSkills ::
  "nat list \<Rightarrow> 'w DiscoveryProvider list \<Rightarrow> string \<Rightarrow> string list \<Rightarrow> 'w \<Rightarrow> string option \<times> 'w" where
  "multi_UnregisterSkills order providers peerID skillIDs w =
     (case run_parallel (\<lambda>i. UnregisterSkills (providers ! i) peerID skillIDs) order w of
        (m, w') \<Rightarrow> (first_error (results_of (length providers) m) None False, w'))"

definition multi_Close :: "'w DiscoveryProvider list \<Rightarrow> 'w \<Rightarrow> string option \<times> 'w" where
  "multi_Close providers w =
     (case call_all provider_Close providers w of (es, w') \<Rightarrow> (first_failure es, w'))"

section \<open>A registry\<close>

text \<open>The generated client of the relay's registry service, as far as it is used.\<close>

record pb_RegistryAgent =
  ra_PeerId :: string
  ra_Skills :: "SkillInfo list"
  ra_AgentName :: string
  ra_AgentDescription :: string
  RegisteredAt :: gotime

record 'w registry_rpc =
  rpc_Discover :: "string \<Rightarrow> bool \<Rightarrow> 'w \<Rightarrow> (string + pb_RegistryAgent list) \<times> 'w"
  rpc_Register :: "string \<Rightarrow> SkillInfo list \<Rightarrow> string \<Rightarrow> string \<Rightarrow> 'w \<Rightarrow> string option \<times> 'w"
  rpc_Unregister :: "string \<Rightarrow> string list \<Rightarrow> 'w \<Rightarrow> string option \<times> 'w"
  rpc_Close :: "'w \<Rightarrow> string option \<times> 'w"

fun registry_endpoints :: "(string \<Rightarrow> peer_id option) \<Rightarrow> pb_RegistryAgent list \<Rightarrow> AgentEndpoint list" where
  "registry_endpoints peer_Decode [] = []"
| "registry_endpoints peer_Decode (agent # agents) =
     (case peer_Decode (ra_PeerId agent) of
        None \<Rightarrow> registry_endpoints peer_Decode agents
      | Some pid \<Rightarrow>
          \<lparr>ep_PeerID = pid, ep_Skills = ra_Skills agent, AgentName = ra_AgentName agent,
           ep_Description = ra_AgentDescription agent, LastSeen = RegisteredAt agent\<rparr>
          # registry_endpoints peer_Decode agents)"

definition registry_DiscoverBySkill ::
  "(string \<Rightarrow> peer_id option) \<Rightarrow> 'w registry_rpc \<Rightarrow> bool \<Rightarrow> string \<Rightarrow> 'w \<Rightarrow> (string + AgentEndpoint list) \<times> 'w" where
  "registry_DiscoverBySkill peer_Decode rpc federated skill w =
     (case rpc_Discover rpc skill federated w of
        (Inl err, w') \<Rightarrow> (Inl err, w')
      | (Inr agents, w') \<Rightarrow> (Inr (registry_endpoints peer_Decode agents), w'))"

text \<open>\<open>RegistryDiscovery\<close>: one registry, not federated.\<close>

definition RegistryDiscovery :: "(string \<Rightarrow> peer_id option) \<Rightarrow> 'w registry_rpc \<Rightarrow> 'w DiscoveryProvider" where
  "RegistryDiscovery peer_Decode rpc =
     \<lparr>DiscoverBySkill = registry_DiscoverBySkill peer_Decode rpc False,
      RegisterSkills = rpc_Register rpc, UnregisterSkills = rpc_Unregister rpc, provider_Close = rpc_Close rpc\<rparr>"

text \<open>\<open>registryClient\<close>: one of several registries, asked for federated results.\<close>

definition registryClient :: "(string \<Rightarrow> peer_id option) \<Rightarrow> 'w registry_rpc \<Rightarrow> 'w DiscoveryProvider" where
  "registryClient peer_Decode rpc =
     \<lparr>DiscoverBySkill = registry_DiscoverBySkill peer_Decode rpc True,
      RegisterSkills = rpc_Register rpc, UnregisterSkills = rpc_Unregister rpc, provider_Close = rpc_Close rpc\<rparr>"

definition NewMultiRegistryDiscovery ::
  "(string \<Rightarrow> peer_id option) \<Rightarrow> (string \<Rightarrow> 'w registry_rpc option) \<Rightarrow> string list \<Rightarrow> string + 'w DiscoveryProvider list" where
  "NewMultiRegistryDiscovery peer_Decode grpc_NewClient addrs =
     (if length addrs = 0 then Inl ''at least one registry address is required''
      else
        let providers = List.map_filter (\<lambda>addr. map_option (registryClient peer_Decode) (grpc_NewClient addr)) addrs
        in if length providers = 0 then Inl ''failed to connect to any registry address'' else Inr providers)"

section \<open>Merging\<close>

definition answered :: "string + 'a list \<Rightarrow> 'a list" where
  "answered x = (case x of Inl _ \<Rightarrow> [] | Inr eps \<Rightarrow> eps)"

lemma merge_loop_eq:
  "fst (merge_loop rs seen merged e) = merged @ dedup_by ep_PeerID seen (concat (map answered rs)) \<and>
   (snd (merge_loop rs seen merged e) = None \<longleftrightarrow> e = None \<and> (\<forall>x\<in>set rs. \<exists>eps. x = Inr eps))"
  by (induction rs seen merged e rule: merge_loop.induct)
    (auto simp: answered_def dedup_by_append Let_def)

lemma merge_results_cases:
  "merge_results rs =
     (let eps = dedup_by ep_PeerID [] (concat (map answered rs)) in
      case snd (merge_loop rs [] [] None) of
        Some err \<Rightarrow> (if eps = [] then Inl err else Inr eps)
      | None \<Rightarrow> Inr eps)"
  using merge_loop_eq [of rs "[]" "[]" None]
  by (auto simp: merge_results_def Let_def split: prod.splits option.splits)

lemma run_parallel_results:
  assumes "\<And>i w. i \<in> set order \<Longrightarrow> fst (call i w) = ans i"
  shows "fst (run_parallel call order w) = (\<lambda>i. if i \<in> set order then Some (ans i) else None)"
  using assms
proof (induction order arbitrary: w)
  case (Cons i order)
  obtain x w1 where c: "call i w = (x, w1)" by fastforce
  with Cons.prems [of i w] have "x = ans i" by simp
  moreover have "fst (run_parallel call order w1) = (\<lambda>i. if i \<in> set order then Some (ans i) else None)"
    using Cons by simp
  ultimately show ?case
    by (auto simp: c fun_eq_iff split: prod.splits)
qed simp

lemma results_of_all:
  "(\<And>i. i < n \<Longrightarrow> m i = Some (ans i)) \<Longrightarrow> results_of n m = map ans [0..<n]"
proof (induction n)
  case (Suc n)
  then show ?case by (simp add: results_of_def map_filter_def)
qed (simp add: results_of_def map_filter_def)

lemma composite_answer:
  assumes "mset order = mset [0..<length providers]"
    and "\<And>i w. i < length providers \<Longrightarrow> fst (DiscoverBySkill (providers ! i) skill w) = ans i"
  shows "fst (composite_DiscoverBySkill order providers skill w) = merge_results (map ans [0..<length providers])"
proof -
  have set: "set order = {0..<length providers}"
    using assms(1) by (metis atLeastLessThan_upt mset_eq_setD)
  have "fst (run_parallel (\<lambda>i. DiscoverBySkill (providers ! i) skill) order w) =
      (\<lambda>i. if i \<in> set order then Some (ans i) else None)"
    using assms(2) set by (intro run_parallel_results) auto
  then show ?thesis
    using set by (auto simp: composite_DiscoverBySkill_def results_of_all split: prod.splits)
qed

text \<open>
  C25. Discovery through several providers at once. Whatever the order in which the parallel queries
  finish, the answer is the same: one endpoint for every peer that some provider reported, taken
  from the first provider that reported it; failed providers are ignored as long as any endpoint
  was found; an error is returned only when no endpoint was found and some provider failed.
\<close>

theorem composite_discovery:
  assumes "mset order = mset [0..<length providers]"
    and "\<And>i w. i < length providers \<Longrightarrow> fst (DiscoverBySkill (providers ! i) skill w) = ans i"
    and "rs = map ans [0..<length providers]"
  shows "case fst (composite_DiscoverBySkill order providers skill w) of
      Inr eps \<Rightarrow> distinct (map ep_PeerID eps) \<and>
        set (map ep_PeerID eps) = (\<Union>x\<in>set rs. ep_PeerID ` set (answered x)) \<and>
        (\<forall>e\<in>set eps. \<exists>us vs. concat (map answered rs) = us @ e # vs \<and> ep_PeerID e \<notin> ep_PeerID ` set us)
    | Inl err \<Rightarrow> (\<forall>x\<in>set rs. answered x = []) \<and> (\<exists>x\<in>set rs. \<exists>e. x = Inl e)"
proof -
  let ?eps = "dedup_by ep_PeerID [] (concat (map answered rs))"
  have ans: "fst (composite_DiscoverBySkill order providers skill w) = merge_results rs"
    using composite_answer [OF assms(1,2)] assms(3) by simp
  have peers: "set (map ep_PeerID ?eps) = (\<Union>x\<in>set rs. ep_PeerID ` set (answered x))"
    using dedup_by_keys [of ep_PeerID "[]" "concat (map answered rs)"] by (simp add: image_UN)
  have dist: "distinct (map ep_PeerID ?eps)"
    by (rule dedup_by_distinct [THEN conjunct1])
  have first: "\<forall>e\<in>set ?eps. \<exists>us vs. concat (map answered rs) = us @ e # vs \<and> ep_PeerID e \<notin> ep_PeerID ` set us"
    by (intro ballI dedup_by_first)
  have none: "\<forall>x\<in>set rs. answered x = []" if "?eps = []"
    using that by (simp add: dedup_by_Nil_iff concat_eq_Nil_conv)
  have failed: "\<exists>x\<in>set rs. \<exists>e. x = Inl e" if "snd (merge_loop rs [] [] None) = Some e" for e
    using that merge_loop_eq [of rs "[]" "[]" None] by (metis option.distinct(1) sum.exhaust)
  consider (err) e where "merge_results rs = Inl e" "?eps = []" "snd (merge_loop rs [] [] None) = Some e"
    | (ok) "merge_results rs = Inr ?eps"
    unfolding merge_results_cases Let_def by (cases "snd (merge_loop rs [] [] None)"; cases "?eps = []") auto
  then show ?thesis
  proof cases
    case err
    with none failed show ?thesis by (simp add: ans)
  next
    case ok
    show ?thesis unfolding ans ok sum.case by (intro conjI peers dist first)
  qed
qed

definition demo_endpoint :: "peer_id \<Rightarrow> AgentEndpoint" where
  "demo_endpoint p = \<lparr>ep_PeerID = p, ep_Skills = [], AgentName = ''a'', ep_Description = [], LastSeen = 0\<rparr>"

definition fixed_provider :: "string + AgentEndpoint list \<Rightarrow> 'w DiscoveryProvider" where
  "fixed_provider x = \<lparr>DiscoverBySkill = (\<lambda>_ w. (x, w)), RegisterSkills = (\<lambda>_ _ _ _ w. (None, w)),
     UnregisterSkills = (\<lambda>_ _ w. (None, w)), provider_Close = (\<lambda>w. (None, w))\<rparr>"

theorem composite_discovery_witness:
  "\<exists>eps. fst (composite_DiscoverBySkill [1, 0]
       [fixed_provider (Inr [demo_endpoint ''p'']), fixed_provider (Inl ''down'')] ''s'' ()) = Inr eps \<and>
     set (map ep_PeerID eps) = {''p''}"
proof -
  let ?ps = "[fixed_provider (Inr [demo_endpoint ''p'']), fixed_provider (Inl ''down'')] :: unit DiscoveryProvider list"
  let ?ans = "\<lambda>i. if i = (0 :: nat) then Inr [demo_endpoint ''p''] else Inl ''down''"
  have order: "mset [1, 0] = mset [0..<length ?ps]" by (simp add: upt_rec)
  have ans: "fst (DiscoverBySkill (?ps ! i) ''s'' w) = ?ans i" if "i < length ?ps" for i w
    using that by (auto simp: fixed_provider_def less_Suc_eq)
  have rs: "map ?ans [0..<length ?ps] = [Inr [demo_endpoint ''p''], Inl ''down'']" by (simp add: upt_rec)
  show ?thesis
    using composite_discovery [OF order ans refl, of "()"] unfolding rs
    by (auto simp: answered_def demo_endpoint_def split: sum.splits)
qed

text \<open>
  Registering with several providers succeeds exactly when some provider accepts, every provider is
  asked, and a total failure reports the first provider's error; registering with no provider at all
  reports success.
\<close>

theorem composite_registration:
  assumes "call_all (\<lambda>p. RegisterSkills p peerID skills nm desc) providers w = (es, w')"
  shows "length es = length providers
    \<and> composite_RegisterSkills providers peerID skills nm desc w =
        (if None \<in> set es \<or> es = [] then None else hd es, w')"
proof -
  have len: "length (fst (call_all f ps w)) = length ps"
    for f :: "'a DiscoveryProvider \<Rightarrow> 'a \<Rightarrow> string option \<times> 'a" and ps w
    by (induction ps arbitrary: w) (auto split: prod.splits, metis fst_conv)
  have fe: "first_error es e ok = (if ok \<or> None \<in> set es then None else case e of Some x \<Rightarrow> Some x
      | None \<Rightarrow> if es = [] then None else hd es)" for es e ok
    by (induction es e ok rule: first_error.induct) (auto split: option.splits)
  show ?thesis
    using assms len [of "\<lambda>p. RegisterSkills p peerID skills nm desc" providers w]
    by (auto simp: composite_RegisterSkills_def fe)
qed

theorem composite_registration_witness:
  "composite_RegisterSkills [fixed_provider (Inr [])] ''p'' [] ''n'' ''d'' () = (None, ())"
  using composite_registration [of "''p''" "[]" "''n''" "''d''" "[fixed_provider (Inr [])]" "()" "[None]" "()"]
  by (simp add: fixed_provider_def)

section \<open>Routing\<close>

text \<open>What the router relies on: a strategy picks one of the candidates it is given.\<close>

locale routing_strategy =
  fixes Select :: "'w strategy"
  assumes picks: "Select cands w = (Inr e, w') \<Longrightarrow> e \<in> set cands"
    and decides: "cands \<noteq> [] \<Longrightarrow> \<exists>e w'. Select cands w = (Inr e, w')"

text \<open>What the random strategy relies on: \<open>rand.IntN(n)\<close> is below \<open>n\<close>.\<close>

locale random_source =
  fixes IntN :: "nat \<Rightarrow> 'w \<Rightarrow> nat \<times> 'w"
  assumes in_range: "0 < n \<Longrightarrow> fst (IntN n w) < n"

sublocale random_source \<subseteq> uniform: routing_strategy "RandomStrategy IntN"
proof (unfold_locales, goal_cases)
  case (1 cands w e w')
  then show ?case
    using in_range [of "length cands" w] by (auto simp: RandomStrategy_def split: if_splits prod.splits)
next
  case (2 cands w)
  then show ?case by (auto simp: RandomStrategy_def split: prod.splits)
qed

text \<open>A counter as a source of choices.\<close>

definition counter_IntN :: "nat \<Rightarrow> nat \<Rightarrow> nat \<times> nat" where
  "counter_IntN n w = (w mod n, Suc w)"

interpretation counter: random_source counter_IntN
  by unfold_locales (simp add: counter_IntN_def)

context routing_strategy
begin

lemma query_peer:
  assumes "strategy r = Select" "resolve_query now skill r w = (Inr p, r', w')"
  shows "\<exists>eps w1. DiscoverBySkill (discovery r) skill w = (Inr eps, w1) \<and> p \<in> ep_PeerID ` set eps \<and>
    cache r' = cache_Put now skill eps (cache r)"
  using assms picks
  by (fastforce simp: resolve_query_def Let_def split: prod.splits sum.splits if_splits)

lemma query_succeeds:
  assumes "strategy r = Select" "DiscoverBySkill (discovery r) skill w = (Inr eps, w1)" "eps \<noteq> []"
  shows "\<exists>p r' w'. resolve_query now skill r w = (Inr p, r', w')"
proof -
  obtain e w2 where "Select eps w1 = (Inr e, w2)" using decides [OF assms(3)] by blast
  with assms show ?thesis by (simp add: resolve_query_def Let_def)
qed

lemma resolve_cached:
  assumes "strategy r = Select" "cache_Get now1 skill (cache r) \<noteq> []"
  shows "\<exists>p w'. Resolve now1 now2 skill r w = (Inr p, r, w') \<and> p \<in> ep_PeerID ` set (cache_Get now1 skill (cache r))"
proof -
  obtain e w2 where s: "Select (cache_Get now1 skill (cache r)) w = (Inr e, w2)" using decides [OF assms(2)] by blast
  with assms picks [OF s] show ?thesis by (auto simp: Resolve_def Let_def)
qed

end

text \<open>
  C26. Skill routing. With an unexpired non-empty cache entry the peer is one of its endpoints, and the
  discovery provider is not asked; otherwise the provider is asked, the answer is cached, and the peer
  is one of the endpoints of that answer. Routing succeeds whenever the cache or the provider has an
  endpoint; an expired entry is never used.
\<close>

theorem Resolve_routes:
  assumes "routing_strategy (strategy r)"
  shows "(case entries (cache r) skill of
       Some e \<Rightarrow> now1 \<le> expiresAt e \<and> endpoints e \<noteq> [] \<longrightarrow>
         (\<exists>p w'. Resolve now1 now2 skill r w = (Inr p, r, w') \<and> p \<in> ep_PeerID ` set (endpoints e))
     | None \<Rightarrow> True)
   \<and> (cache_Get now1 skill (cache r) = [] \<longrightarrow>
       (case fst (DiscoverBySkill (discovery r) skill w) of
          Inl err \<Rightarrow> fst (Resolve now1 now2 skill r w) = Inl (DiscoverFailed skill err)
        | Inr [] \<Rightarrow> fst (Resolve now1 now2 skill r w) = Inl (NoAgents skill)
        | Inr eps \<Rightarrow> (\<exists>p r' w'. Resolve now1 now2 skill r w = (Inr p, r', w') \<and> p \<in> ep_PeerID ` set eps \<and>
            cache r' = cache_Put now2 skill eps (cache r))))"
proof (intro conjI impI)
  show "case entries (cache r) skill of
       Some e \<Rightarrow> now1 \<le> expiresAt e \<and> endpoints e \<noteq> [] \<longrightarrow>
         (\<exists>p w'. Resolve now1 now2 skill r w = (Inr p, r, w') \<and> p \<in> ep_PeerID ` set (endpoints e))
     | None \<Rightarrow> True"
    using routing_strategy.resolve_cached [OF assms refl, of now1 skill now2 w]
    by (auto simp: cache_Get_def split: option.splits)
next
  assume empty: "cache_Get now1 skill (cache r) = []"
  obtain ans w1 where d: "DiscoverBySkill (discovery r) skill w = (ans, w1)" by fastforce
  have res: "Resolve now1 now2 skill r w = resolve_query now2 skill r w"
    using empty by (simp add: Resolve_def)
  show "case fst (DiscoverBySkill (discovery r) skill w) of
          Inl err \<Rightarrow> fst (Resolve now1 now2 skill r w) = Inl (DiscoverFailed skill err)
        | Inr [] \<Rightarrow> fst (Resolve now1 now2 skill r w) = Inl (NoAgents skill)
        | Inr eps \<Rightarrow> (\<exists>p r' w'. Resolve now1 now2 skill r w = (Inr p, r', w') \<and> p \<in> ep_PeerID ` set eps \<and>
            cache r' = cache_Put now2 skill eps (cache r))"
  proof (cases ans)
    case (Inr eps)
    show ?thesis
    proof (cases eps)
      case (Cons e es)
      with Inr d obtain p r' w' where q: "resolve_query now2 skill r w = (Inr p, r', w')"
        using routing_strategy.query_succeeds [OF assms refl] by (metis list.distinct(1))
      from routing_strategy.query_peer [OF assms refl q] d Inr Cons res q show ?thesis by auto
    qed (use d Inr res in \<open>simp add: resolve_query_def\<close>)
  qed (use d res in \<open>simp add: resolve_query_def\<close>)
qed

theorem Resolve_routes_witness:
  "\<exists>p r' w'. Resolve 0 0 ''s'' (anycast_NewRouter counter_IntN (fixed_provider (Inr [demo_endpoint ''p''])) None 0) 5
     = (Inr p, r', w') \<and> p = ''p''"
proof -
  let ?r = "anycast_NewRouter counter_IntN (fixed_provider (Inr [demo_endpoint ''p''])) None 0"
  have s: "routing_strategy (strategy ?r)"
    using counter.uniform.routing_strategy_axioms by (simp add: anycast_NewRouter_def)
  have "cache_Get 0 ''s'' (cache ?r) = []" "DiscoverBySkill (discovery ?r) ''s'' (5 :: nat) = (Inr [demo_endpoint ''p''], 5)"
    by (simp_all add: anycast_NewRouter_def cache_Get_def NewRouteCache_def fixed_provider_def)
  then show ?thesis
    using Resolve_routes [OF s, where skill = "''s''" and ?now1.0 = 0 and ?now2.0 = 0 and w = 5] by (auto simp: demo_endpoint_def)
qed

section \<open>Providers and the cache\<close>

text \<open>What the router's cache relies on: an answer lists no peer twice.\<close>

locale discovery_provider =
  fixes prov :: "'w DiscoveryProvider"
  assumes once: "DiscoverBySkill prov skill w = (Inr eps, w') \<Longrightarrow> distinct (map ep_PeerID eps)"

definition cache_ok :: "RouteCache \<Rightarrow> bool" where
  "cache_ok c \<longleftrightarrow> (\<forall>skill e. entries c skill = Some e \<longrightarrow> endpoints e \<noteq> [] \<and> distinct (map ep_PeerID (endpoints e)))"

lemma cache_ok_Put: "cache_ok c \<Longrightarrow> eps \<noteq> [] \<Longrightarrow> distinct (map ep_PeerID eps) \<Longrightarrow> cache_ok (cache_Put now skill eps c)"
  by (auto simp: cache_ok_def cache_Put_def)

context discovery_provider
begin

lemma resolve_query_cache_ok:
  assumes "discovery r = prov" "cache_ok (cache r)"
  shows "cache_ok (cache (fst (snd (resolve_query now skill r w))))"
  using assms once
  by (auto simp: resolve_query_def Let_def intro!: cache_ok_Put split: sum.splits prod.splits)

lemma Resolve_cache_ok:
  assumes "discovery r = prov" "cache_ok (cache r)"
  shows "cache_ok (cache (fst (snd (Resolve now1 now2 skill r w))))"
  using assms resolve_query_cache_ok [OF assms]
  by (auto simp: Resolve_def Let_def split: sum.splits prod.splits)

lemma Discover_cache_ok:
  assumes "discovery r = prov" "cache_ok (cache r)"
  shows "cache_ok (cache (fst (snd (anycast_Discover now skill r w))))"
  using assms once
  by (auto simp: anycast_Discover_def intro!: cache_ok_Put split: sum.splits prod.splits)

end

definition CompositeDiscovery :: "nat list \<Rightarrow> 'w DiscoveryProvider list \<Rightarrow> 'w DiscoveryProvider" where
  "CompositeDiscovery order providers =
     \<lparr>DiscoverBySkill = composite_DiscoverBySkill order providers,
      RegisterSkills = composite_RegisterSkills providers,
      UnregisterSkills = composite_UnregisterSkills providers, provider_Close = composite_Close providers\<rparr>"

lemma merge_results_once: "merge_results rs = Inr eps \<Longrightarrow> distinct (map ep_PeerID eps)"
  using dedup_by_distinct [of ep_PeerID "[]" "concat (map answered rs)"]
  by (auto simp: merge_results_cases Let_def split: option.splits if_splits)

interpretation composite: discovery_provider "CompositeDiscovery order providers" for order providers
  by unfold_locales
    (auto simp: CompositeDiscovery_def composite_DiscoverBySkill_def merge_results_once split: prod.splits)

text \<open>
  The cache of a router over a composite provider never holds an empty answer or a peer twice,
  whatever is resolved, discovered and invalidated.
\<close>

theorem cache_invariant:
  assumes "discovery r = CompositeDiscovery order providers" "cache_ok (cache r)"
  shows "cache_ok (cache (fst (snd (Resolve now1 now2 skill r w))))
    \<and> cache_ok (cache (fst (snd (anycast_Discover now skill r w))))
    \<and> cache_ok (cache (InvalidateCache skill r)) \<and> cache_ok (cache (anycast_NewRouter IntN disc strat ttl))"
  using composite.Resolve_cache_ok [OF assms] composite.Discover_cache_ok [OF assms] assms(2)
  by (auto simp: InvalidateCache_def cache_Clear_def cache_Invalidate_def cache_ok_def anycast_NewRouter_def NewRouteCache_def)

end
