(* ===== verification/Dht.thy ===== *)
theory Dht
  imports Anycast
begin

text \<open>
  Discovery through the Kademlia DHT, \<^verbatim>\<open>internal/anycast/dht_discovery.go\<close>. The DHT itself is an
  argument, the record \<open>dht_ops\<close> of the four calls that are used; so are the content identifier of a
  string (SHA-256, multihash and CID) and the JSON coding of the metadata. Timeouts are left to the
  DHT's answers.
\<close>

type_synonym cid = bytes

record 'w dht_ops =
  dht_Provide :: "cid \<Rightarrow> 'w \<Rightarrow> string option \<times> 'w"
  dht_PutValue :: "string \<Rightarrow> bytes \<Rightarrow> 'w \<Rightarrow> string option \<times> 'w"
  dht_GetValue :: "string \<Rightarrow> 'w \<Rightarrow> bytes option \<times> 'w"
  dht_FindProviders :: "cid \<Rightarrow> nat \<Rightarrow> 'w \<Rightarrow> peer_id list \<times> 'w"

record skillMetadata =
  sm_PeerID :: string
  sm_SkillID :: string
  sm_Description :: string
  sm_Tags :: "string \<rightharpoonup> string"
  sm_AgentName :: string
  sm_AgentDesc :: string
  sm_Timestamp :: int

record agentMeta =
  agentName :: string
  agentDesc :: string

record 'w dht_libs =
  dht :: "'w dht_ops"
  cid_of :: "string \<Rightarrow> cid"
  meta_Marshal :: "skillMetadata \<Rightarrow> bytes option"
  meta_Unmarshal :: "bytes \<Rightarrow> skillMetadata option"

record DHTDiscovery =
  host_ID :: peer_id
  localSkills :: "string \<rightharpoonup> SkillInfo list"
  localMeta :: "string \<rightharpoonup> agentMeta"

definition dhtMaxProviders :: nat where
  "dhtMaxProviders = 20"

definition NewDHTDiscovery :: "peer_id \<Rightarrow> DHTDiscovery" where
  "NewDHTDiscovery h = \<lparr>host_ID = h, localSkills = Map.empty, localMeta = Map.empty\<rparr>"

definition skillCID :: "(string \<Rightarrow> cid) \<Rightarrow> string \<Rightarrow> cid" where
  "skillCID cid_of_string skill = cid_of_string (''agentanycast/skill/'' @ skill)"

definition metaKey :: "string \<Rightarrow> string \<Rightarrow> string" where
  "metaKey peerID skill = ''/agentanycast/meta/'' @ peerID @ ''/'' @ skill"

text \<open>One provider record: the endpoint with the metadata that the value store has for it.\<close>

definition dht_endpoint ::
  "'w dht_libs \<Rightarrow> (peer_id \<Rightarrow> gotime) \<Rightarrow> string \<Rightarrow> peer_id \<Rightarrow> 'w \<Rightarrow> AgentEndpoint \<times> 'w" where
  "dht_endpoint L clock skill pid w =
     (let ep = \<lparr>ep_PeerID = pid, ep_Skills = [], AgentName = [], ep_Description = [], LastSeen = clock pid\<rparr>;
          (val, w') = dht_GetValue (dht L) (metaKey pid skill) w;
          ep = (case val of
                  None \<Rightarrow> ep
                | Some v \<Rightarrow> (case meta_Unmarshal L v of
                    None \<Rightarrow> ep
                  | Some m \<Rightarrow> ep\<lparr>AgentName := sm_AgentName m, ep_Description := sm_AgentDesc m,
                        ep_Skills := [\<lparr>SkillID = sm_SkillID m, si_Description = sm_Description m,
                                       si_Tags = sm_Tags m\<rparr>]\<rparr>));
          ep = (if length (ep_Skills ep) = 0
                then ep\<lparr>ep_Skills := [\<lparr>SkillID = skill, si_Description = [], si_Tags = Map.empty\<rparr>]\<rparr> else ep)
      in (ep, w'))"

fun dht_collect ::
  "'w dht_libs \<Rightarrow> (peer_id \<Rightarrow> gotime) \<Rightarrow> peer_id \<Rightarrow> string \<Rightarrow> peer_id list \<Rightarrow> peer_id list \<Rightarrow> 'w \<Rightarrow>
   AgentEndpoint list \<times> 'w" where
  "dht_collect L clock self skill seen [] w = ([], w)"
| "dht_collect L clock self skill seen (pid # provs) w =
     (if pid = self \<or> pid \<in> set seen then dht_collect L clock self skill seen provs w
      else case dht_endpoint L clock skill pid w of (ep, w1) \<Rightarrow>
        (case dht_collect L clock self skill (pid # seen) provs w1 of (eps, w2) \<Rightarrow> (ep # eps, w2)))"

definition dht_DiscoverBySkill ::
  "'w dht_libs \<Rightarrow> (peer_id \<Rightarrow> gotime) \<Rightarrow> DHTDiscovery \<Rightarrow> string \<Rightarrow> 'w \<Rightarrow> (string + AgentEndpoint list) \<times> 'w" where
  "dht_DiscoverBySkill L clock d skill w =
     (case dht_FindProviders (dht L) (skillCID (cid_of L) skill) dhtMaxProviders w of
        (provs, w1) \<Rightarrow> (case dht_collect L clock (host_ID d) skill [] provs w1 of
          (eps, w2) \<Rightarrow> (Inr eps, w2)))"

definition metadata_for :: "gotime \<Rightarrow> string \<Rightarrow> SkillInfo \<Rightarrow> string \<Rightarrow> string \<Rightarrow> skillMetadata" where
  "metadata_for now peerID skill nm desc =
     \<lparr>sm_PeerID = peerID, sm_SkillID = SkillID skill, sm_Description = si_Description skill,
      sm_Tags = si_Tags skill, sm_AgentName = nm, sm_AgentDesc = desc, sm_Timestamp = unix_of now\<rparr>"

definition put_metadata :: "'w dht_libs \<Rightarrow> gotime \<Rightarrow> string \<Rightarrow> SkillInfo \<Rightarrow> string \<Rightarrow> string \<Rightarrow> 'w \<Rightarrow> 'w" where
  "put_metadata L now peerID skill nm desc w =
     (case meta_Marshal L (metadata_for now peerID skill nm desc) of
        None \<Rightarrow> w
      | Some val \<Rightarrow> snd (dht_PutValue (dht L) (metaKey peerID (SkillID skill)) val w))"

fun provide_all ::
  "'w dht_libs \<Rightarrow> gotime \<Rightarrow> string \<Rightarrow> string \<Rightarrow> string \<Rightarrow> SkillInfo list \<Rightarrow> 'w \<Rightarrow> string option \<times> 'w" where
  "provide_all L now peerID nm desc [] w = (None, w)"
| "provide_all L now peerID nm desc (skill # skills) w =
     (case dht_Provide (dht L) (skillCID (cid_of L) (SkillID skill)) w of
        (Some err, w1) \<Rightarrow> (Some err, w1)
      | (None, w1) \<Rightarrow> provide_all L now peerID nm desc skills (put_metadata L now peerID skill nm desc w1))"

definition dht_RegisterSkills ::
  "'w dht_libs \<Rightarrow> gotime \<Rightarrow> string \<Rightarrow> SkillInfo list \<Rightarrow> string \<Rightarrow> string \<Rightarrow> DHTDiscovery \<Rightarrow> 'w \<Rightarrow>
   string option \<times> DHTDiscovery \<times> 'w" where
  "dht_RegisterSkills L now peerID skills nm desc d w =
     (let d' = d\<lparr>localSkills := (localSkills d)(peerID \<mapsto> skills),
                 localMeta := (localMeta d)(peerID \<mapsto> \<lparr>agentName = nm, agentDesc = desc\<rparr>)\<rparr>
      in case provide_all L now peerID nm desc skills w of (err, w') \<Rightarrow> (err, d', w'))"

definition dht_UnregisterSkills :: "string \<Rightarrow> string list \<Rightarrow> DHTDiscovery \<Rightarrow> DHTDiscovery" where
  "dht_UnregisterSkills peerID skillIDs d =
     (if length skillIDs = 0 then d\<lparr>localSkills := (localSkills d)(peerID := None)\<rparr>
      else
        let existing = (case localSkills d peerID of None \<Rightarrow> [] | Some ss \<Rightarrow> ss)
        in d\<lparr>localSkills := (localSkills d)(peerID \<mapsto> filter (\<lambda>s. SkillID s \<notin> set skillIDs) existing)\<rparr>)"

text \<open>One tick of the re-provide loop; \<open>order\<close> is the iteration order of the map.\<close>

fun reprovide_skills ::
  "'w dht_libs \<Rightarrow> gotime \<Rightarrow> string \<Rightarrow> agentMeta \<Rightarrow> SkillInfo list \<Rightarrow> 'w \<Rightarrow> 'w" where
  "reprovide_skills L now peerID m [] w = w"
| "reprovide_skills L now peerID m (skill # skills) w =
     reprovide_skills L now peerID m skills
       (case dht_Provide (dht L) (skillCID (cid_of L) (SkillID skill)) w of
          (Some err, w1) \<Rightarrow> w1
        | (None, w1) \<Rightarrow> put_metadata L now peerID skill (agentName m) (agentDesc m) w1)"

fun reprovide_tick ::
  "'w dht_libs \<Rightarrow> gotime \<Rightarrow> DHTDiscovery \<Rightarrow> string list \<Rightarrow> 'w \<Rightarrow> 'w" where
  "reprovide_tick L now d [] w = w"
| "reprovide_tick L now d (peerID # order) w =
     reprovide_tick L now d order
       (case localSkills d peerID of
          None \<Rightarrow> w
        | Some skills \<Rightarrow>
            reprovide_skills L now peerID
              (case localMeta d peerID of None \<Rightarrow> \<lparr>agentName = [], agentDesc = []\<rparr> | Some m \<Rightarrow> m) skills w)"

section \<open>Discovery\<close>

lemma dht_endpoint_peer:
  "ep_PeerID (fst (dht_endpoint L clock skill pid w)) = pid \<and> ep_Skills (fst (dht_endpoint L clock skill pid w)) \<noteq> []"
  by (auto simp: dht_endpoint_def Let_def split: prod.splits option.splits)

lemma dht_collect_peers:
  "map ep_PeerID (fst (dht_collect L clock self skill seen provs w)) =
     dedup_by (\<lambda>p. p) seen (filter (\<lambda>p. p \<noteq> self) provs) \<and>
   (\<forall>e\<in>set (fst (dht_collect L clock self skill seen provs w)). ep_Skills e \<noteq> [])"
proof (induction provs arbitrary: seen w)
  case (Cons pid provs)
  have "ep_PeerID e = pid \<and> ep_Skills e \<noteq> []" if "dht_endpoint L clock skill pid w = (e, w1)" for e w1
    using dht_endpoint_peer [of L clock skill pid w] that by simp
  moreover have "map ep_PeerID es = dedup_by (\<lambda>p. p) (pid # seen) (filter (\<lambda>p. p \<noteq> self) provs) \<and> (\<forall>e\<in>set es. ep_Skills e \<noteq> [])"
    if "dht_collect L clock self skill (pid # seen) provs w1 = (es, w2)" for w1 es w2
    using Cons [of "pid # seen" w1] that by simp
  ultimately show ?case
    using Cons [of seen w] by (auto split: prod.splits)
qed simp

text \<open>
  DHT discovery answers with the peers that the DHT lists for the skill, each once, in the DHT's
  order, never the node itself, and every one with at least one skill; a missing or unreadable
  metadata record does not lose a peer.
\<close>

theorem dht_discovery:
  assumes "dht_FindProviders (dht L) (skillCID (cid_of L) skill) dhtMaxProviders w = (provs, w1)"
  shows "\<exists>eps w'. dht_DiscoverBySkill L clock d skill w = (Inr eps, w') \<and>
    map ep_PeerID eps = dedup_by (\<lambda>p. p) [] (filter (\<lambda>p. p \<noteq> host_ID d) provs) \<and>
    distinct (map ep_PeerID eps) \<and> set (map ep_PeerID eps) = set provs - {host_ID d} \<and>
    (\<forall>e\<in>set eps. ep_Skills e \<noteq> [])"
proof -
  obtain eps w2 where c: "dht_collect L clock (host_ID d) skill [] provs w1 = (eps, w2)" by fastforce
  have p: "map ep_PeerID eps = dedup_by (\<lambda>p. p) [] (filter (\<lambda>p. p \<noteq> host_ID d) provs)" "\<forall>e\<in>set eps. ep_Skills e \<noteq> []"
    using dht_collect_peers [of L clock "host_ID d" skill "[]" provs w1] c by simp_all
  have "distinct (dedup_by (\<lambda>p. p) [] ps)" and "set (dedup_by (\<lambda>p. p) [] ps) = set ps" for ps :: "peer_id list"
    using dedup_by_distinct [of "\<lambda>p. p" "[]" ps] dedup_by_keys [of "\<lambda>p. p" "[]" ps] by simp_all
  then have q: "distinct (map ep_PeerID eps)" "set (map ep_PeerID eps) = set provs - {host_ID d}"
    by (auto simp only: p(1) set_filter)
  have "dht_DiscoverBySkill L clock d skill w = (Inr eps, w2)"
    using assms c by (simp add: dht_DiscoverBySkill_def)
  with p q show ?thesis by (intro exI conjI)
qed

text \<open>The announcements of a list of skills, whatever the DHT answers to them.\<close>

definition announce_libs :: "(string \<Rightarrow> cid) \<Rightarrow> (cid \<Rightarrow> bool) \<Rightarrow> cid list dht_libs" where
  "announce_libs c fails =
     \<lparr>dht = \<lparr>dht_Provide = (\<lambda>k w. (if fails k then Some ''unreachable'' else None, w @ [k])),
             dht_PutValue = (\<lambda>_ _ w. (None, w)), dht_GetValue = (\<lambda>_ w. (None, w)),
             dht_FindProviders = (\<lambda>_ _ w. ([''q'', ''self'', ''q''], w))\<rparr>,
      cid_of = c, meta_Marshal = (\<lambda>_. Some []), meta_Unmarshal = (\<lambda>_. None)\<rparr>"

theorem dht_discovery_witness:
  "\<exists>eps w'. dht_DiscoverBySkill (announce_libs (\<lambda>_. []) (\<lambda>_. False)) (\<lambda>_. 0) (NewDHTDiscovery ''self'') ''s'' []
     = (Inr eps, w') \<and> map ep_PeerID eps = [''q'']"
proof -
  let ?L = "announce_libs (\<lambda>_. []) (\<lambda>_. False)"
  have "dht_FindProviders (dht ?L) (skillCID (cid_of ?L) ''s'') dhtMaxProviders [] = ([''q'', ''self'', ''q''], [])"
    by (simp add: announce_libs_def)
  from dht_discovery [OF this, of "\<lambda>_. 0" "NewDHTDiscovery ''self''"]
  obtain eps w' where "dht_DiscoverBySkill ?L (\<lambda>_. 0) (NewDHTDiscovery ''self'') ''s'' [] = (Inr eps, w')"
    and "map ep_PeerID eps = dedup_by (\<lambda>p. p) [] (filter (\<lambda>p. p \<noteq> host_ID (NewDHTDiscovery ''self'')) [''q'', ''self'', ''q''])"
    by blast
  then show ?thesis by (simp add: NewDHTDiscovery_def)
qed

lemma put_metadata_announce [simp]: "put_metadata (announce_libs c fails) now p s nm desc w = w"
  by (simp add: put_metadata_def announce_libs_def)

lemma reprovide_skills_announces:
  "reprovide_skills (announce_libs c fails) now p m skills w = w @ map (\<lambda>s. skillCID c (SkillID s)) skills"
  by (induction skills arbitrary: w) (auto simp: announce_libs_def put_metadata_def)

lemma reprovide_tick_announces:
  "reprovide_tick (announce_libs c fails) now d order w =
     w @ concat (map (\<lambda>p. map (\<lambda>s. skillCID c (SkillID s)) (case localSkills d p of None \<Rightarrow> [] | Some ss \<Rightarrow> ss)) order)"
  by (induction order arbitrary: w) (auto simp: reprovide_skills_announces split: option.splits)

text \<open>
  The periodic announcement covers exactly what is registered: after skills are unregistered, the
  next tick of the loop announces, for every peer, the remaining skills and no other, whatever the DHT
  answers; unregistering without naming skills removes them all.
\<close>

theorem reprovide_after_unregister:
  assumes "localSkills d p = Some skills"
  shows "reprovide_tick (announce_libs c fails) now (dht_UnregisterSkills p ids d) [p] [] =
      map (\<lambda>s. skillCID c (SkillID s)) (filter (\<lambda>s. ids \<noteq> [] \<and> SkillID s \<notin> set ids) skills)
    \<and> (\<forall>q. q \<noteq> p \<longrightarrow> localSkills (dht_UnregisterSkills p ids d) q = localSkills d q)"
  using assms by (simp add: reprovide_skills_announces dht_UnregisterSkills_def Let_def)

theorem reprovide_after_unregister_witness:
  "reprovide_tick (announce_libs (\<lambda>_. []) (\<lambda>_. True)) 0
     (dht_UnregisterSkills ''p'' [''a''] \<lparr>host_ID = ''p'', localSkills = [''p'' \<mapsto>
        [\<lparr>SkillID = ''a'', si_Description = [], si_Tags = Map.empty\<rparr>, \<lparr>SkillID = ''b'', si_Description = [], si_Tags = Map.empty\<rparr>]],
        localMeta = Map.empty\<rparr>) [''p''] [] = [skillCID (\<lambda>_. []) ''b'']"
  (is "reprovide_tick _ _ (dht_UnregisterSkills _ _ ?d) _ _ = _")
proof -
  let ?skills = "[\<lparr>SkillID = ''a'', si_Description = [], si_Tags = Map.empty\<rparr>, \<lparr>SkillID = ''b'', si_Description = [], si_Tags = Map.empty\<rparr>]"
  have "localSkills ?d ''p'' = Some ?skills" by simp
  from reprovide_after_unregister [OF this, of "\<lambda>_. []" "\<lambda>_. True" 0 "[''a'']"] show ?thesis by simp
qed

section \<open>The DHT as a provider\<close>

text \<open>The provider's own tables are part of the world it acts on. \<open>Close\<close>: the loop has ended within ten seconds of the cancellation, or not.\<close>

definition dht_Close :: "bool \<Rightarrow> string option" where
  "dht_Close ended = (if ended then None else Some ''DHT discovery shutdown timed out'')"

definition DHTProvider ::
  "'w dht_libs \<Rightarrow> (peer_id \<Rightarrow> gotime) \<Rightarrow> gotime \<Rightarrow> bool \<Rightarrow> (DHTDiscovery \<times> 'w) DiscoveryProvider" where
  "DHTProvider L clock now ended =
     \<lparr>DiscoverBySkill = (\<lambda>skill (d, w). case dht_DiscoverBySkill L clock d skill w of (x, w') \<Rightarrow> (x, (d, w'))),
      RegisterSkills = (\<lambda>peerID skills nm desc (d, w). dht_RegisterSkills L now peerID skills nm desc d w),
      UnregisterSkills = (\<lambda>peerID ids (d, w). (None, (dht_UnregisterSkills peerID ids d, w))),
      provider_Close = (\<lambda>s. (dht_Close ended, s))\<rparr>"

lemma dht_once:
  assumes "dht_DiscoverBySkill L clock d skill w = (Inr eps, w')"
  shows "distinct (map ep_PeerID eps)"
proof -
  obtain provs w1 where "eps = fst (dht_collect L clock (host_ID d) skill [] provs w1)"
    using assms by (auto simp: dht_DiscoverBySkill_def split: prod.splits) (metis fst_conv)
  then have "map ep_PeerID eps = dedup_by (\<lambda>p. p) [] (filter (\<lambda>p. p \<noteq> host_ID d) provs)"
    using dht_collect_peers [of L clock "host_ID d" skill "[]" provs w1] by simp
  then show ?thesis
    using dedup_by_distinct [of "\<lambda>p. p" "[]" "filter (\<lambda>p. p \<noteq> host_ID d) provs"] by simp
qed

interpretation dht_prov: discovery_provider "DHTProvider L clock now ended" for L clock now ended
  by unfold_locales (auto simp: DHTProvider_def dht_once split: prod.splits)

section \<open>Unregistering in place\<close>

text \<open>
  \<open>UnregisterSkills\<close> filters into \<open>existing[:0]\<close>, the same array. \<open>filter_in_place keep a i n j\<close> is its loop on the
  array \<open>a\<close>, with \<open>i\<close> the element that is read next, \<open>n\<close> the length of the slice and \<open>j\<close> the length of what
  has been kept; it yields the length of the result and the array.
\<close>

function filter_in_place :: "('a \<Rightarrow> bool) \<Rightarrow> 'a list \<Rightarrow> nat \<Rightarrow> nat \<Rightarrow> nat \<Rightarrow> nat \<times> 'a list" where
  "filter_in_place keep a i n j =
     (if i < n then
        if keep (a ! i) then filter_in_place keep (a[j := a ! i]) (Suc i) n (Suc j)
        else filter_in_place keep a (Suc i) n j
      else (j, a))"
  by pat_completeness auto
termination by (relation "measure (\<lambda>(keep, a, i, n, j). n - i)") auto

declare filter_in_place.simps [simp del]

lemma filter_in_place_spec:
  assumes "j \<le> i" and "i \<le> n" and "n \<le> length a" and "filter_in_place keep a i n j = (m, b)"
  shows "take m b = take j a @ filter keep (take (n - i) (drop i a)) \<and> length b = length a
    \<and> m = j + length (filter keep (take (n - i) (drop i a))) \<and> drop m b = drop m a"
  using assms
proof (induction keep a i n j arbitrary: m b rule: filter_in_place.induct)
  case (1 keep a i n j)
  show ?case
  proof (cases "i < n")
    case False
    then have "m = j \<and> b = a" using "1.prems"(4) filter_in_place.simps [of keep a i n j] by simp
    then show ?thesis using False by simp
  next
    case True
    with "1.prems" have len: "i < length a" by simp
    have head: "take (n - i) (drop i a) = a ! i # take (n - Suc i) (drop (Suc i) a)"
      using True len by (metis Cons_nth_drop_Suc Suc_diff_Suc take_Suc_Cons)
    show ?thesis
    proof (cases "keep (a ! i)")
      case k: True
      let ?a = "a[j := a ! i]"
      have e: "filter_in_place keep ?a (Suc i) n (Suc j) = (m, b)"
        using "1.prems" True k by (simp add: filter_in_place.simps [of keep a i n j])
      have le: "Suc j \<le> Suc i" "Suc i \<le> n" "n \<le> length ?a" using "1.prems"(1,3) True by simp_all
      note IH = "1.IH"(1) [OF True k le e]
      have "take (Suc j) ?a = take j a @ [a ! i]" using "1.prems"(1) len by (simp add: take_Suc_conv_app_nth)
      moreover have "drop (Suc i) ?a = drop (Suc i) a" using "1.prems"(1) by simp
      moreover have "drop m ?a = drop m a" using IH by simp
      ultimately show ?thesis using IH k by (auto simp: head)
    next
      case k: False
      have e: "filter_in_place keep a (Suc i) n j = (m, b)"
        using "1.prems" True k by (simp add: filter_in_place.simps [of keep a i n j])
      have le: "j \<le> Suc i" "Suc i \<le> n" using "1.prems"(1) True by simp_all
      show ?thesis using "1.IH"(2) [OF True k le "1.prems"(3) e] k by (auto simp: head)
    qed
  qed
qed

text \<open>
  The loop in place computes what \<open>dht_UnregisterSkills\<close> stores, the skills that are not removed, in their
  order. The caller of \<open>RegisterSkills\<close>, whose slice is this array, then sees the kept skills moved to the
  front and, behind them, what stood there before: some of its skills twice, and removed ones gone.
\<close>

theorem unregister_in_place:
  assumes "localSkills d peerID = Some skills" and "ids \<noteq> []"
    and "filter_in_place (\<lambda>s. SkillID s \<notin> set ids) skills 0 (length skills) 0 = (m, arr)"
  shows "localSkills (dht_UnregisterSkills peerID ids d) peerID = Some (take m arr)
    \<and> take (length skills) arr = filter (\<lambda>s. SkillID s \<notin> set ids) skills @ drop m skills"
proof -
  have "take m arr = filter (\<lambda>s. SkillID s \<notin> set ids) skills \<and> length arr = length skills \<and> drop m arr = drop m skills"
    using filter_in_place_spec [of 0 0 "length skills" skills, OF _ _ _ assms(3)] by auto
  then show ?thesis using assms(1,2) append_take_drop_id [of m arr] by (simp add: dht_UnregisterSkills_def Let_def)
qed

end
