(* ===== verification/Host.thy ===== *)
theory Host
  imports Store
begin

text \<open>
  The libp2p host's own logic, \<^verbatim>\<open>internal/node/\<close>: the framing of messages on a stream with the
  loop that reads an A2A stream (\<^verbatim>\<open>protocols.go\<close>), and the table of peer cards with its persistence
  (\<^verbatim>\<open>host.go\<close>).

  A stream is what it will deliver until its end, a list of bytes; what is written goes through the
  argument \<open>wr\<close>, one \<open>Write\<close> on the outside world. \<open>peer.Decode\<close> is an argument.
\<close>

section \<open>Framing\<close>

definition MaxMessageSize :: nat where
  "MaxMessageSize = 16 * 1024 * 1024"

datatype frame_error =
    EOF
  | UnexpectedEOF
  | MessageTooLarge nat

definition writeFramed :: "(bytes \<Rightarrow> 'w \<Rightarrow> string option \<times> 'w) \<Rightarrow> bytes \<Rightarrow> 'w \<Rightarrow> string option \<times> 'w" where
  "writeFramed wr data w =
     (case wr (be_encode 4 (length data)) w of
        (Some err, w1) \<Rightarrow> (Some err, w1)
      | (None, w1) \<Rightarrow> wr data w1)"

text \<open>\<open>io.ReadFull\<close> into a buffer of \<open>n\<close> bytes: \<open>EOF\<close> when nothing could be read.\<close>

definition ReadFull :: "nat \<Rightarrow> bytes \<Rightarrow> frame_error + bytes \<times> bytes" where
  "ReadFull n s =
     (if n \<le> length s then Inr (take n s, drop n s)
      else if s = [] then Inl EOF else Inl UnexpectedEOF)"

definition readFramedFrom :: "bytes \<Rightarrow> frame_error + bytes \<times> bytes" where
  "readFramedFrom s =
     (case ReadFull 4 s of
        Inl err \<Rightarrow> Inl err
      | Inr (hdr, s1) \<Rightarrow>
          let len = be_decode hdr in
          if len > MaxMessageSize then Inl (MessageTooLarge len)
          else ReadFull len s1)"

lemma readFramed_shorter: "readFramedFrom s = Inr (d, s') \<Longrightarrow> length s' < length s"
  by (auto simp: readFramedFrom_def ReadFull_def Let_def split: if_splits)

text \<open>The handler of an A2A stream: every message until the first error, and that error.\<close>

function a2a_stream :: "bytes \<Rightarrow> bytes list \<times> frame_error" where
  "a2a_stream s =
     (case readFramedFrom s of
        Inl err \<Rightarrow> ([], err)
      | Inr (data, s') \<Rightarrow> (case a2a_stream s' of (msgs, err) \<Rightarrow> (data # msgs, err)))"
  by pat_completeness auto
termination
  by (relation "measure length") (auto dest: readFramed_shorter)

declare a2a_stream.simps [simp del]

section \<open>Peer cards\<close>

record Host =
  peerCards :: "peer_id \<rightharpoonup> bytes"
  host_store :: bool

datatype host_error =
    NoStore
  | ListStoredCards store_error
  | CardStore store_error
  | OpenStream string
  | WriteCard string
  | ReadCard frame_error

definition host_SetStore :: "Host \<Rightarrow> Host" where
  "host_SetStore h = h\<lparr>host_store := True\<rparr>"

definition SetPeerCard :: "'db bolt_ops \<Rightarrow> peer_id \<Rightarrow> bytes \<Rightarrow> Host \<Rightarrow> 'db \<Rightarrow> Host \<times> 'db" where
  "SetPeerCard B pid data h d =
     (h\<lparr>peerCards := (peerCards h)(pid \<mapsto> data)\<rparr>,
      if host_store h then snd (SetMetadataBytes B (''card:'' @ pid) data d) else d)"

definition SetSelfCard :: "'db bolt_ops \<Rightarrow> bytes \<Rightarrow> Host \<Rightarrow> 'db \<Rightarrow> 'db" where
  "SetSelfCard B data h d =
     (if host_store h then snd (SetMetadataBytes B ''card:self'' data d) else d)"

definition GetSelfCard :: "'db bolt_ops \<Rightarrow> Host \<Rightarrow> 'db \<Rightarrow> host_error + bytes" where
  "GetSelfCard B h d =
     (if \<not> host_store h then Inl NoStore
      else case GetMetadataBytes B ''card:self'' d of Inl e \<Rightarrow> Inl (CardStore e) | Inr v \<Rightarrow> Inr v)"

text \<open>\<open>order\<close> is the iteration order of the map that the store returned.\<close>

fun recover_cards ::
  "(string \<Rightarrow> peer_id option) \<Rightarrow> (string \<rightharpoonup> bytes) \<Rightarrow> string list \<Rightarrow> (peer_id \<rightharpoonup> bytes) \<Rightarrow> (peer_id \<rightharpoonup> bytes)" where
  "recover_cards peer_Decode m [] cards = cards"
| "recover_cards peer_Decode m (key # keys) cards =
     recover_cards peer_Decode m keys
       (case m key of
          None \<Rightarrow> cards
        | Some data \<Rightarrow>
            (let suffix = drop (length ''card:'') key in
             if suffix = ''self'' then cards
             else case peer_Decode suffix of None \<Rightarrow> cards | Some pid \<Rightarrow> cards(pid \<mapsto> data)))"

definition RecoverCards ::
  "'db bolt_ops \<Rightarrow> (string \<Rightarrow> peer_id option) \<Rightarrow> string list \<Rightarrow> 'db \<Rightarrow> Host \<Rightarrow> host_error option \<times> Host" where
  "RecoverCards B peer_Decode order d h =
     (if \<not> host_store h then (None, h)
      else case ListMetadataByPrefix B ''card:'' d of
        Inl err \<Rightarrow> (Some (ListStoredCards err), h)
      | Inr m \<Rightarrow> (None, h\<lparr>peerCards := recover_cards peer_Decode m order (peerCards h)\<rparr>))"

definition host_GetPeerCard :: "peer_id \<Rightarrow> Host \<Rightarrow> bytes option" where
  "host_GetPeerCard pid h = peerCards h pid"

text \<open>
  The two ends of a card exchange. A stream is what it delivers and the function that writes to it.
  The handler reads the remote card, stores it and answers with the local one, if there is one.
\<close>

definition card_handler ::
  "'db bolt_ops \<Rightarrow> (bytes \<Rightarrow> 'w \<Rightarrow> string option \<times> 'w) \<Rightarrow> peer_id \<Rightarrow> bytes \<Rightarrow> bytes option \<Rightarrow> Host \<Rightarrow> 'db \<Rightarrow> 'w \<Rightarrow>
   Host \<times> 'db \<times> 'w" where
  "card_handler B wr remotePeer incoming localCard h d w =
     (case readFramedFrom incoming of
        Inl err \<Rightarrow> (h, d, w)
      | Inr (data, _) \<Rightarrow>
          (case SetPeerCard B remotePeer data h d of (h', d') \<Rightarrow>
            (h', d', case localCard of None \<Rightarrow> w | Some own \<Rightarrow> snd (writeFramed wr own w))))"

definition ExchangeCard ::
  "'db bolt_ops \<Rightarrow> (string + (bytes \<Rightarrow> 'w \<Rightarrow> string option \<times> 'w)) \<Rightarrow> ('w \<Rightarrow> bytes) \<Rightarrow> peer_id \<Rightarrow> bytes \<Rightarrow>
   Host \<Rightarrow> 'db \<Rightarrow> 'w \<Rightarrow> host_error option \<times> Host \<times> 'db \<times> 'w" where
  "ExchangeCard B stream incoming pid localCard h d w =
     (case stream of
        Inl err \<Rightarrow> (Some (OpenStream err), h, d, w)
      | Inr wr \<Rightarrow>
          (case writeFramed wr localCard w of
             (Some err, w1) \<Rightarrow> (Some (WriteCard err), h, d, w1)
           | (None, w1) \<Rightarrow>
               (case readFramedFrom (incoming w1) of
                  Inl err \<Rightarrow> (Some (ReadCard err), h, d, w1)
                | Inr (data, _) \<Rightarrow>
                    (case SetPeerCard B pid data h d of (h', d') \<Rightarrow> (None, h', d', w1)))))"

definition SendA2AMessage ::
  "(peer_id \<Rightarrow> 'w \<Rightarrow> (string + (bytes \<Rightarrow> 'w \<Rightarrow> string option \<times> 'w)) \<times> 'w) \<Rightarrow> peer_id \<Rightarrow> bytes \<Rightarrow> 'w \<Rightarrow> string option \<times> 'w" where
  "SendA2AMessage NewStream pid data w =
     (case NewStream pid w of
        (Inl err, w1) \<Rightarrow> (Some (''open a2a stream to '' @ pid @ '': '' @ err), w1)
      | (Inr wr, w1) \<Rightarrow>
          (case writeFramed wr data w1 of
             (Some err, w2) \<Rightarrow> (Some (''write a2a message: '' @ err), w2)
           | (None, w2) \<Rightarrow> (None, w2)))"

section \<open>The frames of a sequence of messages\<close>

text \<open>A stream that takes every write.\<close>

definition append_write :: "bytes \<Rightarrow> bytes \<Rightarrow> string option \<times> bytes" where
  "append_write data w = (None, w @ data)"

fun write_all :: "bytes list \<Rightarrow> bytes \<Rightarrow> bytes" where
  "write_all [] w = w"
| "write_all (m # ms) w = write_all ms (snd (writeFramed append_write m w))"

definition frame :: "bytes \<Rightarrow> bytes" where
  "frame m = be_encode 4 (length m) @ m"

lemma writeFramed_append: "writeFramed append_write m w = (None, w @ frame m)"
  by (simp add: writeFramed_def append_write_def frame_def)

lemma write_all_frames: "write_all ms w = w @ concat (map frame ms)"
  by (induction ms arbitrary: w) (simp_all add: writeFramed_append)

lemma read_frame: "length m \<le> MaxMessageSize \<Longrightarrow> readFramedFrom (frame m @ s) = Inr (m, s)"
  by (simp add: readFramedFrom_def ReadFull_def frame_def be_decode_encode MaxMessageSize_def)

lemma read_cut_frame:
  assumes "length m \<le> MaxMessageSize" "n < length (frame m)"
  shows "\<exists>e. readFramedFrom (take n (frame m)) = Inl e"
proof (cases "n < 4")
  case True
  with assms show ?thesis by (simp add: readFramedFrom_def ReadFull_def frame_def)
next
  case False
  with assms show ?thesis
    by (auto simp: readFramedFrom_def ReadFull_def frame_def be_decode_encode MaxMessageSize_def Let_def)
qed

text \<open>
  Messages on a stream. Any sequence of messages of at most 16 MB written to a stream is read back
  by the handler as the same messages in the same order, followed by a clean end of stream; when the
  stream breaks off anywhere, the messages delivered are a prefix of those written, none torn or
  invented.
\<close>

theorem framing_roundtrip:
  assumes "\<forall>m\<in>set ms. length m \<le> MaxMessageSize"
  shows "a2a_stream (write_all ms []) = (ms, EOF)
    \<and> prefix (fst (a2a_stream (take n (write_all ms [])))) ms"
proof
  have "a2a_stream (concat (map frame ms)) = (ms, EOF)"
    using assms
  proof (induction ms)
    case Nil
    then show ?case by (simp add: a2a_stream.simps readFramedFrom_def ReadFull_def)
  next
    case (Cons m ms)
    then show ?case by (simp add: a2a_stream.simps [of "frame m @ _"] read_frame)
  qed
  then show "a2a_stream (write_all ms []) = (ms, EOF)" by (simp add: write_all_frames)
next
  have "prefix (fst (a2a_stream (take n (concat (map frame ms))))) ms"
    using assms
  proof (induction ms arbitrary: n)
    case Nil
    then show ?case by (simp add: a2a_stream.simps readFramedFrom_def ReadFull_def)
  next
    case (Cons m ms)
    show ?case
    proof (cases "n < length (frame m)")
      case True
      then obtain e where "readFramedFrom (take n (frame m)) = Inl e"
        using read_cut_frame [of m n] Cons.prems by auto
      with True show ?thesis by (simp add: a2a_stream.simps [of "take n (frame m)"])
    next
      case False
      then have "take n (concat (map frame (m # ms))) = frame m @ take (n - length (frame m)) (concat (map frame ms))"
        by simp
      then show ?thesis
        using Cons.IH [of "n - length (frame m)"] Cons.prems
        by (auto simp: a2a_stream.simps [of "frame m @ _"] read_frame split: prod.splits)
    qed
  qed
  then show "prefix (fst (a2a_stream (take n (write_all ms [])))) ms" by (simp add: write_all_frames)
qed

theorem framing_roundtrip_witness: "a2a_stream (write_all [[1], [], [2, 3]] []) = ([[1], [], [2, 3]], EOF)"
  using framing_roundtrip [of "[[1], [], [2, 3]]" 0] by (simp add: MaxMessageSize_def)

text \<open>
  The writer does not know the limit of the reader: a message over 16 MB (and below 4 GB) is written
  without error, and every receiver refuses it and gives up the stream.
\<close>

theorem oversized_message_lost:
  assumes "MaxMessageSize < length m" and "length m < 256 ^ 4"
  shows "fst (writeFramed append_write m w) = None
    \<and> a2a_stream (write_all [m] []) = ([], MessageTooLarge (length m))"
proof -
  have "readFramedFrom (frame m) = Inl (MessageTooLarge (length m))"
    using assms by (simp add: frame_def readFramedFrom_def ReadFull_def be_decode_encode)
  then show ?thesis
    by (simp add: writeFramed_append write_all_frames a2a_stream.simps [of "frame m"])
qed

theorem oversized_message_lost_witness:
  "a2a_stream (write_all [replicate 16777217 0] []) = ([], MessageTooLarge 16777217)"
proof -
  have "MaxMessageSize < length (replicate 16777217 (0 :: byte))" "length (replicate 16777217 (0 :: byte)) < 256 ^ 4"
    by (simp_all only: length_replicate MaxMessageSize_def) simp_all
  from oversized_message_lost [OF this] show ?thesis by (simp only: length_replicate)
qed

section \<open>Cards survive a restart\<close>

text \<open>A peer identifier as libp2p writes it: decoding its text gives it back.\<close>

definition peer_name :: "(string \<Rightarrow> peer_id option) \<Rightarrow> peer_id \<Rightarrow> bool" where
  "peer_name peer_Decode p \<longleftrightarrow> peer_Decode p = Some p \<and> p \<noteq> ''self''"

fun set_cards :: "'db bolt_ops \<Rightarrow> (peer_id \<times> bytes) list \<Rightarrow> Host \<times> 'db \<Rightarrow> Host \<times> 'db" where
  "set_cards B [] s = s"
| "set_cards B ((p, c) # cs) s = set_cards B cs (SetPeerCard B p c (fst s) (snd s))"

text \<open>The store has under \<open>card:\<close> exactly the cards in memory, besides the node's own.\<close>

definition cards_stored :: "'db bolt_ops \<Rightarrow> Host \<Rightarrow> 'db \<Rightarrow> bool" where
  "cards_stored B h d \<longleftrightarrow>
     (\<forall>p. p \<noteq> ''self'' \<longrightarrow> bolt_get B metadataBucket (''card:'' @ p) d = peerCards h p)"

context bolt_db
begin

lemma SetPeerCard_stored:
  assumes "cards_stored B h d" "host_store h" "p \<noteq> ''self''"
    and "fst (SetMetadataBytes B (''card:'' @ p) c d) = None"
  shows "cards_stored B (fst (SetPeerCard B p c h d)) (snd (SetPeerCard B p c h d))"
proof -
  obtain d' where put: "bolt_put B metadataBucket (''card:'' @ p) c d = (None, d')"
    using assms(4) by (cases "bolt_put B metadataBucket (''card:'' @ p) c d") (simp add: SetMetadataBytes_def)
  have "bolt_get B metadataBucket k d' = (if k = ''card:'' @ p then Some c else bolt_get B metadataBucket k d)" for k
    using get_put [OF put] by simp
  with put assms(1,2) show ?thesis
    by (simp add: cards_stored_def SetPeerCard_def SetMetadataBytes_def)
qed

lemma set_cards_stored:
  assumes "\<And>q v d. fst (SetMetadataBytes B (''card:'' @ q) v d) = None"
    and "cards_stored B h d" "host_store h" "\<forall>(p, c)\<in>set cs. p \<noteq> ''self''"
  shows "case set_cards B cs (h, d) of (h', d') \<Rightarrow> cards_stored B h' d' \<and>
    (\<forall>q. peerCards h' q \<noteq> None \<longrightarrow> q \<in> fst ` set cs \<or> peerCards h q \<noteq> None)"
  using assms(2-)
proof (induction cs arbitrary: h d)
  case (Cons pc cs)
  obtain p c where pc: "pc = (p, c)" by (cases pc)
  obtain h1 d1 where s: "SetPeerCard B p c h d = (h1, d1)" by fastforce
  have "cards_stored B h1 d1" "host_store h1"
    using SetPeerCard_stored [of h d p c] Cons.prems assms(1) pc s by (auto simp: SetPeerCard_def)
  moreover have "peerCards h1 = (peerCards h)(p \<mapsto> c)" using s by (auto simp: SetPeerCard_def)
  ultimately show ?case
    using Cons.IH [of h1 d1] Cons.prems pc s by (auto split: prod.splits if_splits)
qed simp

end

lemma recover_cards_get:
  assumes "\<forall>k\<in>set order. \<exists>q. k = ''card:'' @ q \<and> (q = ''self'' \<or> peer_Decode q = Some q)" "distinct order"
    and "p \<noteq> ''self''"
  shows "recover_cards peer_Decode m order cards p =
    (if ''card:'' @ p \<in> set order \<and> m (''card:'' @ p) \<noteq> None then m (''card:'' @ p) else cards p)"
  using assms(1,2)
proof (induction order arbitrary: cards)
  case (Cons k order)
  then obtain q where q: "k = ''card:'' @ q" "q = ''self'' \<or> peer_Decode q = Some q" by auto
  show ?case
    using Cons q assms(3) by (cases "m k") (auto simp: Let_def)
qed simp

text \<open>
  A restarted host knows the same cards. After any sequence of received cards, with a store that
  takes the writes, a new host that recovers from the store has for every peer the card that the old
  one had, and no card for any other peer; the node's own card is not taken for a peer's.
\<close>

theorem card_recovery:
  assumes "bolt_db B" and "\<And>q v d. fst (SetMetadataBytes B (''card:'' @ q) v d) = None" and "\<And>d. bolt_view_err B d = None"
    and "\<forall>(p, c)\<in>set cs. peer_name peer_Decode p"
    and "\<And>k. bolt_get B metadataBucket k d0 = None"
    and "set_cards B cs (\<lparr>peerCards = Map.empty, host_store = True\<rparr>, d0) = (h, d)"
    and "d1 = (case own of None \<Rightarrow> d | Some c \<Rightarrow> SetSelfCard B c h d)"
    and "distinct order" and "set order = {k. HasPrefix k ''card:'' \<and> bolt_get B metadataBucket k d1 \<noteq> None}"
    and "RecoverCards B peer_Decode order d1 \<lparr>peerCards = Map.empty, host_store = True\<rparr> = (err, h')"
  shows "err = None \<and> (\<forall>p. p \<noteq> ''self'' \<longrightarrow> peerCards h' p = peerCards h p)"
proof -
  let ?h0 = "\<lparr>peerCards = Map.empty, host_store = True\<rparr>"
  have "\<forall>(p, c)\<in>set cs. p \<noteq> ''self''"
    using assms(4) by (auto simp: peer_name_def)
  moreover have "cards_stored B ?h0 d0" using assms(5) by (simp add: cards_stored_def)
  ultimately have stored: "cards_stored B h d" and dom: "\<And>q. peerCards h q \<noteq> None \<Longrightarrow> q \<in> fst ` set cs"
    using bolt_db.set_cards_stored [OF assms(1,2), of ?h0 d0 cs] assms(6) by auto
  have same: "bolt_get B metadataBucket (''card:'' @ p) d1 = peerCards h p" if "p \<noteq> ''self''" for p
  proof (cases own)
    case (Some c)
    obtain d' where put: "bolt_put B metadataBucket ''card:self'' c d = (None, d')"
      using assms(2) [of "''self''" c d]
      by (cases "bolt_put B metadataBucket ''card:self'' c d") (simp add: SetMetadataBytes_def)
    have "d1 = (if host_store h then d' else d)"
      using assms(7) Some put by (simp add: SetSelfCard_def SetMetadataBytes_def)
    with bolt_db.get_put [OF assms(1) put] that stored show ?thesis
      by (auto simp: cards_stored_def)
  qed (use assms(7) stored that in \<open>simp add: cards_stored_def\<close>)
  have keys: "\<forall>k\<in>set order. \<exists>q. k = ''card:'' @ q \<and> (q = ''self'' \<or> peer_Decode q = Some q)"
  proof
    fix k assume "k \<in> set order"
    then obtain q where q: "k = ''card:'' @ q" "bolt_get B metadataBucket k d1 \<noteq> None"
      using assms(9) by (auto simp: HasPrefix_iff)
    then have "q = ''self'' \<or> q \<in> fst ` set cs" using same [of q] dom [of q] by metis
    then show "\<exists>q. k = ''card:'' @ q \<and> (q = ''self'' \<or> peer_Decode q = Some q)"
      using q(1) assms(4) by (auto simp: peer_name_def)
  qed
  let ?m = "\<lambda>k. if HasPrefix k ''card:'' then bolt_get B metadataBucket k d1 else None"
  have "ListMetadataByPrefix B ''card:'' d1 = Inr ?m"
    using bolt_db.ListMetadataByPrefix_eq [OF assms(1), of "''card:''" d1] assms(3) [of d1] by (simp add: view_def)
  then have r: "err = None" "peerCards h' = recover_cards peer_Decode ?m order Map.empty"
    using assms(10) by (auto simp: RecoverCards_def)
  have pre: "HasPrefix (''card:'' @ p) ''card:''" for p
    by (rule HasPrefix_append)
  have "peerCards h' p = peerCards h p" if "p \<noteq> ''self''" for p
    using pre [of p] recover_cards_get [OF keys assms(8) that, of ?m Map.empty] same [OF that] assms(9) r(2) by auto
  with r(1) show ?thesis by blast
qed

theorem card_recovery_witness:
  "\<exists>h' d. snd (set_cards mem_bolt [(''p'', [7])] (\<lparr>peerCards = Map.empty, host_store = True\<rparr>, mem_empty)) = d \<and>
     RecoverCards mem_bolt Some [''card:p''] d \<lparr>peerCards = Map.empty, host_store = True\<rparr> = (None, h') \<and>
     peerCards h' ''p'' = Some [7]"
proof -
  obtain h d where s: "set_cards mem_bolt [(''p'', [7])] (\<lparr>peerCards = Map.empty, host_store = True\<rparr>, mem_empty) = (h, d)"
    by fastforce
  then have hd: "peerCards h = [''p'' \<mapsto> [7]]" "d = snd (SetMetadataBytes mem_bolt ''card:p'' [7] mem_empty)"
    by (auto simp: SetPeerCard_def)
  have get: "bolt_get mem_bolt metadataBucket k d = (if k = ''card:p'' then Some [7] else None)" for k
    by (simp add: hd(2) SetMetadataBytes_def mem_bolt_def mem_empty_def)
  have order: "set [''card:p''] = {k. HasPrefix k ''card:'' \<and> bolt_get mem_bolt metadataBucket k d \<noteq> None}"
    by (auto simp: get HasPrefix_def)
  have ok: "fst (SetMetadataBytes mem_bolt (''card:'' @ q) v d) = None" "bolt_view_err mem_bolt d = None"
      "bolt_get mem_bolt metadataBucket k mem_empty = None" for q v d k
    by (simp_all add: SetMetadataBytes_def mem_bolt_def mem_empty_def)
  obtain err h' where r: "RecoverCards mem_bolt Some [''card:p''] d \<lparr>peerCards = Map.empty, host_store = True\<rparr> = (err, h')"
    by fastforce
  have "err = None \<and> (\<forall>p. p \<noteq> ''self'' \<longrightarrow> peerCards h' p = peerCards h p)"
    by (rule card_recovery [OF mem.bolt_db_axioms ok(1,2) _ ok(3) s _ _ order r, where own = None])
      (simp_all add: peer_name_def)
  with s r hd(1) show ?thesis by auto
qed

end
