(* ===== verification/Config.thy ===== *)
theory Config
  imports Policy
begin

text \<open>
  Configuration, \<^verbatim>\<open>internal/config/config.go\<close>, and the command-line flags that \<^verbatim>\<open>main.go\<close> lays over
  it. The environment is a function from names to values, the empty string for an unset variable. The
  file system and the TOML decoder are arguments; a \<open>float64\<close> is its bit pattern, and parsing one is
  an argument. \<open>strings.TrimSpace\<close> is modelled on ASCII white space.
\<close>

section \<open>Paths and lists\<close>

fun split_on :: "char \<Rightarrow> string \<Rightarrow> string list" where
  "split_on c [] = [[]]"
| "split_on c (x # xs) =
     (if x = c then [] # split_on c xs
      else case split_on c xs of
        [] \<Rightarrow> [[x]]
      | p # ps \<Rightarrow> (x # p) # ps)"

fun join_with :: "string \<Rightarrow> string list \<Rightarrow> string" where
  "join_with s [] = []"
| "join_with s [p] = p"
| "join_with s (p # ps) = p @ s @ join_with s ps"

definition ascii_space :: "char \<Rightarrow> bool" where
  "ascii_space c \<longleftrightarrow> c \<in> {CHR 0x09, CHR 0x0A, CHR 0x0B, CHR 0x0C, CHR 0x0D, CHR 0x20}"

definition TrimSpace :: "string \<Rightarrow> string" where
  "TrimSpace s = rev (dropWhile ascii_space (rev (dropWhile ascii_space s)))"

text \<open>\<open>filepath.Clean\<close> on Unix: the stack of components, a leading slash apart.\<close>

fun clean_parts :: "bool \<Rightarrow> string list \<Rightarrow> string list \<Rightarrow> string list" where
  "clean_parts rooted [] stack = rev stack"
| "clean_parts rooted (p # ps) stack =
     clean_parts rooted ps
       (if p = [] \<or> p = ''.'' then stack
        else if p = ''..'' then
          (case stack of
             [] \<Rightarrow> if rooted then [] else [''..'']
           | t # ts \<Rightarrow> if t = ''..'' then ''..'' # stack else ts)
        else p # stack)"

definition filepath_Clean :: "string \<Rightarrow> string" where
  "filepath_Clean path =
     (let rooted = (path \<noteq> [] \<and> hd path = CHR ''/'');
          parts = clean_parts rooted (split_on (CHR ''/'') path) []
      in if rooted then ''/'' @ join_with ''/'' parts
         else if parts = [] then ''.'' else join_with ''/'' parts)"

definition filepath_Join :: "string list \<Rightarrow> string" where
  "filepath_Join elems =
     (let es = filter (\<lambda>e. e \<noteq> []) elems
      in if es = [] then [] else filepath_Clean (join_with ''/'' es))"

section \<open>Data\<close>

record BridgeConfig =
  br_Enabled :: bool
  br_Listen :: string
  TLSCert :: string
  TLSKey :: string
  CORSOrigins :: "string list"

record AnycastConfig =
  RoutingStrategy :: string
  CacheTTL :: string
  AutoRegister :: bool
  RegistryAddr :: string
  RegistryAddrs :: "string list"
  EnableDHT :: bool
  DHTMode :: string

record MetricsConfig =
  me_Enabled :: bool
  me_Listen :: string

record MCPConfig =
  mcp_Enabled :: bool
  mcp_Listen :: string

record ANPConfig =
  anp_Enabled :: bool
  anp_Listen :: string

record IdentityConfig =
  DIDWeb :: string
  DIDDNSDomain :: string

type_synonym float64 = "64 word"

record TelemetryConfig =
  te_Enabled :: bool
  OTLPEndpoint :: string
  SampleRate :: float64
  te_Insecure :: bool

record NATSConfig =
  na_Enabled :: bool
  Broker :: string
  SubjectPrefix :: string
  AuthUser :: string
  AuthPass :: string
  TLSEnabled :: bool
  TLSCertFile :: string
  TLSKeyFile :: string

record TransportConfig =
  NATS :: NATSConfig

record PolicyConfig =
  AuditLogPath :: string
  ACLRules :: "ACLRule list"
  RateLimits :: RateLimitConfig

record Config =
  KeyPath :: string
  ListenAddrs :: "string list"
  GRPCListen :: string
  BootstrapPeers :: "string list"
  EnableRelayClient :: bool
  EnableHolePunching :: bool
  EnableQUIC :: bool
  EnableWebTransport :: bool
  EnableMDNS :: bool
  StorePath :: string
  OfflineQueueTTL :: string
  LogLevel :: string
  LogFormat :: string
  cf_Bridge :: BridgeConfig
  cf_Anycast :: AnycastConfig
  cf_Metrics :: MetricsConfig
  cf_MCP :: MCPConfig
  cf_ANP :: ANPConfig
  Identity :: IdentityConfig
  Telemetry :: TelemetryConfig
  Transport :: TransportConfig
  cf_Policy :: PolicyConfig

section \<open>Operations\<close>

datatype config_error =
    StorePathEmpty
  | GRPCListenEmpty
  | InvalidDHTMode string
  | AutoRegisterNeedsDiscovery
  | ListenConflict string
  | BrokerEmpty
  | BrokerScheme string
  | ReadConfigFile string string
  | ParseConfigFile string string

definition Validate :: "Config \<Rightarrow> config_error option" where
  "Validate c =
     (if StorePath c = [] then Some StorePathEmpty
      else if GRPCListen c = [] then Some GRPCListenEmpty
      else if DHTMode (cf_Anycast c) \<notin> {[], ''auto'', ''server'', ''client''}
      then Some (InvalidDHTMode (DHTMode (cf_Anycast c)))
      else if AutoRegister (cf_Anycast c) \<and>
        \<not> (RegistryAddr (cf_Anycast c) \<noteq> [] \<or> length (RegistryAddrs (cf_Anycast c)) > 0) \<and>
        \<not> EnableDHT (cf_Anycast c)
      then Some AutoRegisterNeedsDiscovery
      else if anp_Enabled (cf_ANP c) \<and> br_Enabled (cf_Bridge c) \<and> anp_Listen (cf_ANP c) \<noteq> [] \<and>
        anp_Listen (cf_ANP c) = br_Listen (cf_Bridge c)
      then Some (ListenConflict (anp_Listen (cf_ANP c)))
      else if na_Enabled (NATS (Transport c)) then
        (let broker = Broker (NATS (Transport c)) in
         if broker = [] then Some BrokerEmpty
         else if \<not> HasPrefix broker ''nats://'' \<and> \<not> HasPrefix broker ''tls://'' then Some (BrokerScheme broker)
         else None)
      else None)"

text \<open>The loop appends each address that was not seen; the single address comes first.\<close>

definition EffectiveRegistryAddrs :: "AnycastConfig \<Rightarrow> string list" where
  "EffectiveRegistryAddrs c =
     (if RegistryAddr c \<noteq> []
      then RegistryAddr c # dedup_by (\<lambda>a. a) [RegistryAddr c] (RegistryAddrs c)
      else dedup_by (\<lambda>a. a) [] (RegistryAddrs c))"

definition float_one :: float64 where
  "float_one = 4607182418800017408"

text \<open>\<open>home\<close> is the user's home directory, empty when it is unknown.\<close>

definition DefaultConfigPath :: "string \<Rightarrow> string" where
  "DefaultConfigPath home = filepath_Join [home, ''.agentanycast'', ''config.toml'']"

definition DefaultConfig :: "string \<Rightarrow> Config" where
  "DefaultConfig home =
     (let base = filepath_Join [home, ''.agentanycast''] in
      \<lparr>KeyPath = filepath_Join [base, ''key''],
       ListenAddrs = [''/ip4/0.0.0.0/tcp/0'', ''/ip4/0.0.0.0/udp/0/quic-v1''],
       GRPCListen = ''unix://'' @ filepath_Join [base, ''daemon.sock''],
       BootstrapPeers = [],
       EnableRelayClient = True, EnableHolePunching = True, EnableQUIC = True, EnableWebTransport = False,
       EnableMDNS = True,
       StorePath = filepath_Join [base, ''data''],
       OfflineQueueTTL = ''24h'', LogLevel = ''info'', LogFormat = ''json'',
       cf_Bridge = \<lparr>br_Enabled = False, br_Listen = '':8080'', TLSCert = [], TLSKey = [], CORSOrigins = [''*'']\<rparr>,
       cf_Anycast = \<lparr>RoutingStrategy = ''random'', CacheTTL = ''30s'', AutoRegister = True, RegistryAddr = [],
                     RegistryAddrs = [], EnableDHT = False, DHTMode = []\<rparr>,
       cf_Metrics = \<lparr>me_Enabled = False, me_Listen = '':9090''\<rparr>,
       cf_MCP = \<lparr>mcp_Enabled = False, mcp_Listen = '':3000''\<rparr>,
       cf_ANP = \<lparr>anp_Enabled = False, anp_Listen = '':8090''\<rparr>,
       Identity = \<lparr>DIDWeb = [], DIDDNSDomain = []\<rparr>,
       Telemetry = \<lparr>te_Enabled = False, OTLPEndpoint = [], SampleRate = float_one, te_Insecure = True\<rparr>,
       Transport = \<lparr>NATS = \<lparr>na_Enabled = False, Broker = [], SubjectPrefix = [], AuthUser = [], AuthPass = [],
                            TLSEnabled = False, TLSCertFile = [], TLSKeyFile = []\<rparr>\<rparr>,
       cf_Policy = \<lparr>AuditLogPath = [], ACLRules = [], RateLimits = \<lparr>cfg_DefaultRPS = 0, cfg_Overrides = []\<rparr>\<rparr>\<rparr>)"

datatype file_result =
    FileMissing
  | FileError string
  | FileData bytes

definition LoadConfigFile ::
  "(string \<Rightarrow> file_result) \<Rightarrow> (bytes \<Rightarrow> Config \<Rightarrow> string + Config) \<Rightarrow> string \<Rightarrow> string \<Rightarrow> config_error + Config" where
  "LoadConfigFile read_file toml_Unmarshal home path =
     (let cfg = DefaultConfig home in
      case read_file path of
        FileMissing \<Rightarrow> Inr cfg
      | FileError err \<Rightarrow> Inl (ReadConfigFile path err)
      | FileData data \<Rightarrow>
          (case toml_Unmarshal data cfg of
             Inl err \<Rightarrow> Inl (ParseConfigFile path err)
           | Inr cfg' \<Rightarrow> Inr cfg'))"

definition envOverride :: "(string \<Rightarrow> string) \<Rightarrow> string \<Rightarrow> string \<Rightarrow> string" where
  "envOverride env key tgt = (if env key \<noteq> [] then env key else tgt)"

definition envOverrideBool :: "(string \<Rightarrow> string) \<Rightarrow> string \<Rightarrow> bool \<Rightarrow> bool" where
  "envOverrideBool env key tgt =
     (if env key \<in> {''true'', ''1''} then True
      else if env key \<in> {''false'', ''0''} then False
      else tgt)"

text \<open>The comma-separated lists: the trimmed non-empty parts, if there is any.\<close>

definition list_override :: "string \<Rightarrow> string list \<Rightarrow> string list" where
  "list_override v old =
     (if v \<noteq> [] then
        (let peers = filter (\<lambda>p. p \<noteq> []) (map TrimSpace (split_on (CHR '','') v))
         in if length peers > 0 then peers else old)
      else old)"

definition ApplyEnv :: "(string \<Rightarrow> float64 option) \<Rightarrow> (string \<Rightarrow> string) \<Rightarrow> Config \<Rightarrow> Config" where
  "ApplyEnv ParseFloat env c =
     (let c = c\<lparr>KeyPath := envOverride env ''AGENTANYCAST_KEY_PATH'' (KeyPath c),
                GRPCListen := envOverride env ''AGENTANYCAST_GRPC_LISTEN'' (GRPCListen c),
                LogLevel := envOverride env ''AGENTANYCAST_LOG_LEVEL'' (LogLevel c),
                StorePath := envOverride env ''AGENTANYCAST_STORE_PATH'' (StorePath c),
                BootstrapPeers := list_override (env ''AGENTANYCAST_BOOTSTRAP_PEERS'') (BootstrapPeers c),
                EnableMDNS := (if env ''AGENTANYCAST_ENABLE_MDNS'' \<in> {''false'', ''0''} then False else EnableMDNS c)\<rparr>;
          c = c\<lparr>cf_Anycast := (cf_Anycast c)\<lparr>RegistryAddrs :=
                  list_override (env ''AGENTANYCAST_REGISTRY_ADDRS'') (RegistryAddrs (cf_Anycast c))\<rparr>\<rparr>;
          c = (if env ''AGENTANYCAST_MCP_LISTEN'' \<noteq> []
               then c\<lparr>cf_MCP := \<lparr>mcp_Enabled = True, mcp_Listen = env ''AGENTANYCAST_MCP_LISTEN''\<rparr>\<rparr> else c);
          c = c\<lparr>cf_ANP := \<lparr>anp_Enabled = envOverrideBool env ''AGENTANYCAST_ANP_ENABLED'' (anp_Enabled (cf_ANP c)),
                           anp_Listen = envOverride env ''AGENTANYCAST_ANP_LISTEN'' (anp_Listen (cf_ANP c))\<rparr>,
                Identity := \<lparr>DIDWeb = envOverride env ''AGENTANYCAST_DID_WEB'' (DIDWeb (Identity c)),
                             DIDDNSDomain = envOverride env ''AGENTANYCAST_DID_DNS_DOMAIN'' (DIDDNSDomain (Identity c))\<rparr>,
                Telemetry := (Telemetry c)\<lparr>
                    OTLPEndpoint := envOverride env ''AGENTANYCAST_OTLP_ENDPOINT'' (OTLPEndpoint (Telemetry c)),
                    te_Enabled := envOverrideBool env ''AGENTANYCAST_TELEMETRY_ENABLED'' (te_Enabled (Telemetry c)),
                    SampleRate := (if env ''AGENTANYCAST_SAMPLE_RATE'' \<noteq> []
                      then (case ParseFloat (env ''AGENTANYCAST_SAMPLE_RATE'') of
                              Some x \<Rightarrow> x | None \<Rightarrow> SampleRate (Telemetry c))
                      else SampleRate (Telemetry c))\<rparr>,
                Transport := \<lparr>NATS = (NATS (Transport c))\<lparr>
                    na_Enabled := envOverrideBool env ''AGENTANYCAST_NATS_ENABLED'' (na_Enabled (NATS (Transport c))),
                    Broker := envOverride env ''AGENTANYCAST_NATS_BROKER'' (Broker (NATS (Transport c))),
                    SubjectPrefix := envOverride env ''AGENTANYCAST_NATS_SUBJECT_PREFIX''
                      (SubjectPrefix (NATS (Transport c)))\<rparr>\<rparr>\<rparr>
      in c)"

section \<open>Command line\<close>

text \<open>The flags that change the configuration; an empty string is an absent flag.\<close>

record Flags =
  flagKeyPath :: string
  flagGRPCListen :: string
  flagLogLevel :: string
  flagBootstrapPeers :: string
  flagBridgeListen :: string
  flagEnableWebTransport :: bool
  flagANPListen :: string
  flagOTLPEndpoint :: string
  flagNATSBroker :: string

definition apply_flags :: "Flags \<Rightarrow> Config \<Rightarrow> Config" where
  "apply_flags f c =
     (let c = (if flagKeyPath f \<noteq> [] then c\<lparr>KeyPath := flagKeyPath f\<rparr> else c);
          c = (if flagGRPCListen f \<noteq> [] then c\<lparr>GRPCListen := flagGRPCListen f\<rparr> else c);
          c = (if flagLogLevel f \<noteq> [] then c\<lparr>LogLevel := flagLogLevel f\<rparr> else c);
          c = c\<lparr>BootstrapPeers := list_override (flagBootstrapPeers f) (BootstrapPeers c)\<rparr>;
          c = (if flagBridgeListen f \<noteq> []
               then c\<lparr>cf_Bridge := (cf_Bridge c)\<lparr>br_Enabled := True, br_Listen := flagBridgeListen f\<rparr>\<rparr> else c);
          c = (if flagEnableWebTransport f then c\<lparr>EnableWebTransport := True\<rparr> else c);
          c = (if flagANPListen f \<noteq> [] then c\<lparr>cf_ANP := \<lparr>anp_Enabled = True, anp_Listen = flagANPListen f\<rparr>\<rparr> else c);
          c = (if flagOTLPEndpoint f \<noteq> []
               then c\<lparr>Telemetry := (Telemetry c)\<lparr>te_Enabled := True, OTLPEndpoint := flagOTLPEndpoint f\<rparr>\<rparr> else c)
      in c)"

text \<open>The NATS settings that the daemon completes later, before it creates the transport.\<close>

definition nats_settings :: "Flags \<Rightarrow> NATSConfig \<Rightarrow> NATSConfig" where
  "nats_settings f n =
     (let n = (if flagNATSBroker f \<noteq> [] then n\<lparr>na_Enabled := True, Broker := flagNATSBroker f\<rparr> else n)
      in if na_Enabled n \<and> SubjectPrefix n = [] then n\<lparr>SubjectPrefix := ''agent.''\<rparr> else n)"

definition load_configuration ::
  "(string \<Rightarrow> file_result) \<Rightarrow> (bytes \<Rightarrow> Config \<Rightarrow> string + Config) \<Rightarrow> (string \<Rightarrow> float64 option) \<Rightarrow>
   (string \<Rightarrow> string) \<Rightarrow> string \<Rightarrow> string \<Rightarrow> Flags \<Rightarrow> config_error + Config" where
  "load_configuration read_file toml_Unmarshal ParseFloat env home path f =
     (case LoadConfigFile read_file toml_Unmarshal home path of
        Inl err \<Rightarrow> Inl err
      | Inr c \<Rightarrow> Inr (apply_flags f (ApplyEnv ParseFloat env c)))"

section \<open>Precedence\<close>

text \<open>The first non-empty value.\<close>

fun first_set :: "string list \<Rightarrow> string" where
  "first_set [] = []"
| "first_set (v # vs) = (if v \<noteq> [] then v else first_set vs)"

lemma apply_flags_fields:
  "KeyPath (apply_flags f c) = first_set [flagKeyPath f, KeyPath c]"
  "GRPCListen (apply_flags f c) = first_set [flagGRPCListen f, GRPCListen c]"
  "LogLevel (apply_flags f c) = first_set [flagLogLevel f, LogLevel c]"
  "StorePath (apply_flags f c) = StorePath c" "cf_Policy (apply_flags f c) = cf_Policy c"
  "OfflineQueueTTL (apply_flags f c) = OfflineQueueTTL c" "ListenAddrs (apply_flags f c) = ListenAddrs c"
  "anp_Listen (cf_ANP (apply_flags f c)) = first_set [flagANPListen f, anp_Listen (cf_ANP c)]"
  "flagANPListen f \<noteq> [] \<Longrightarrow> anp_Enabled (cf_ANP (apply_flags f c))"
  "flagBridgeListen f \<noteq> [] \<Longrightarrow> br_Enabled (cf_Bridge (apply_flags f c))"
  by (simp_all add: apply_flags_def Let_def)

lemma first_set_env: "first_set [a, first_set [b, c]] = first_set [a, b, c]"
  and envOverride_set: "envOverride env k b = first_set [env k, b]"
  by (simp_all add: envOverride_def)

lemma ApplyEnv_fields:
  "KeyPath (ApplyEnv pf env c) = envOverride env ''AGENTANYCAST_KEY_PATH'' (KeyPath c)"
  "GRPCListen (ApplyEnv pf env c) = envOverride env ''AGENTANYCAST_GRPC_LISTEN'' (GRPCListen c)"
  "LogLevel (ApplyEnv pf env c) = envOverride env ''AGENTANYCAST_LOG_LEVEL'' (LogLevel c)"
  "StorePath (ApplyEnv pf env c) = envOverride env ''AGENTANYCAST_STORE_PATH'' (StorePath c)"
  "cf_Policy (ApplyEnv pf env c) = cf_Policy c" "OfflineQueueTTL (ApplyEnv pf env c) = OfflineQueueTTL c"
  "ListenAddrs (ApplyEnv pf env c) = ListenAddrs c"
  "anp_Listen (cf_ANP (ApplyEnv pf env c)) = envOverride env ''AGENTANYCAST_ANP_LISTEN'' (anp_Listen (cf_ANP c))"
  by (simp_all add: ApplyEnv_def Let_def)


definition demo_flags :: Flags where
  "demo_flags = \<lparr>flagKeyPath = ''/k'', flagGRPCListen = [], flagLogLevel = [], flagBootstrapPeers = [], flagBridgeListen = [],
     flagEnableWebTransport = False, flagANPListen = [], flagOTLPEndpoint = [], flagNATSBroker = []\<rparr>"

definition demo_env :: "string \<Rightarrow> string" where
  "demo_env k = (if k = ''AGENTANYCAST_LOG_LEVEL'' then ''warn'' else [])"


section \<open>Validation\<close>

lemma clean_parts_nonempty: "\<forall>p\<in>set stack. p \<noteq> [] \<Longrightarrow> \<forall>p\<in>set (clean_parts rooted ps stack). p \<noteq> []"
proof (induction ps arbitrary: stack)
  case (Cons p ps)
  show ?case
    unfolding clean_parts.simps by (rule Cons.IH) (use Cons.prems in \<open>auto split: list.splits\<close>)
qed simp

lemma join_with_Nil_iff: "\<forall>p\<in>set ps. p \<noteq> [] \<Longrightarrow> join_with s ps = [] \<longleftrightarrow> ps = []"
  by (induction s ps rule: join_with.induct) auto

lemma Clean_nonempty: "filepath_Clean path \<noteq> []"
  using clean_parts_nonempty [of "[]"] by (auto simp: filepath_Clean_def Let_def join_with_Nil_iff)

lemma Join_nonempty: "e \<in> set elems \<Longrightarrow> e \<noteq> [] \<Longrightarrow> filepath_Join elems \<noteq> []"
  by (auto simp: filepath_Join_def Let_def filter_empty_conv Clean_nonempty)

text \<open>
  \<open>Validate\<close> refuses the default configuration, whatever the home directory: automatic registration is
  on and no registry and no DHT is configured. A configuration it accepts has a store path and a gRPC
  address, a known DHT mode, at least one discovery mechanism if it registers automatically, no
  conflict between the two bridges, and a broker with a scheme that the NATS transport knows.
\<close>

theorem Validate_meaning:
  "Validate (DefaultConfig home) = Some AutoRegisterNeedsDiscovery
   \<and> (Validate c = None \<longleftrightarrow>
       StorePath c \<noteq> [] \<and> GRPCListen c \<noteq> [] \<and> DHTMode (cf_Anycast c) \<in> {[], ''auto'', ''server'', ''client''}
       \<and> \<not> (AutoRegister (cf_Anycast c) \<and> \<not> EnableDHT (cf_Anycast c) \<and> EffectiveRegistryAddrs (cf_Anycast c) = [])
       \<and> \<not> (anp_Enabled (cf_ANP c) \<and> br_Enabled (cf_Bridge c) \<and> anp_Listen (cf_ANP c) \<noteq> []
          \<and> anp_Listen (cf_ANP c) = br_Listen (cf_Bridge c))
       \<and> \<not> (na_Enabled (NATS (Transport c)) \<and> \<not> HasPrefix (Broker (NATS (Transport c))) ''nats://''
          \<and> \<not> HasPrefix (Broker (NATS (Transport c))) ''tls://''))"
proof
  have "StorePath (DefaultConfig home) \<noteq> []"
    by (simp add: DefaultConfig_def Let_def Join_nonempty [of "''data''"])
  then show "Validate (DefaultConfig home) = Some AutoRegisterNeedsDiscovery"
    by (auto simp: Validate_def DefaultConfig_def Let_def)
next
  have addrs: "EffectiveRegistryAddrs a \<noteq> [] \<longleftrightarrow> RegistryAddr a \<noteq> [] \<or> RegistryAddrs a \<noteq> []" for a
    by (simp add: EffectiveRegistryAddrs_def dedup_by_Nil_iff)
  have "\<not> HasPrefix [] ''nats://''" "\<not> HasPrefix [] ''tls://''" by (simp_all add: HasPrefix_def)
  then show "Validate c = None \<longleftrightarrow>
       StorePath c \<noteq> [] \<and> GRPCListen c \<noteq> [] \<and> DHTMode (cf_Anycast c) \<in> {[], ''auto'', ''server'', ''client''}
       \<and> \<not> (AutoRegister (cf_Anycast c) \<and> \<not> EnableDHT (cf_Anycast c) \<and> EffectiveRegistryAddrs (cf_Anycast c) = [])
       \<and> \<not> (anp_Enabled (cf_ANP c) \<and> br_Enabled (cf_Bridge c) \<and> anp_Listen (cf_ANP c) \<noteq> []
          \<and> anp_Listen (cf_ANP c) = br_Listen (cf_Bridge c))
       \<and> \<not> (na_Enabled (NATS (Transport c)) \<and> \<not> HasPrefix (Broker (NATS (Transport c))) ''nats://''
          \<and> \<not> HasPrefix (Broker (NATS (Transport c))) ''tls://'')"
    by (auto simp: Validate_def addrs Let_def)
qed

end
