(* ===== verification/Bridge.thy ===== *)
theory Bridge
  imports RouterFacts
begin

text \<open>
  The HTTP bridge, \<^verbatim>\<open>internal/bridge/\<close>: the translation between A2A HTTP JSON and protobuf
  (\<^verbatim>\<open>translator.go\<close>), the JSON-RPC handler for requests from HTTP agents (\<^verbatim>\<open>handler_inbound.go\<close>), the
  client for requests to HTTP agents (\<^verbatim>\<open>handler_outbound.go\<close>), the card endpoint and the server with its
  CORS middleware.

  The JSON library, the HTTP client and the task sender are arguments; so are the identifiers that
  \<open>uuid.New\<close> draws and the clock. Both may differ from call to call: \<open>u n\<close> is the \<open>n\<close>-th identifier.
  Of \<open>http.ServeMux\<close> the choice between the two registered patterns is modelled, for paths that are
  already clean (the multiplexer redirects others).
\<close>

section \<open>Data\<close>

text \<open>A JSON value, the type \<open>any\<close> of the request identifier.\<close>

datatype json =
    JNull
  | JBool bool
  | JNumber string
  | JString string
  | JArray "json list"
  | JObject "(string \<times> json) list"

record A2AHTTPRequest =
  rq_JSONRPC :: string
  rq_ID :: json
  rq_Method :: string
  rq_Params :: bytes

record A2AError =
  er_Code :: int
  er_Message :: string

record A2APart =
  pt_Type :: string
  pt_Text :: string
  pt_Data :: "(string \<times> json) list"
  pt_URL :: string
  pt_Filename :: string

record A2AMessage =
  me_Role :: string
  me_Parts :: "A2APart list"

record SendTaskParams =
  sp_ID :: string
  sp_Message :: A2AMessage
  sp_TargetSkillID :: string
  sp_Metadata :: "string \<rightharpoonup> string"

record A2AArtifact =
  ar_ArtifactID :: string
  ar_Name :: string
  ar_Parts :: "A2APart list"

record A2ATaskResult =
  re_ID :: string
  re_Status :: string
  re_Messages :: "A2AMessage list"
  re_Artifacts :: "A2AArtifact list"

record A2AHTTPResponse =
  rs_JSONRPC :: string
  rs_ID :: json
  rs_Result :: json
  rs_Error :: "A2AError option"

record A2ASkill =
  sk_ID :: string
  sk_Description :: string
  sk_InputSchema :: string
  sk_OutputSchema :: string

record A2AAgentCard =
  ac_Name :: string
  ac_Description :: string
  ac_Version :: string
  ac_ProtocolVersion :: string
  ac_Skills :: "A2ASkill list"
  ac_URL :: string

section \<open>Translation\<close>

definition empty_part :: A2APart where
  "empty_part = \<lparr>pt_Type = [], pt_Text = [], pt_Data = [], pt_URL = [], pt_Filename = []\<rparr>"

definition httpPartToProto :: "A2APart \<Rightarrow> pb_Part" where
  "httpPartToProto p =
     (if pt_Type p = ''text'' then TextPart (pt_Text p)
      else if pt_Type p = ''url'' then UrlPart (pt_URL p) (pt_Filename p)
      else TextPart (pt_Text p))"

definition HTTPMessageToProto :: "string \<Rightarrow> gotime \<Rightarrow> A2AMessage \<Rightarrow> pb_Message" where
  "HTTPMessageToProto uuid now msg =
     \<lparr>MessageId = uuid,
      Role = (if me_Role msg = ''agent'' then MESSAGE_ROLE_AGENT else MESSAGE_ROLE_USER),
      Parts = map httpPartToProto (me_Parts msg),
      msg_CreatedAt = Some now\<rparr>"

fun protoPartToHTTP :: "pb_Part \<Rightarrow> A2APart" where
  "protoPartToHTTP (TextPart txt) = empty_part\<lparr>pt_Type := ''text'', pt_Text := txt\<rparr>"
| "protoPartToHTTP (UrlPart url fname) = empty_part\<lparr>pt_Type := ''url'', pt_URL := url, pt_Filename := fname\<rparr>"
| "protoPartToHTTP OtherPart = empty_part\<lparr>pt_Type := ''text''\<rparr>"

definition ProtoMessageToHTTP :: "pb_Message \<Rightarrow> A2AMessage" where
  "ProtoMessageToHTTP msg =
     \<lparr>me_Role = (if Role msg = MESSAGE_ROLE_AGENT then ''agent'' else ''user''),
      me_Parts = map protoPartToHTTP (Parts msg)\<rparr>"

fun protoStatusToHTTP :: "pb_TaskStatus \<Rightarrow> string" where
  "protoStatusToHTTP TASK_STATUS_SUBMITTED = ''submitted''"
| "protoStatusToHTTP TASK_STATUS_WORKING = ''working''"
| "protoStatusToHTTP TASK_STATUS_INPUT_REQUIRED = ''input-required''"
| "protoStatusToHTTP TASK_STATUS_COMPLETED = ''completed''"
| "protoStatusToHTTP TASK_STATUS_FAILED = ''failed''"
| "protoStatusToHTTP TASK_STATUS_CANCELED = ''canceled''"
| "protoStatusToHTTP TASK_STATUS_REJECTED = ''rejected''"
| "protoStatusToHTTP _ = ''unknown''"

definition HTTPStatusToProto :: "string \<Rightarrow> pb_TaskStatus" where
  "HTTPStatusToProto status =
     (if status = ''submitted'' then TASK_STATUS_SUBMITTED
      else if status = ''working'' then TASK_STATUS_WORKING
      else if status = ''input-required'' then TASK_STATUS_INPUT_REQUIRED
      else if status = ''completed'' then TASK_STATUS_COMPLETED
      else if status = ''failed'' then TASK_STATUS_FAILED
      else if status = ''canceled'' then TASK_STATUS_CANCELED
      else if status = ''rejected'' then TASK_STATUS_REJECTED
      else TASK_STATUS_UNSPECIFIED)"

definition artifact_to_http :: "pb_Artifact \<Rightarrow> A2AArtifact" where
  "artifact_to_http a =
     \<lparr>ar_ArtifactID = ArtifactId a, ar_Name = art_Name a, ar_Parts = map protoPartToHTTP (art_Parts a)\<rparr>"

definition ProtoTaskToHTTP :: "pb_Task \<Rightarrow> A2ATaskResult" where
  "ProtoTaskToHTTP t =
     \<lparr>re_ID = pbt_TaskId t, re_Status = protoStatusToHTTP (pbt_Status t),
      re_Messages = map ProtoMessageToHTTP (pbt_Messages t),
      re_Artifacts = map artifact_to_http (pbt_Artifacts t)\<rparr>"

definition ProtoCardToHTTP :: "pb_AgentCard \<Rightarrow> string \<Rightarrow> A2AAgentCard" where
  "ProtoCardToHTTP c baseURL =
     \<lparr>ac_Name = card_Name c, ac_Description = card_Description c, ac_Version = card_Version c,
      ac_ProtocolVersion = ProtocolVersion c,
      ac_Skills = map (\<lambda>s. \<lparr>sk_ID = skill_Id s, sk_Description = skill_Description s,
                            sk_InputSchema = InputSchema s, sk_OutputSchema = OutputSchema s\<rparr>) (card_Skills c),
      ac_URL = baseURL\<rparr>"

definition artifact_to_proto :: "A2AArtifact \<Rightarrow> pb_Artifact" where
  "artifact_to_proto a =
     \<lparr>ArtifactId = ar_ArtifactID a, art_Name = ar_Name a, art_Parts = map httpPartToProto (ar_Parts a)\<rparr>"

text \<open>The messages of a result, each with an identifier and a time of its own.\<close>

fun messages_to_proto :: "(nat \<Rightarrow> string) \<Rightarrow> (nat \<Rightarrow> gotime) \<Rightarrow> nat \<Rightarrow> A2AMessage list \<Rightarrow> pb_Message list" where
  "messages_to_proto u clock n [] = []"
| "messages_to_proto u clock n (m # ms) =
     HTTPMessageToProto (u n) (clock n) m # messages_to_proto u clock (Suc n) ms"

definition httpTaskResultToProto ::
  "gotime \<Rightarrow> (nat \<Rightarrow> string) \<Rightarrow> (nat \<Rightarrow> gotime) \<Rightarrow> string \<Rightarrow> A2ATaskResult \<Rightarrow> pb_Task" where
  "httpTaskResultToProto now u clock taskID result =
     \<lparr>pbt_TaskId = (if re_ID result = [] then taskID else re_ID result), pbt_ContextId = [],
      pbt_Status = HTTPStatusToProto (re_Status result), pbt_TargetSkillId = [], pbt_OriginatorPeerId = [],
      pbt_Messages = messages_to_proto u clock 0 (re_Messages result),
      pbt_Artifacts = map artifact_to_proto (re_Artifacts result),
      pbt_CreatedAt = Some now, pbt_UpdatedAt = Some now\<rparr>"

section \<open>JSON-RPC\<close>

text \<open>
  \<open>json.Marshal\<close> and \<open>json.Unmarshal\<close> at the types used. The field \<open>Result\<close> of a response has type
  \<open>any\<close>: \<open>js_of_task\<close> is the value that a task result becomes in it.
\<close>

record json_lib =
  js_get_request :: "bytes \<Rightarrow> string + A2AHTTPRequest"
  js_put_request :: "A2AHTTPRequest \<Rightarrow> string + bytes"
  js_get_params :: "bytes \<Rightarrow> string + SendTaskParams"
  js_put_params :: "SendTaskParams \<Rightarrow> string + bytes"
  js_get_response :: "bytes \<Rightarrow> string + A2AHTTPResponse"
  js_put_response :: "A2AHTTPResponse \<Rightarrow> string + bytes"
  js_of_task :: "A2ATaskResult \<Rightarrow> json"
  js_put_any :: "json \<Rightarrow> string + bytes"
  js_get_task :: "bytes \<Rightarrow> string + A2ATaskResult"
  js_put_card :: "A2AAgentCard \<Rightarrow> bytes option"
  js_get_card :: "bytes \<Rightarrow> string + A2AAgentCard"

datatype bridge_error =
    MarshalParams string
  | MarshalRequest string
  | UnmarshalResponse string
  | A2AErrorCode int string
  | MarshalResult string
  | UnmarshalTaskResult string
  | BuildHTTPRequest bridge_error
  | CreateHTTPRequest string
  | HTTPRequestTo string string
  | ReadResponse string
  | HTTPStatus nat string bytes
  | ParseA2AResponse bridge_error
  | DecodeCard string

definition BuildA2AHTTPRequest :: "json_lib \<Rightarrow> string \<Rightarrow> pb_Message \<Rightarrow> bridge_error + bytes" where
  "BuildA2AHTTPRequest J taskID msg =
     (case js_put_params J \<lparr>sp_ID = taskID, sp_Message = ProtoMessageToHTTP msg, sp_TargetSkillID = [],
                            sp_Metadata = Map.empty\<rparr> of
        Inl err \<Rightarrow> Inl (MarshalParams err)
      | Inr params \<Rightarrow>
          (case js_put_request J \<lparr>rq_JSONRPC = ''2.0'', rq_ID = JString taskID, rq_Method = ''tasks/send'',
                                  rq_Params = params\<rparr> of
             Inl err \<Rightarrow> Inl (MarshalRequest err)
           | Inr b \<Rightarrow> Inr b))"

definition ParseA2AHTTPResponse :: "json_lib \<Rightarrow> bytes \<Rightarrow> bridge_error + A2ATaskResult" where
  "ParseA2AHTTPResponse J body =
     (case js_get_response J body of
        Inl err \<Rightarrow> Inl (UnmarshalResponse err)
      | Inr resp \<Rightarrow>
          (case rs_Error resp of
             Some e \<Rightarrow> Inl (A2AErrorCode (er_Code e) (er_Message e))
           | None \<Rightarrow>
               (case js_put_any J (rs_Result resp) of
                  Inl err \<Rightarrow> Inl (MarshalResult err)
                | Inr b \<Rightarrow>
                    (case js_get_task J b of
                       Inl err \<Rightarrow> Inl (UnmarshalTaskResult err)
                     | Inr t \<Rightarrow> Inr t))))"

definition BuildJSONRPCResponse :: "json_lib \<Rightarrow> json \<Rightarrow> json \<Rightarrow> string + bytes" where
  "BuildJSONRPCResponse J i result =
     js_put_response J \<lparr>rs_JSONRPC = ''2.0'', rs_ID = i, rs_Result = result, rs_Error = None\<rparr>"

definition BuildJSONRPCError :: "json_lib \<Rightarrow> json \<Rightarrow> int \<Rightarrow> string \<Rightarrow> string + bytes" where
  "BuildJSONRPCError J i scode message =
     js_put_response J \<lparr>rs_JSONRPC = ''2.0'', rs_ID = i, rs_Result = JNull,
                        rs_Error = Some \<lparr>er_Code = scode, er_Message = message\<rparr>\<rparr>"

section \<open>HTTP\<close>

text \<open>A request, its body what \<open>io.ReadAll\<close> finds there; the response written so far.\<close>

record http_request =
  hr_Method :: string
  hr_Path :: string
  hr_Origin :: string
  hr_Body :: "string + bytes"

record http_response =
  hw_Code :: nat
  hw_Header :: "string \<rightharpoonup> string"
  hw_Body :: bytes

definition http_new :: http_response where
  "http_new = \<lparr>hw_Code = 200, hw_Header = Map.empty, hw_Body = []\<rparr>"

definition SetHeader :: "string \<Rightarrow> string \<Rightarrow> http_response \<Rightarrow> http_response" where
  "SetHeader k v rw = rw\<lparr>hw_Header := (hw_Header rw)(k \<mapsto> v)\<rparr>"

definition http_Write :: "bytes \<Rightarrow> http_response \<Rightarrow> http_response" where
  "http_Write b rw = rw\<lparr>hw_Body := hw_Body rw @ b\<rparr>"

definition http_Error :: "string \<Rightarrow> nat \<Rightarrow> http_response \<Rightarrow> http_response" where
  "http_Error message scode rw =
     http_Write (bytes_of_string (message @ [CHR 0x0A]))
       ((SetHeader ''X-Content-Type-Options'' ''nosniff''
          (SetHeader ''Content-Type'' ''text/plain; charset=utf-8'' rw))\<lparr>hw_Code := scode\<rparr>)"

section \<open>Requests from HTTP agents\<close>

type_synonym 'w task_sender = "pb_Task \<Rightarrow> 'w \<Rightarrow> (string + pb_Task) \<times> 'w"
type_synonym 'w bridge_policy = "AgentIdentity \<Rightarrow> string \<Rightarrow> string \<Rightarrow> 'w \<Rightarrow> string option \<times> 'w"

record 'w InboundHandler =
  sender :: "'w task_sender option"
  policy :: "'w bridge_policy option"

definition NewInboundHandler :: "'w task_sender option \<Rightarrow> 'w InboundHandler" where
  "NewInboundHandler snd_task = \<lparr>sender = snd_task, policy = None\<rparr>"

definition SetSender :: "'w task_sender option \<Rightarrow> 'w InboundHandler \<Rightarrow> 'w InboundHandler" where
  "SetSender snd_task h = h\<lparr>sender := snd_task\<rparr>"

definition bridge_SetInboundPolicy :: "'w bridge_policy option \<Rightarrow> 'w InboundHandler \<Rightarrow> 'w InboundHandler" where
  "bridge_SetInboundPolicy p h = h\<lparr>policy := p\<rparr>"

text \<open>An error of the JSON encoder leaves an empty body.\<close>

definition writeError :: "json_lib \<Rightarrow> json \<Rightarrow> int \<Rightarrow> string \<Rightarrow> http_response \<Rightarrow> http_response" where
  "writeError J i scode message rw =
     http_Write (case BuildJSONRPCError J i scode message of Inl _ \<Rightarrow> [] | Inr b \<Rightarrow> b)
       ((SetHeader ''Content-Type'' ''application/json'' rw)\<lparr>hw_Code := 200\<rparr>)"

text \<open>What one request draws from outside: two identifiers and two readings of the clock.\<close>

record bridge_inputs =
  bi_task_uuid :: string
  bi_msg_uuid :: string
  bi_msg_now :: gotime
  bi_now :: gotime

definition inbound_task :: "bridge_inputs \<Rightarrow> SendTaskParams \<Rightarrow> pb_Task" where
  "inbound_task i params =
     \<lparr>pbt_TaskId = (if sp_ID params = [] then bi_task_uuid i else sp_ID params), pbt_ContextId = [],
      pbt_Status = TASK_STATUS_SUBMITTED, pbt_TargetSkillId = sp_TargetSkillID params, pbt_OriginatorPeerId = [],
      pbt_Messages = [HTTPMessageToProto (bi_msg_uuid i) (bi_msg_now i) (sp_Message params)], pbt_Artifacts = [],
      pbt_CreatedAt = Some (bi_now i), pbt_UpdatedAt = Some (bi_now i)\<rparr>"

text \<open>The policy check: the refusal, if any, and the world after it.\<close>

definition bridge_check :: "'w InboundHandler \<Rightarrow> string \<Rightarrow> 'w \<Rightarrow> string option \<times> 'w" where
  "bridge_check h skill w =
     (case policy h of None \<Rightarrow> (None, w) | Some pol \<Rightarrow> pol \<lparr>PeerID = [], DIDKey = []\<rparr> skill [] w)"

definition bridge_handleSendTask ::
  "json_lib \<Rightarrow> bridge_inputs \<Rightarrow> 'w InboundHandler \<Rightarrow> A2AHTTPRequest \<Rightarrow> http_response \<Rightarrow> 'w \<Rightarrow> http_response \<times> 'w" where
  "bridge_handleSendTask J i h req rw w =
     (case sender h of
        None \<Rightarrow> (writeError J (rq_ID req) (-32000) ''bridge task sender is not configured'' rw, w)
      | Some snd_task \<Rightarrow>
          (case js_get_params J (rq_Params req) of
             Inl err \<Rightarrow> (writeError J (rq_ID req) (-32602) (''invalid params: '' @ err) rw, w)
           | Inr params \<Rightarrow>
               (case bridge_check h (sp_TargetSkillID params) w of
                  (Some err, w1) \<Rightarrow> (writeError J (rq_ID req) (-32000) (''access denied: '' @ err) rw, w1)
                | (None, w1) \<Rightarrow>
                    (case snd_task (inbound_task i params) w1 of
                       (Inl err, w2) \<Rightarrow> (writeError J (rq_ID req) (-32000) (''internal error: '' @ err) rw, w2)
                     | (Inr result, w2) \<Rightarrow>
                         (case BuildJSONRPCResponse J (rq_ID req) (js_of_task J (ProtoTaskToHTTP result)) of
                            Inl err \<Rightarrow> (writeError J (rq_ID req) (-32000) ''failed to marshal response'' rw, w2)
                          | Inr respBody \<Rightarrow>
                              (http_Write respBody (SetHeader ''Content-Type'' ''application/json'' rw), w2))))))"

definition max_body :: nat where
  "max_body = 16 * 2 ^ 20"

definition inbound_ServeHTTP ::
  "json_lib \<Rightarrow> bridge_inputs \<Rightarrow> 'w InboundHandler \<Rightarrow> http_request \<Rightarrow> http_response \<Rightarrow> 'w \<Rightarrow> http_response \<times> 'w" where
  "inbound_ServeHTTP J i h r rw w =
     (if hr_Method r \<noteq> ''POST'' then (http_Error ''method not allowed'' 405 rw, w)
      else case hr_Body r of
        Inl err \<Rightarrow> (writeError J JNull (-32700) ''failed to read request body'' rw, w)
      | Inr content \<Rightarrow>
          (case js_get_request J (take max_body content) of
             Inl err \<Rightarrow> (writeError J JNull (-32700) ''invalid JSON'' rw, w)
           | Inr req \<Rightarrow>
               if rq_Method req = ''tasks/send'' then bridge_handleSendTask J i h req rw w
               else (writeError J (rq_ID req) (-32601) (''method not found: '' @ rq_Method req) rw, w)))"

section \<open>The server\<close>

definition card_ServeHTTP ::
  "json_lib \<Rightarrow> pb_AgentCard option \<Rightarrow> string \<Rightarrow> http_request \<Rightarrow> http_response \<Rightarrow> http_response" where
  "card_ServeHTTP J getCard baseURL r rw =
     (if hr_Method r \<noteq> ''GET'' then http_Error ''method not allowed'' 405 rw
      else case getCard of
        None \<Rightarrow> http_Error ''no agent card configured'' 404 rw
      | Some c \<Rightarrow>
          (let rw1 = SetHeader ''Content-Type'' ''application/json'' rw in
           case js_put_card J (ProtoCardToHTTP c baseURL) of
             None \<Rightarrow> rw1
           | Some b \<Rightarrow> http_Write b rw1))"

type_synonym 'w http_handler = "http_request \<Rightarrow> http_response \<Rightarrow> 'w \<Rightarrow> http_response \<times> 'w"

definition corsMiddleware :: "string list \<Rightarrow> 'w http_handler \<Rightarrow> 'w http_handler" where
  "corsMiddleware origins inner r rw w =
     (let allowAll = (length origins = 1 \<and> origins ! 0 = ''*'');
          origin = hr_Origin r
      in if origin = [] then inner r rw w
         else if \<not> allowAll \<and> origin \<notin> set origins then inner r rw w
         else
           let rw1 = SetHeader ''Access-Control-Allow-Origin'' (if allowAll then ''*'' else origin) rw;
               rw2 = SetHeader ''Access-Control-Max-Age'' ''86400''
                 (SetHeader ''Access-Control-Allow-Headers'' ''Content-Type''
                   (SetHeader ''Access-Control-Allow-Methods'' ''GET, POST, OPTIONS'' rw1))
           in if hr_Method r = ''OPTIONS'' then (rw2\<lparr>hw_Code := 204\<rparr>, w)
              else inner r rw2 w)"

definition bridge_mux :: "'w http_handler \<Rightarrow> 'w http_handler \<Rightarrow> 'w http_handler" where
  "bridge_mux cardEndpoint inbound r =
     (if hr_Path r = ''/.well-known/a2a-agent-card'' then cardEndpoint r else inbound r)"

definition bridge_NewServer :: "string list \<Rightarrow> 'w http_handler \<Rightarrow> 'w http_handler \<Rightarrow> 'w http_handler" where
  "bridge_NewServer corsOrigins inbound cardEndpoint =
     (if length corsOrigins > 0 then corsMiddleware corsOrigins (bridge_mux cardEndpoint inbound)
      else bridge_mux cardEndpoint inbound)"

definition BaseURL :: "string \<Rightarrow> bool \<Rightarrow> string" where
  "BaseURL listen useTLS =
     (let scheme = (if useTLS then ''https'' else ''http'');
          addr = (if HasPrefix listen '':'' then ''localhost'' @ listen else listen)
      in scheme @ ''://'' @ addr)"

section \<open>Requests to HTTP agents\<close>

text \<open>
  The HTTP client: \<open>http_NewRequest\<close> refuses malformed targets, \<open>http_Do\<close> posts a body (or gets, when
  there is none) and answers with a status code and a body that may fail to be read.
\<close>

record 'w http_client =
  http_NewRequest :: "string \<Rightarrow> string option"
  http_Do :: "string \<Rightarrow> bytes option \<Rightarrow> 'w \<Rightarrow> (string + nat \<times> (string + bytes)) \<times> 'w"

definition outbound_SendTask ::
  "json_lib \<Rightarrow> 'w http_client \<Rightarrow> string \<Rightarrow> gotime \<Rightarrow> (nat \<Rightarrow> string) \<Rightarrow> (nat \<Rightarrow> gotime) \<Rightarrow> string \<Rightarrow> pb_Message \<Rightarrow> 'w \<Rightarrow>
   (bridge_error + pb_Task) \<times> 'w" where
  "outbound_SendTask J C uuid now u clock targetURL msg w =
     (case BuildA2AHTTPRequest J uuid msg of
        Inl err \<Rightarrow> (Inl (BuildHTTPRequest err), w)
      | Inr reqBody \<Rightarrow>
          (case http_NewRequest C targetURL of
             Some err \<Rightarrow> (Inl (CreateHTTPRequest err), w)
           | None \<Rightarrow>
               (case http_Do C targetURL (Some reqBody) w of
                  (Inl err, w1) \<Rightarrow> (Inl (HTTPRequestTo targetURL err), w1)
                | (Inr (scode, content), w1) \<Rightarrow>
                    (case content of
                       Inl err \<Rightarrow> (Inl (ReadResponse err), w1)
                     | Inr content' \<Rightarrow>
                         (let respBody = take max_body content' in
                          if scode \<noteq> 200 then (Inl (HTTPStatus scode targetURL respBody), w1)
                          else (case ParseA2AHTTPResponse J respBody of
                            Inl err \<Rightarrow> (Inl (ParseA2AResponse err), w1)
                          | Inr res \<Rightarrow> (Inr (httpTaskResultToProto now u clock uuid res), w1)))))))"

definition FetchAgentCard ::
  "json_lib \<Rightarrow> 'w http_client \<Rightarrow> string \<Rightarrow> 'w \<Rightarrow> (bridge_error + A2AAgentCard) \<times> 'w" where
  "FetchAgentCard J C baseURL w =
     (let cardURL = baseURL @ ''/.well-known/a2a-agent-card'' in
      case http_NewRequest C cardURL of
        Some err \<Rightarrow> (Inl (CreateHTTPRequest err), w)
      | None \<Rightarrow>
          (case http_Do C cardURL None w of
             (Inl err, w1) \<Rightarrow> (Inl (HTTPRequestTo cardURL err), w1)
           | (Inr (scode, content), w1) \<Rightarrow>
               if scode \<noteq> 200 then (Inl (HTTPStatus scode cardURL []), w1)
               else (case content of
                 Inl err \<Rightarrow> (Inl (DecodeCard err), w1)
               | Inr b \<Rightarrow> (case js_get_card J b of
                   Inl err \<Rightarrow> (Inl (DecodeCard err), w1)
                 | Inr c \<Rightarrow> (Inr c, w1)))))"

section \<open>The task sender of the daemon\<close>

definition HandleInboundTask ::
  "('db, 'w) router_libs \<Rightarrow> router_inputs \<Rightarrow> (router_error \<Rightarrow> string) \<Rightarrow> peer_id \<Rightarrow> ('p Router \<times> 'db \<times> 'w) task_sender" where
  "HandleInboundTask L i err_text self t s =
     (case s of (r, d, w) \<Rightarrow>
      (case pbt_Messages t of
         [] \<Rightarrow> (Inl ''invalid inbound task: no messages'', s)
       | msg # _ \<Rightarrow>
           (case SendTask L i self (Some msg) (pbt_TargetSkillId t) [] r d w of
              (Inl err, r', d', w') \<Rightarrow> (Inl (''create task: '' @ err_text err), (r', d', w'))
            | (Inr task, r', d', w') \<Rightarrow>
                (Inr \<lparr>pbt_TaskId = task_ID task, pbt_ContextId = ContextID task,
                      pbt_Status = TaskStatusToProto (Status task), pbt_TargetSkillId = TargetSkillID task,
                      pbt_OriginatorPeerId = [], pbt_Messages = pbt_Messages t, pbt_Artifacts = [],
                      pbt_CreatedAt = Some (CreatedAt task), pbt_UpdatedAt = Some (UpdatedAt task)\<rparr>,
                 (r', d', w')))))"

section \<open>Translation there and back\<close>

text \<open>What HTTP can carry: the parts and roles that have a JSON form, and the named statuses.\<close>

definition plain_message :: "pb_Message \<Rightarrow> bool" where
  "plain_message m \<longleftrightarrow> OtherPart \<notin> set (Parts m) \<and> Role m \<in> {MESSAGE_ROLE_USER, MESSAGE_ROLE_AGENT}"

definition plain_task :: "pb_Task \<Rightarrow> bool" where
  "plain_task t \<longleftrightarrow> pbt_TaskId t \<noteq> [] \<and> protoStatusToHTTP (pbt_Status t) \<noteq> ''unknown''
     \<and> (\<forall>m\<in>set (pbt_Messages t). plain_message m) \<and> (\<forall>a\<in>set (pbt_Artifacts t). OtherPart \<notin> set (art_Parts a))"

definition message_content :: "pb_Message \<Rightarrow> pb_MessageRole \<times> pb_Part list" where
  "message_content m = (Role m, Parts m)"

definition same_content :: "pb_Task \<Rightarrow> pb_Task \<Rightarrow> bool" where
  "same_content t t' \<longleftrightarrow> pbt_TaskId t' = pbt_TaskId t \<and> pbt_Status t' = pbt_Status t
     \<and> map message_content (pbt_Messages t') = map message_content (pbt_Messages t)
     \<and> pbt_Artifacts t' = pbt_Artifacts t"

lemma part_roundtrip: "p \<noteq> OtherPart \<Longrightarrow> httpPartToProto (protoPartToHTTP p) = p"
  by (cases p) (simp_all add: httpPartToProto_def empty_part_def)

lemma parts_roundtrip: "OtherPart \<notin> set ps \<Longrightarrow> map (\<lambda>p. httpPartToProto (protoPartToHTTP p)) ps = ps"
  by (induction ps) (auto simp: part_roundtrip)

lemma status_to_http_and_back: "protoStatusToHTTP s \<noteq> ''unknown'' \<Longrightarrow> HTTPStatusToProto (protoStatusToHTTP s) = s"
  by (cases s) (simp_all add: HTTPStatusToProto_def)

lemma message_roundtrip:
  "plain_message m \<Longrightarrow> message_content (HTTPMessageToProto uuid now (ProtoMessageToHTTP m)) = message_content m"
  by (auto simp: plain_message_def message_content_def HTTPMessageToProto_def ProtoMessageToHTTP_def parts_roundtrip comp_def)

lemma messages_roundtrip:
  "\<forall>m\<in>set ms. plain_message m \<Longrightarrow>
   map message_content (messages_to_proto u clock n (map ProtoMessageToHTTP ms)) = map message_content ms"
  by (induction ms arbitrary: n) (simp_all add: message_roundtrip)

lemma artifact_roundtrip: "OtherPart \<notin> set (art_Parts a) \<Longrightarrow> artifact_to_proto (artifact_to_http a) = a"
  by (simp add: artifact_to_proto_def artifact_to_http_def parts_roundtrip comp_def)

lemma task_roundtrip:
  assumes "plain_task t"
  shows "same_content t (httpTaskResultToProto now u clock tid (ProtoTaskToHTTP t))"
proof -
  have "map (\<lambda>a. artifact_to_proto (artifact_to_http a)) (pbt_Artifacts t) = pbt_Artifacts t"
    using assms by (intro map_idI) (simp add: plain_task_def artifact_roundtrip)
  then show ?thesis
    using assms by (simp add: same_content_def plain_task_def httpTaskResultToProto_def ProtoTaskToHTTP_def
        messages_roundtrip status_to_http_and_back comp_def)
qed

section \<open>Properties\<close>

lemma handleSendTask_guarded:
  assumes "bridge_handleSendTask J i h req http_new w = (rw, w')"
  shows "(\<exists>params f w1. js_get_params J (rq_Params req) = Inr params \<and> sender h = Some f
        \<and> bridge_check h (sp_TargetSkillID params) w = (None, w1)
        \<and> w' = snd (f (inbound_task i params) w1)
        \<and> (case fst (f (inbound_task i params) w1) of
             Inl err \<Rightarrow> rw = writeError J (rq_ID req) (-32000) (''internal error: '' @ err) http_new
           | Inr t \<Rightarrow> (case BuildJSONRPCResponse J (rq_ID req) (js_of_task J (ProtoTaskToHTTP t)) of
               Inr b \<Rightarrow> rw = \<lparr>hw_Code = 200, hw_Header = [''Content-Type'' \<mapsto> ''application/json''], hw_Body = b\<rparr>
             | Inl _ \<Rightarrow> rw = writeError J (rq_ID req) (-32000) ''failed to marshal response'' http_new)))
    \<or> (w' = w \<or> (\<exists>skill err. bridge_check h skill w = (Some err, w')))
      \<and> (hw_Code rw = 405 \<or> (\<exists>n c m. c \<in> {-32700, -32601, -32602, -32000} \<and> rw = writeError J n c m http_new))"
proof (cases "sender h")
  case None
  with assms show ?thesis by (auto simp: bridge_handleSendTask_def)
next
  case f: (Some f)
  show ?thesis
  proof (cases "js_get_params J (rq_Params req)")
    case (Inl err)
    with assms f show ?thesis by (auto simp: bridge_handleSendTask_def)
  next
    case params: (Inr params)
    obtain verdict w1 where chk: "bridge_check h (sp_TargetSkillID params) w = (verdict, w1)" by fastforce
    obtain res w2 where sent: "f (inbound_task i params) w1 = (res, w2)" by fastforce
    show ?thesis
    proof (cases verdict)
      case None
      with assms f params chk sent show ?thesis
        by (auto simp: bridge_handleSendTask_def http_Write_def SetHeader_def http_new_def split: sum.splits)
    next
      case (Some err)
      with assms f params chk have "w' = w1 \<and> rw = writeError J (rq_ID req) (-32000) (''access denied: '' @ err) http_new"
        by (simp add: bridge_handleSendTask_def)
      with chk Some show ?thesis by blast
    qed
  qed
qed

text \<open>
  The gate of the HTTP bridge. A request reaches the task sender only when it is a POST of a
  readable JSON-RPC call of \<open>tasks/send\<close> with readable parameters that the policy admits for the
  anonymous source and the requested skill, and then once, with the task built from the parameters;
  the answer is the translated result or the sender's error. Every other request is answered with an
  error, and changes nothing but what the policy itself records.
\<close>

theorem inbound_request_guarded:
  assumes "inbound_ServeHTTP J i h r http_new w = (rw, w')"
  shows "(\<exists>content req params f w1. hr_Method r = ''POST'' \<and> hr_Body r = Inr content
        \<and> js_get_request J (take max_body content) = Inr req \<and> rq_Method req = ''tasks/send''
        \<and> js_get_params J (rq_Params req) = Inr params \<and> sender h = Some f
        \<and> bridge_check h (sp_TargetSkillID params) w = (None, w1)
        \<and> w' = snd (f (inbound_task i params) w1)
        \<and> (case fst (f (inbound_task i params) w1) of
             Inl err \<Rightarrow> rw = writeError J (rq_ID req) (-32000) (''internal error: '' @ err) http_new
           | Inr t \<Rightarrow> (case BuildJSONRPCResponse J (rq_ID req) (js_of_task J (ProtoTaskToHTTP t)) of
               Inr b \<Rightarrow> rw = \<lparr>hw_Code = 200, hw_Header = [''Content-Type'' \<mapsto> ''application/json''], hw_Body = b\<rparr>
             | Inl _ \<Rightarrow> rw = writeError J (rq_ID req) (-32000) ''failed to marshal response'' http_new)))
    \<or> (w' = w \<or> (\<exists>skill err. bridge_check h skill w = (Some err, w')))
      \<and> (hw_Code rw = 405 \<or> (\<exists>n c m. c \<in> {-32700, -32601, -32602, -32000} \<and> rw = writeError J n c m http_new))"
proof (cases "hr_Method r = ''POST''")
  case False
  with assms show ?thesis
    by (auto simp: inbound_ServeHTTP_def http_Error_def http_Write_def SetHeader_def)
next
  case post: True
  show ?thesis
  proof (cases "hr_Body r")
    case (Inl err)
    with assms post show ?thesis by (auto simp: inbound_ServeHTTP_def)
  next
    case content: (Inr content)
    show ?thesis
    proof (cases "js_get_request J (take max_body content)")
      case (Inl err)
      with assms post content show ?thesis by (auto simp: inbound_ServeHTTP_def)
    next
      case req: (Inr req)
      show ?thesis
      proof (cases "rq_Method req = ''tasks/send''")
        case False
        with assms post content req show ?thesis by (auto simp: inbound_ServeHTTP_def)
      next
        case True
        with assms post content req have "bridge_handleSendTask J i h req http_new w = (rw, w')"
          by (simp add: inbound_ServeHTTP_def)
        from handleSendTask_guarded [OF this] post content req True show ?thesis by blast
      qed
    qed
  qed
qed

text \<open>A value that the JSON library carries to the other side, within the size limit.\<close>

definition carries :: "('a \<Rightarrow> string + bytes) \<Rightarrow> (bytes \<Rightarrow> string + 'a) \<Rightarrow> 'a \<Rightarrow> bool" where
  "carries put get x \<longleftrightarrow> (\<exists>b. put x = Inr b \<and> get b = Inr x \<and> length b \<le> max_body)"

lemma carriesE: "carries put get x \<Longrightarrow> (\<And>b. put x = Inr b \<Longrightarrow> get b = Inr x \<Longrightarrow> length b \<le> max_body \<Longrightarrow> P) \<Longrightarrow> P"
  by (auto simp: carries_def)

text \<open>A client whose requests to \<open>url\<close> are answered by the handler \<open>srv\<close>.\<close>

definition talks_to :: "'w http_client \<Rightarrow> string \<Rightarrow> 'w http_handler \<Rightarrow> bool" where
  "talks_to C url srv \<longleftrightarrow> http_NewRequest C url = None \<and>
     (\<forall>b w. http_Do C url (Some b) w =
        (case srv \<lparr>hr_Method = ''POST'', hr_Path = ''/'', hr_Origin = [], hr_Body = Inr b\<rparr> http_new w of
           (rw, w') \<Rightarrow> (Inr (hw_Code rw, Inr (hw_Body rw)), w')))"

definition task_params :: "string \<Rightarrow> pb_Message \<Rightarrow> SendTaskParams" where
  "task_params uuid msg = \<lparr>sp_ID = uuid, sp_Message = ProtoMessageToHTTP msg, sp_TargetSkillID = [], sp_Metadata = Map.empty\<rparr>"


text \<open>Sending to a peer that cannot be reached fails and leaves the created task behind.\<close>

lemma send_tracked_unreachable:
  assumes "\<And>dat w. fst (sendFn L p dat w) \<noteq> None"
  shows "\<exists>e w'. send_tracked L now p env r w = (Some e, r, w')"
proof (cases "pb_Marshal (lib_pb L) env")
  case (Some dat)
  obtain err w' where "sendFn L p dat w = (Some err, w')"
    using assms [of dat w] by (metis not_None_eq prod.collapse)
  with Some show ?thesis by (simp add: send_tracked_def)
qed (simp add: send_tracked_def)

lemma SendTask_unreachable:
  assumes "\<And>dat w. fst (sendFn L p dat w) \<noteq> None"
  shows "\<exists>e r' d' w'. SendTask L ri p msg skill ctx r d w = (Inl e, r', d', w')
    \<and> (\<exists>t. tasks (engine r') (ri_uuid ri) = Some t \<and> Status t = StatusSubmitted)"
proof -
  obtain t e' d' where c: "CreateTask (lib_bolt L) (lib_json L) (ri_uuid ri) (ri_clock ri 0) (ri_clock ri 1) ctx skill ''local'' (engine r) d = (t, e', d')"
    by (metis prod_cases3)
  then have "tasks e' (ri_uuid ri) = Some t \<and> Status t = StatusSubmitted"
    by (auto simp: CreateTask_def Let_def)
  moreover obtain e w' where "send_tracked L (ri_clock ri 3) p
      (InjectTraceContext (ri_trace ri) (mk_envelope (ri_uuid2 ri) ENVELOPE_TYPE_SEND_TASK (ri_clock ri 2)
        (PSendTask \<lparr>st_TaskId = task_ID t, st_ContextId = ctx, st_Message = msg, st_TargetSkillId = skill\<rparr>)))
      (r\<lparr>engine := e'\<rparr>) w = (Some e, r\<lparr>engine := e'\<rparr>, w')"
    using send_tracked_unreachable [OF assms] by blast
  ultimately show ?thesis by (simp add: SendTask_def c [simplified] Let_def)
qed

text \<open>
  HTTP tasks and self-dialling. The daemon's task sender posts the task to the node's own peer
  identifier. When the network refuses to dial the node itself, as libp2p does, every well-formed
  \<open>tasks/send\<close> request that the policy admits is answered with an internal error, although a task in the
  submitted state was created and stays in the engine.
\<close>

theorem http_tasks_never_accepted:
  assumes "\<And>dat w. fst (sendFn L self dat w) \<noteq> None"
    and "sender h = Some (HandleInboundTask L ri err_text self)"
    and "hr_Method r = ''POST''" and "hr_Body r = Inr content" and "js_get_request J (take max_body content) = Inr req"
    and "rq_Method req = ''tasks/send''" and "js_get_params J (rq_Params req) = Inr params"
    and "bridge_check h (sp_TargetSkillID params) (ro, d, w) = (None, (ro, d, w))"
    and "inbound_ServeHTTP J i h r http_new (ro, d, w) = (rw, (ro', d', w'))"
  shows "(\<exists>err. rw = writeError J (rq_ID req) (-32000) (''internal error: create task: '' @ err) http_new)
    \<and> (\<exists>t. tasks (engine ro') (ri_uuid ri) = Some t \<and> Status t = StatusSubmitted)"
proof -
  let ?t = "inbound_task i params"
  obtain e r1 d1 w1 where sent: "SendTask L ri self (Some (hd (pbt_Messages ?t))) (sp_TargetSkillID params) [] ro d w = (Inl e, r1, d1, w1)"
    and eng: "\<exists>t. tasks (engine r1) (ri_uuid ri) = Some t \<and> Status t = StatusSubmitted"
    using SendTask_unreachable [OF assms(1)] by blast
  have "HandleInboundTask L ri err_text self ?t (ro, d, w) = (Inl (''create task: '' @ err_text e), (r1, d1, w1))"
    using sent by (simp add: HandleInboundTask_def inbound_task_def)
  then have "inbound_ServeHTTP J i h r http_new (ro, d, w) =
      (writeError J (rq_ID req) (-32000) (''internal error: create task: '' @ err_text e) http_new, (r1, d1, w1))"
    using assms(2-8) by (simp add: inbound_ServeHTTP_def bridge_handleSendTask_def)
  with assms(9) eng show ?thesis by auto
qed

section \<open>An exchange\<close>

definition one_put :: "'a \<Rightarrow> bytes \<Rightarrow> 'a \<Rightarrow> string + bytes" where
  "one_put x b y = (if y = x then Inr b else Inl ''unsupported value'')"

definition one_get :: "'a \<Rightarrow> bytes \<Rightarrow> bytes \<Rightarrow> string + 'a" where
  "one_get x b c = (if c = b then Inr x else Inl ''invalid character'')"

definition demo_http_msg :: pb_Message where
  "demo_http_msg = \<lparr>MessageId = ''m'', Role = MESSAGE_ROLE_AGENT, Parts = [TextPart ''hi'', UrlPart ''http://x/'' ''f''], msg_CreatedAt = None\<rparr>"

definition demo_bridge_inputs :: bridge_inputs where
  "demo_bridge_inputs = \<lparr>bi_task_uuid = ''t'', bi_msg_uuid = ''m2'', bi_msg_now = 1, bi_now = 2\<rparr>"

definition demo_http_task :: pb_Task where
  "demo_http_task = inbound_task demo_bridge_inputs (task_params ''u'' demo_http_msg)"

definition demo_http_request :: A2AHTTPRequest where
  "demo_http_request = \<lparr>rq_JSONRPC = ''2.0'', rq_ID = JString ''u'', rq_Method = ''tasks/send'', rq_Params = [2]\<rparr>"

definition demo_http_answer :: A2AHTTPResponse where
  "demo_http_answer = \<lparr>rs_JSONRPC = ''2.0'', rs_ID = JString ''u'', rs_Result = JString ''task'', rs_Error = None\<rparr>"

definition demo_json :: json_lib where
  "demo_json = \<lparr>js_get_request = one_get demo_http_request [1], js_put_request = one_put demo_http_request [1],
     js_get_params = one_get (task_params ''u'' demo_http_msg) [2], js_put_params = one_put (task_params ''u'' demo_http_msg) [2],
     js_get_response = one_get demo_http_answer [3], js_put_response = one_put demo_http_answer [3],
     js_of_task = (\<lambda>_. JString ''task''), js_put_any = one_put (JString ''task'') [4],
     js_get_task = one_get (ProtoTaskToHTTP demo_http_task) [4],
     js_put_card = (\<lambda>_. None), js_get_card = (\<lambda>_. Inl ''unsupported value'')\<rparr>"

definition demo_handler :: "pb_Task list InboundHandler" where
  "demo_handler = NewInboundHandler (Some (\<lambda>t w. (Inr t, w @ [t])))"

definition demo_http_client :: "pb_Task list http_client" where
  "demo_http_client = \<lparr>http_NewRequest = (\<lambda>_. None),
     http_Do = (\<lambda>url b w. case inbound_ServeHTTP demo_json demo_bridge_inputs demo_handler
        \<lparr>hr_Method = ''POST'', hr_Path = ''/'', hr_Origin = [], hr_Body = Inr (case b of None \<Rightarrow> [] | Some x \<Rightarrow> x)\<rparr> http_new w of
           (rw, w') \<Rightarrow> (Inr (hw_Code rw, Inr (hw_Body rw)), w'))\<rparr>"

lemma demo_talks: "talks_to demo_http_client url (bridge_NewServer [''*''] (inbound_ServeHTTP demo_json demo_bridge_inputs demo_handler) c)"
  by (simp add: talks_to_def demo_http_client_def bridge_NewServer_def corsMiddleware_def bridge_mux_def)

lemma demo_plain: "plain_message demo_http_msg" "plain_task demo_http_task"
  by (simp_all add: plain_message_def demo_http_msg_def plain_task_def demo_http_task_def inbound_task_def
      task_params_def HTTPMessageToProto_def ProtoMessageToHTTP_def httpPartToProto_def empty_part_def)

lemma demo_carries: "length b \<le> 5 \<Longrightarrow> carries (one_put x b) (one_get x b) x"
  by (simp add: carries_def one_put_def one_get_def max_body_def)


theorem inbound_request_guarded_witness:
  "\<exists>rw. inbound_ServeHTTP demo_json demo_bridge_inputs demo_handler
      \<lparr>hr_Method = ''GET'', hr_Path = ''/'', hr_Origin = [], hr_Body = Inr [1]\<rparr> http_new [] = (rw, [])"
proof -
  obtain rw w' where e: "inbound_ServeHTTP demo_json demo_bridge_inputs demo_handler
      \<lparr>hr_Method = ''GET'', hr_Path = ''/'', hr_Origin = [], hr_Body = Inr [1]\<rparr> http_new [] = (rw, w')" by fastforce
  from inbound_request_guarded [OF e] have "w' = []"
    by (auto simp: bridge_check_def demo_handler_def NewInboundHandler_def)
  with e show ?thesis by blast
qed

definition self_dial_libs :: "(mem_db, unit) router_libs" where
  "self_dial_libs = \<lparr>lib_bolt = mem_bolt, lib_json = demo_codec, lib_pb = pair_codec (cancel_envelope ''k'') (complete_envelope ''k''),
     sendFn = (\<lambda>p dat w. (Some ''dial to self attempted'', w)), peerCardFn = None\<rparr>"

theorem http_tasks_never_accepted_witness:
  "\<exists>rw s'. inbound_ServeHTTP demo_json demo_bridge_inputs
      (NewInboundHandler (Some (HandleInboundTask self_dial_libs demo_router_inputs (\<lambda>_. ''unreachable'') ''self'')))
      \<lparr>hr_Method = ''POST'', hr_Path = ''/'', hr_Origin = [], hr_Body = Inr [1]\<rparr> http_new (demo_router, mem_empty, ()) = (rw, s')
    \<and> (\<exists>err. rw = writeError demo_json (JString ''u'') (-32000) (''internal error: create task: '' @ err) http_new)"
proof -
  let ?h = "NewInboundHandler (Some (HandleInboundTask self_dial_libs demo_router_inputs (\<lambda>_. ''unreachable'') ''self''))
    :: (unit Router \<times> mem_db \<times> unit) InboundHandler"
  let ?r = "\<lparr>hr_Method = ''POST'', hr_Path = ''/'', hr_Origin = [], hr_Body = Inr [1]\<rparr>"
  obtain rw ro' d' w' where e: "inbound_ServeHTTP demo_json demo_bridge_inputs ?h ?r http_new (demo_router, mem_empty, ()) = (rw, (ro', d', w'))"
    by (metis prod_cases4)
  have "(\<exists>err. rw = writeError demo_json (rq_ID demo_http_request) (-32000) (''internal error: create task: '' @ err) http_new)
    \<and> (\<exists>t. tasks (engine ro') (ri_uuid demo_router_inputs) = Some t \<and> Status t = StatusSubmitted)"
    by (rule http_tasks_never_accepted [OF _ _ _ _ _ _ _ _ e,
          where content = "[1]" and params = "task_params ''u'' demo_http_msg" and L = self_dial_libs])
      (simp_all add: self_dial_libs_def NewInboundHandler_def demo_json_def one_get_def max_body_def
        demo_http_request_def bridge_check_def)
  with e show ?thesis by (auto simp: demo_http_request_def)
qed

end
