(* ===== verification/Daemon.thy ===== *)
theory Daemon
  imports RouterFacts Host Config Bridge
begin

text \<open>
  The wiring of \<^verbatim>\<open>cmd/agentanycastd/main.go\<close>: the send function that falls back to the offline queue,
  the callback for exhausted retries, what happens when a peer connects, and the installation of the
  policies. The world that the router's send function acts on is the database together with the
  network.
\<close>

section \<open>Sending\<close>

type_synonym ('db, 'n) daemon_world = "'db \<times> 'n"

definition daemon_sendFn ::
  "'db bolt_ops \<Rightarrow> pb_codec \<Rightarrow> gotime \<Rightarrow> string \<Rightarrow> 'n send_func \<Rightarrow> ('db, 'n) daemon_world send_func" where
  "daemon_sendFn B P now uuid net_send pid dat w =
     (case net_send pid dat (snd w) of
        (Some err, n') \<Rightarrow>
          (let envID = ExtractEnvelopeID P uuid dat in
           (Some err, (snd (Enqueue B now pid envID dat (fst w)), n')))
      | (None, n') \<Rightarrow> (None, (fst w, n')))"

definition daemon_onMaxRetries ::
  "'db bolt_ops \<Rightarrow> gotime \<Rightarrow> ('db, 'n) daemon_world max_retries_func" where
  "daemon_onMaxRetries B now tgt envID dat w = (snd (Enqueue B now tgt envID dat (fst w)), snd w)"

section \<open>A peer connects\<close>

text \<open>The card exchange is whatever \<open>exchange\<close> does; then the queue for the peer is flushed.\<close>

definition OnPeerConnected ::
  "'db bolt_ops \<Rightarrow> OfflineQueue \<Rightarrow> (string \<Rightarrow> gotime) \<Rightarrow> string list \<Rightarrow> bytes option \<Rightarrow>
   (peer_id \<Rightarrow> bytes \<Rightarrow> ('db, 'n) daemon_world \<Rightarrow> ('db, 'n) daemon_world) \<Rightarrow> 'n send_func \<Rightarrow> peer_id \<Rightarrow>
   ('db, 'n) daemon_world \<Rightarrow> queue_error option \<times> ('db, 'n) daemon_world" where
  "OnPeerConnected B q clock order localCard exchange net_send pid w =
     (let w1 = (case localCard of None \<Rightarrow> w | Some own \<Rightarrow> exchange pid own w) in
      case FlushQueue B q clock order pid (net_send pid) (fst w1) (snd w1) of
        (err, d', n') \<Rightarrow> (err, (d', n')))"

section \<open>Policies\<close>

text \<open>Which policies the daemon installs for a configuration. \<open>open_file\<close> opens the audit log; a failure
  ends the daemon.\<close>

definition install_policies ::
  "(string \<Rightarrow> string + 'f) \<Rightarrow> PolicyConfig \<Rightarrow> ('l, 'f, 'w) Core \<Rightarrow> string + ('l, 'f, 'w) Core" where
  "install_policies open_file p c =
     (let c = (if length (ACLRules p) > 0 then SetACLManager (Some (ACLRules p)) c else c);
          c = (if cfg_DefaultRPS (RateLimits p) > 0
               then SetRateLimiter (Some (NewRateLimiter (RateLimits p))) c else c)
      in if AuditLogPath p \<noteq> [] then
           (case NewAuditLogger open_file (AuditLogPath p) of
              Inl err \<Rightarrow> Inl err
            | Inr al \<Rightarrow> Inr (SetAuditLogger al c))
         else Inr c)"

text \<open>\<open>CheckInbound\<close> of the core as the router's inbound policy. The \<open>n\<close>-th check takes its clock from
  \<open>feed n\<close>.\<close>

definition core_policy ::
  "('l, 'f) core_libs \<Rightarrow> (nat \<Rightarrow> core_inputs) \<Rightarrow> (nat \<times> ('l, 'f, 'w) Core) inbound_policy" where
  "core_policy L feed src skill envID s =
     (case CheckInbound L (feed (fst s)) src skill envID (snd s) of
        (err, c') \<Rightarrow> (err, (Suc (fst s), c')))"

text \<open>The same policy on the HTTP bridge. Its world is the policy's state and the rest.\<close>

definition http_policy ::
  "(core_error \<Rightarrow> string) \<Rightarrow> 's inbound_policy \<Rightarrow> ('s \<times> 'x) bridge_policy" where
  "http_policy err_text check src skill envID w =
     (case check src skill envID (fst w) of (err, s') \<Rightarrow> (map_option err_text err, (s', snd w)))"

section \<open>The policies guard the engine\<close>

text \<open>
  What the router and the bridge rely on: a check that refuses whatever the policy denies. What is
  refused reaches neither the engine nor the task sender, whatever the policy is.
\<close>

locale inbound_gate =
  fixes check :: "'s inbound_policy"
    and denies :: "AgentIdentity \<Rightarrow> string \<Rightarrow> 's \<Rightarrow> bool"
  assumes refuses: "denies src skill s \<Longrightarrow> \<exists>err s'. check src skill eid s = (Some err, s')"
begin

lemma message_stopped:
  assumes "inboundPolicy r = Some check" and "pb_Unmarshal (lib_pb RL) dat = Some env"
    and "env_Type env \<noteq> ENVELOPE_TYPE_ACK"
    and "denies \<lparr>PeerID = p, DIDKey = []\<rparr> (extractSkillID env) (policy_state r)"
  shows "HandleMessage RL i p dat (r, d, w) =
    (r\<lparr>policy_state := snd (check \<lparr>PeerID = p, DIDKey = []\<rparr> (extractSkillID env) (EnvelopeId env) (policy_state r))\<rparr>, d, w)"
proof -
  obtain err s' where "check \<lparr>PeerID = p, DIDKey = []\<rparr> (extractSkillID env) (EnvelopeId env) (policy_state r) = (Some err, s')"
    using refuses [OF assms(4)] by blast
  with assms show ?thesis by (simp add: HandleMessage_def policy_check_def)
qed

lemma request_stopped:
  assumes "policy h = Some (http_policy err_text check)" and "sender h = Some f"
    and "js_get_params J (rq_Params req) = Inr params"
    and "denies \<lparr>PeerID = [], DIDKey = []\<rparr> (sp_TargetSkillID params) s"
  shows "\<exists>err. check \<lparr>PeerID = [], DIDKey = []\<rparr> (sp_TargetSkillID params) [] s =
      (Some err, snd (check \<lparr>PeerID = [], DIDKey = []\<rparr> (sp_TargetSkillID params) [] s))
    \<and> bridge_handleSendTask J i h req rw (s, x) =
      (writeError J (rq_ID req) (-32000) (''access denied: '' @ err_text err) rw,
       (snd (check \<lparr>PeerID = [], DIDKey = []\<rparr> (sp_TargetSkillID params) [] s), x))"
proof -
  obtain err s' where "check \<lparr>PeerID = [], DIDKey = []\<rparr> (sp_TargetSkillID params) [] s = (Some err, s')"
    using refuses [OF assms(4)] by blast
  with assms show ?thesis
    by (auto simp: bridge_handleSendTask_def bridge_check_def http_policy_def)
qed

end

lemma CheckInbound_verdict:
  assumes "CheckInbound L i src skill eid c = (err, c')"
  shows "(err = None \<longleftrightarrow> verdict_of L (in_now i) src skill c = Permit) \<and>
    audit c' = audit_Log (lib_encode L) (in_stamp i)
      (no_event\<lparr>ev_Source := source_id src, ev_Skill := skill, ev_EnvID := eid, ev_Transport := ''inbound'',
                ev_Action := verdict_action (verdict_of L (in_now i) src skill c)\<rparr>) (audit c)"
  using assms rate_check_frame [of L "in_now i" src c]
  by (auto simp: CheckInbound_def verdict_of_def verdict_action_def Let_def
      split: option.splits prod.splits bool.splits if_splits)

text \<open>The Connection Core is such a gate: it refuses whenever its verdict is not to permit.\<close>

definition core_denies ::
  "('l, 'f) core_libs \<Rightarrow> (nat \<Rightarrow> core_inputs) \<Rightarrow> AgentIdentity \<Rightarrow> string \<Rightarrow> nat \<times> ('l, 'f, 'w) Core \<Rightarrow> bool" where
  "core_denies L feed src skill s \<longleftrightarrow> verdict_of L (in_now (feed (fst s))) src skill (snd s) \<noteq> Permit"

interpretation core_gate: inbound_gate "core_policy L feed" "core_denies L feed" for L feed
proof (unfold_locales, goal_cases)
  case (1 src skill s eid)
  obtain err c' where c: "CheckInbound L (feed (fst s)) src skill eid (snd s) = (err, c')" by fastforce
  from CheckInbound_verdict [OF c] 1 show ?case
    by (cases err) (simp_all add: core_policy_def core_denies_def c)
qed

text \<open>
  C9. Policies cover inbound traffic end to end. With the Connection Core installed as the router's
  policy, a message of a peer that the access rules deny, or that is over its rate, reaches neither the
  engine nor the application: no task, subscriber, queue or pending message changes, nothing is stored
  and nothing is sent back; and exactly one audit event records the decision under the peer's
  identifier.
\<close>

theorem inbound_policy_enforced:
  assumes "inboundPolicy r = Some (core_policy L feed)" and "policy_state r = (n, c)"
    and "pb_Unmarshal (lib_pb RL) dat = Some env" and "env_Type env \<noteq> ENVELOPE_TYPE_ACK"
    and "v = verdict_of L (in_now (feed n)) \<lparr>PeerID = p, DIDKey = []\<rparr> (extractSkillID env) c" and "v \<noteq> Permit"
    and "HandleMessage RL i p dat (r, d, w) = (r', d', w')"
  shows "d' = d \<and> w' = w \<and> engine r' = engine r \<and> subs r' = subs r \<and> ackTracker r' = ackTracker r
    \<and> incomingCh r' = incomingCh r \<and> dedupCache r' = dedupCache r
    \<and> audit (snd (policy_state r')) = audit_Log (lib_encode L) (in_stamp (feed n))
        (no_event\<lparr>ev_Source := p, ev_Skill := extractSkillID env, ev_EnvID := EnvelopeId env,
                  ev_Transport := ''inbound'', ev_Action := verdict_action v\<rparr>) (audit c)"
proof -
  obtain err c' where ci: "CheckInbound L (feed n) \<lparr>PeerID = p, DIDKey = []\<rparr> (extractSkillID env) (EnvelopeId env) c = (err, c')"
    by fastforce
  note ver = CheckInbound_verdict [OF ci]
  have "core_denies L feed \<lparr>PeerID = p, DIDKey = []\<rparr> (extractSkillID env) (policy_state r)"
    using assms(2,5,6) by (simp add: core_denies_def)
  from core_gate.message_stopped [OF assms(1,3,4) this, of i d w]
  have "r' = r\<lparr>policy_state := (Suc n, c')\<rparr> \<and> d' = d \<and> w' = w"
    using assms(2,7) ci by (simp add: core_policy_def)
  then show ?thesis
    using ver assms(5) by (simp add: source_id_def)
qed

definition demo_guarded_router :: "(nat \<times> (bucket, AuditEvent list, unit) Core) Router" where
  "demo_guarded_router = SetInboundPolicy (core_policy demo_libs (\<lambda>_. demo_inputs))
     (NewRouter \<lparr>tasks = [''k'' \<mapsto> demo_task], has_store = False, onTaskUpdate = None\<rparr>
       (0, SetAuditLogger (Some []) (SetACLManager
          (Some [\<lparr>rule_Source = ''*'', rule_Skill = ''*'', rule_Allow = False\<rparr>]) core_New)))"

theorem inbound_policy_enforced_witness:
  "case HandleMessage (demo_router_libs (pair_codec (cancel_envelope ''k'') (complete_envelope ''k'')))
      demo_router_inputs ''mallory'' [0] (demo_guarded_router, mem_empty, []) of
     (r', d', w') \<Rightarrow> tasks (engine r') ''k'' = Some demo_task \<and> w' = [] \<and>
       map ev_Action (the (audit (snd (policy_state r')))) = [''deny'']"
proof -
  define RL where "RL = demo_router_libs (pair_codec (cancel_envelope ''k'') (complete_envelope ''k''))"
  obtain r' d' w' where h: "HandleMessage RL demo_router_inputs ''mallory'' [0] (demo_guarded_router, mem_empty, []) = (r', d', w')"
    by (metis prod_cases3)
  define c :: "(bucket, AuditEvent list, unit) Core" where "c = SetAuditLogger (Some []) (SetACLManager
      (Some [\<lparr>rule_Source = ''*'', rule_Skill = ''*'', rule_Allow = False\<rparr>]) core_New)"
  have pol: "inboundPolicy demo_guarded_router = Some (core_policy demo_libs (\<lambda>_. demo_inputs))"
    "policy_state demo_guarded_router = (0, c)"
    by (simp_all add: demo_guarded_router_def SetInboundPolicy_def NewRouter_def c_def)
  have u: "pb_Unmarshal (lib_pb RL) [0] = Some (cancel_envelope ''k'')"
    by (simp add: RL_def demo_router_libs_def pair_codec_def)
  have cc: "acl c = Some [\<lparr>rule_Source = ''*'', rule_Skill = ''*'', rule_Allow = False\<rparr>]" "audit c = Some []"
    by (simp_all add: c_def SetAuditLogger_def SetACLManager_def)
  obtain e where v: "verdict_of demo_libs (in_now demo_inputs) \<lparr>PeerID = ''mallory'', DIDKey = []\<rparr> (extractSkillID (cancel_envelope ''k'')) c = DenyACL e"
    by (simp add: verdict_of_def acl_check_def cc CheckAccess_def matchGlob_def Let_def)
  have t: "env_Type (cancel_envelope ''k'') \<noteq> ENVELOPE_TYPE_ACK"
    by (simp add: cancel_envelope_def mk_envelope_def)
  have task: "tasks (engine demo_guarded_router) ''k'' = Some demo_task"
    by (simp add: demo_guarded_router_def SetInboundPolicy_def NewRouter_def SetOnTaskUpdate_def)
  show ?thesis
    using inbound_policy_enforced [OF pol u t refl _ h] v h cc task
    by (simp add: RL_def verdict_action_def audit_Log_def demo_libs_def no_event_def)
qed

section \<open>Failed sends are delivered later\<close>

lemma delivered_member: "k \<in> set ks \<Longrightarrow> f k = Deliver dat \<Longrightarrow> dat \<in> set (delivered (map f ks))"
proof (induction ks)
  case (Cons a ks)
  then show ?case by (cases "f a") auto
qed simp



lemma rate_check_anonymous: "rate_check L now \<lparr>PeerID = [], DIDKey = []\<rparr> c = (True, c)"
  by (auto simp: rate_check_def Allow_def source_id_def split: option.splits)

text \<open>
  Policies on the HTTP bridge. For a well-formed \<open>tasks/send\<close> request the access rules alone decide:
  when they deny the skill to the anonymous source, the task sender is not called, the client gets
  the refusal, and one audit event records it; otherwise the sender gets the task, after the audit
  event. The rate limiter has no say, since HTTP requests carry no source.
\<close>

theorem http_policy_enforced:
  assumes "policy h = Some (http_policy err_text (core_policy L feed))" and "sender h = Some f"
    and "hr_Method r = ''POST''" and "hr_Body r = Inr content" and "js_get_request J (take max_body content) = Inr req"
    and "rq_Method req = ''tasks/send''" and "js_get_params J (rq_Params req) = Inr params"
    and "logged = (\<lambda>act. c\<lparr>audit := audit_Log (lib_encode L) (in_stamp (feed n))
           (no_event\<lparr>ev_Skill := sp_TargetSkillID params, ev_Transport := ''inbound'', ev_Action := act\<rparr>) (audit c)\<rparr>)"
  shows "case acl_check \<lparr>PeerID = [], DIDKey = []\<rparr> (sp_TargetSkillID params) c of
      Some e \<Rightarrow> inbound_ServeHTTP J i h r http_new ((n, c), x) =
        (writeError J (rq_ID req) (-32000) (''access denied: '' @ err_text (ErrACL e)) http_new, ((Suc n, logged ''deny''), x))
    | None \<Rightarrow> snd (inbound_ServeHTTP J i h r http_new ((n, c), x)) =
        snd (f (inbound_task i params) ((Suc n, logged ''allow''), x))"
proof -
  have serve: "inbound_ServeHTTP J i h r http_new w = bridge_handleSendTask J i h req http_new w" for w
    using assms(3-6) by (simp add: inbound_ServeHTTP_def)
  let ?anon = "\<lparr>PeerID = [], DIDKey = []\<rparr>"
  show ?thesis
  proof (cases "acl_check ?anon (sp_TargetSkillID params) c")
    case None
    then have "core_policy L feed ?anon (sp_TargetSkillID params) [] (n, c) = (None, (Suc n, logged ''allow''))"
      by (simp add: core_policy_def CheckInbound_def rate_check_anonymous core_Log_def source_id_def assms(8) no_event_def)
    then have "bridge_check h (sp_TargetSkillID params) ((n, c), x) = (None, ((Suc n, logged ''allow''), x))"
      by (simp add: bridge_check_def assms(1) http_policy_def)
    then show ?thesis
      using None assms(2,7) by (simp add: serve bridge_handleSendTask_def split: sum.splits prod.splits)
  next
    case (Some e)
    have pol: "core_policy L feed ?anon (sp_TargetSkillID params) [] (n, c) = (Some (ErrACL e), (Suc n, logged ''deny''))"
      using Some by (simp add: core_policy_def CheckInbound_def core_Log_def source_id_def assms(8) no_event_def)
    have "core_denies L feed ?anon (sp_TargetSkillID params) (n, c)"
      using Some by (simp add: core_denies_def verdict_of_def)
    from core_gate.request_stopped [OF assms(1,2,7) this, of i http_new x] pol Some show ?thesis
      by (simp add: serve)
  qed
qed

definition demo_closed_handler :: "((nat \<times> (bucket, AuditEvent list, unit) Core) \<times> pb_Task list) InboundHandler" where
  "demo_closed_handler = bridge_SetInboundPolicy (Some (http_policy (\<lambda>_. ''denied'') (core_policy demo_libs (\<lambda>_. demo_inputs))))
     (NewInboundHandler (Some (\<lambda>t (s, ts). (Inr t, (s, ts @ [t])))))"

theorem http_policy_enforced_witness:
  "snd (snd (inbound_ServeHTTP demo_json demo_bridge_inputs demo_closed_handler
      \<lparr>hr_Method = ''POST'', hr_Path = ''/'', hr_Origin = [], hr_Body = Inr [1]\<rparr> http_new
      ((0, SetACLManager (Some [\<lparr>rule_Source = ''*'', rule_Skill = ''*'', rule_Allow = False\<rparr>]) core_New), []))) = []"
proof -
  let ?c = "SetACLManager (Some [\<lparr>rule_Source = ''*'', rule_Skill = ''*'', rule_Allow = False\<rparr>]) core_New
    :: (bucket, AuditEvent list, unit) Core"
  obtain e where "acl_check \<lparr>PeerID = [], DIDKey = []\<rparr> [] ?c = Some e"
    by (simp add: acl_check_def SetACLManager_def CheckAccess_def matchGlob_def Let_def)
  with http_policy_enforced [where h = demo_closed_handler and err_text = "\<lambda>_. ''denied''" and L = demo_libs
      and feed = "\<lambda>_. demo_inputs" and r = "\<lparr>hr_Method = ''POST'', hr_Path = ''/'', hr_Origin = [], hr_Body = Inr [1]\<rparr>"
      and content = "[1]" and J = demo_json and req = demo_http_request and params = "task_params ''u'' demo_http_msg"
      and c = ?c and n = 0 and i = demo_bridge_inputs and x = "[]", OF _ _ _ _ _ _ _ refl]
  show ?thesis
    by (simp add: demo_closed_handler_def bridge_SetInboundPolicy_def NewInboundHandler_def demo_json_def one_get_def
        max_body_def demo_http_request_def task_params_def)
qed

text \<open>
  Rate limits need the default rate. The daemon installs the limiter only when the configuration sets
  a positive default rate; a configuration with per-source overrides alone runs without any limit, and
  the fallback of 100 calls per second inside \<open>NewRateLimiter\<close> is never used.
\<close>

theorem overrides_alone_are_ignored:
  assumes "cfg_DefaultRPS (RateLimits p) \<le> 0" and "rateLimit c = None" and "install_policies open_file p c = Inr c'"
  shows "rateLimit c' = None \<and> fst (rate_check L now src c') \<and> snd (rate_check L now src c') = c'"
  using assms
  by (auto simp: install_policies_def SetACLManager_def SetAuditLogger_def NewAuditLogger_def rate_check_def Let_def
      split: if_splits sum.splits)

theorem overrides_alone_are_ignored_witness:
  "\<exists>c'. install_policies (\<lambda>_. Inr []) \<lparr>AuditLogPath = [], ACLRules = [],
       RateLimits = \<lparr>cfg_DefaultRPS = 0, cfg_Overrides = [\<lparr>over_Source = ''mallory'', over_RPS = 1\<rparr>]\<rparr>\<rparr> demo_core = Inr c'
     \<and> fst (rate_check demo_libs 0 \<lparr>PeerID = ''mallory'', DIDKey = []\<rparr> c')"
proof -
  let ?p = "\<lparr>AuditLogPath = [], ACLRules = [],
       RateLimits = \<lparr>cfg_DefaultRPS = 0, cfg_Overrides = [\<lparr>over_Source = ''mallory'', over_RPS = 1\<rparr>]\<rparr>\<rparr>"
  have i: "install_policies (\<lambda>_. Inr []) ?p demo_core = Inr demo_core"
    by (simp add: install_policies_def)
  have "rateLimit demo_core = None"
    by (simp add: demo_core_def SetEncryptionKey_def RegisterTransport_def core_New_def)
  with overrides_alone_are_ignored [OF _ _ i, of demo_libs 0] i show ?thesis by simp
qed

end
