(* ===== verification/StreamMgr.thy ===== *)
theory StreamMgr
  imports Prelude "HOL-Library.Sublist"
begin

text \<open>
  Streaming artifacts, \<^verbatim>\<open>internal/a2a/stream.go\<close>, with the gRPC handler that feeds it
  (\<^verbatim>\<open>SendStreamingArtifact\<close> of \<^verbatim>\<open>pkg/grpcserver/server.go\<close>).

  Sessions and channels are shared by reference: the cleanup function that \<open>Subscribe\<close> returns keeps
  its session after the manager has dropped it. So the state is a store: sessions and channels under
  references, the manager's table from task identifiers to session references. A channel that is
  closed has no queue any more; sending to it or closing it again panics.
\<close>

section \<open>Messages\<close>

text \<open>The generated messages with the fields that are read here; \<open>chunk_body\<close> is the rest of a chunk.\<close>

record pb_StreamStart =
  start_TaskId :: string
  start_ArtifactId :: string
  start_ArtifactName :: string
  start_MediaType :: string
  start_TotalChunks :: "32 word"

record pb_StreamChunk =
  chunk_TaskId :: string
  chunk_body :: bytes

record pb_StreamEnd =
  end_TaskId :: string
  end_ArtifactId :: string
  end_Reason :: string

datatype stream_event =
    StreamStart pb_StreamStart
  | StreamChunk pb_StreamChunk
  | StreamEnd pb_StreamEnd

fun event_task :: "stream_event \<Rightarrow> string" where
  "event_task (StreamStart s) = start_TaskId s"
| "event_task (StreamChunk c) = chunk_TaskId c"
| "event_task (StreamEnd e) = end_TaskId e"

fun is_end :: "stream_event \<Rightarrow> bool" where
  "is_end (StreamEnd _) = True"
| "is_end _ = False"

section \<open>State\<close>

type_synonym chan_ref = nat
type_synonym session_ref = nat

record StreamSession =
  ses_TaskID :: string
  ses_ArtifactID :: string
  ses_ArtifactName :: string
  ses_MediaType :: string
  TotalChunks :: "32 word"
  Received :: "32 word"
  Subscribers :: "chan_ref list"

record StreamManager =
  streams :: "string \<rightharpoonup> session_ref"
  sessions :: "session_ref \<rightharpoonup> StreamSession"
  stream_chans :: "chan_ref \<rightharpoonup> stream_event list"
  next_session :: session_ref
  next_chan :: chan_ref
  stream_panic :: bool

definition NewStreamManager :: StreamManager where
  "NewStreamManager = \<lparr>streams = Map.empty, sessions = Map.empty, stream_chans = Map.empty,
     next_session = 0, next_chan = 0, stream_panic = False\<rparr>"

definition new_session :: "string \<Rightarrow> StreamSession" where
  "new_session taskID = \<lparr>ses_TaskID = taskID, ses_ArtifactID = [], ses_ArtifactName = [], ses_MediaType = [],
     TotalChunks = 0, Received = 0, Subscribers = []\<rparr>"

section \<open>The critical sections\<close>

text \<open>What is done under one lock, \<open>m.mu\<close> or \<open>session.mu\<close>, is one atomic function.\<close>

definition open_session :: "string \<Rightarrow> StreamManager \<Rightarrow> session_ref \<times> StreamManager" where
  "open_session taskID m =
     (case streams m taskID of
        Some s \<Rightarrow> (s, m)
      | None \<Rightarrow>
          let s = next_session m
          in (s, m\<lparr>streams := (streams m)(taskID \<mapsto> s), sessions := (sessions m)(s \<mapsto> new_session taskID),
                   next_session := Suc s\<rparr>))"

definition upd_session :: "session_ref \<Rightarrow> (StreamSession \<Rightarrow> StreamSession) \<Rightarrow> StreamManager \<Rightarrow> StreamManager" where
  "upd_session s f m = (case sessions m s of None \<Rightarrow> m | Some ses \<Rightarrow> m\<lparr>sessions := (sessions m)(s \<mapsto> f ses)\<rparr>)"

definition make_chan :: "StreamManager \<Rightarrow> chan_ref \<times> StreamManager" where
  "make_chan m = (let ch = next_chan m in (ch, m\<lparr>stream_chans := (stream_chans m)(ch \<mapsto> []), next_chan := Suc ch\<rparr>))"

definition add_subscriber :: "session_ref \<Rightarrow> chan_ref \<Rightarrow> StreamManager \<Rightarrow> StreamManager" where
  "add_subscriber s ch = upd_session s (\<lambda>ses. ses\<lparr>Subscribers := Subscribers ses @ [ch]\<rparr>)"

definition close_stream_chan :: "chan_ref \<Rightarrow> StreamManager \<Rightarrow> StreamManager" where
  "close_stream_chan ch m =
     (case stream_chans m ch of
        None \<Rightarrow> m\<lparr>stream_panic := True\<rparr>
      | Some _ \<Rightarrow> m\<lparr>stream_chans := (stream_chans m)(ch := None)\<rparr>)"

text \<open>The function that \<open>Subscribe\<close> returns, for its session and its channel.\<close>

definition stream_cleanup :: "session_ref \<Rightarrow> chan_ref \<Rightarrow> StreamManager \<Rightarrow> StreamManager" where
  "stream_cleanup s ch m =
     close_stream_chan ch (upd_session s (\<lambda>ses. ses\<lparr>Subscribers := remove_first ch (Subscribers ses)\<rparr>) m)"

fun send_each :: "stream_event \<Rightarrow> chan_ref list \<Rightarrow> StreamManager \<Rightarrow> StreamManager" where
  "send_each ev [] m = m"
| "send_each ev (ch # chs) m =
     send_each ev chs
       (case stream_chans m ch of
          None \<Rightarrow> m\<lparr>stream_panic := True\<rparr>
        | Some q \<Rightarrow> m\<lparr>stream_chans := (stream_chans m)(ch \<mapsto> try_send 64 ev q)\<rparr>)"

definition broadcast :: "session_ref \<Rightarrow> stream_event \<Rightarrow> StreamManager \<Rightarrow> StreamManager" where
  "broadcast s ev m = (case sessions m s of None \<Rightarrow> m | Some ses \<Rightarrow> send_each ev (Subscribers ses) m)"

definition drop_stream :: "string \<Rightarrow> StreamManager \<Rightarrow> StreamManager" where
  "drop_stream taskID m = m\<lparr>streams := (streams m)(taskID := None)\<rparr>"

section \<open>Operations\<close>

definition Subscribe :: "string \<Rightarrow> StreamManager \<Rightarrow> chan_ref \<times> session_ref \<times> StreamManager" where
  "Subscribe taskID m =
     (case make_chan m of (ch, m1) \<Rightarrow>
      case open_session taskID m1 of (s, m2) \<Rightarrow> (ch, s, add_subscriber s ch m2))"

datatype stream_error = NoActiveStream string

definition start_session :: "pb_StreamStart \<Rightarrow> StreamSession \<Rightarrow> StreamSession" where
  "start_session start ses =
     ses\<lparr>ses_ArtifactID := start_ArtifactId start, ses_ArtifactName := start_ArtifactName start,
         ses_MediaType := start_MediaType start, TotalChunks := start_TotalChunks start, Received := 0\<rparr>"

definition HandleStreamStart :: "pb_StreamStart \<Rightarrow> StreamManager \<Rightarrow> stream_error option \<times> StreamManager" where
  "HandleStreamStart start m =
     (case open_session (start_TaskId start) m of
        (s, m1) \<Rightarrow> (None, broadcast s (StreamStart start) (upd_session s (start_session start) m1)))"

definition HandleStreamChunk :: "pb_StreamChunk \<Rightarrow> StreamManager \<Rightarrow> stream_error option \<times> StreamManager" where
  "HandleStreamChunk chunk m =
     (case streams m (chunk_TaskId chunk) of
        None \<Rightarrow> (Some (NoActiveStream (chunk_TaskId chunk)), m)
      | Some s \<Rightarrow> (None, broadcast s (StreamChunk chunk) (upd_session s (\<lambda>ses. ses\<lparr>Received := Received ses + 1\<rparr>) m)))"

definition HandleStreamEnd :: "pb_StreamEnd \<Rightarrow> StreamManager \<Rightarrow> stream_error option \<times> StreamManager" where
  "HandleStreamEnd e m =
     (case streams m (end_TaskId e) of
        None \<Rightarrow> (Some (NoActiveStream (end_TaskId e)), m)
      | Some s \<Rightarrow> (None, drop_stream (end_TaskId e) (broadcast s (StreamEnd e) m)))"

fun handle_event :: "stream_event \<Rightarrow> StreamManager \<Rightarrow> stream_error option \<times> StreamManager" where
  "handle_event (StreamStart s) m = HandleStreamStart s m"
| "handle_event (StreamChunk c) m = HandleStreamChunk c m"
| "handle_event (StreamEnd e) m = HandleStreamEnd e m"

text \<open>The gRPC handler: the requests until the client closes, the first error ends the call. A request
  without an event is skipped.\<close>

fun SendStreamingArtifact :: "stream_event option list \<Rightarrow> StreamManager \<Rightarrow> stream_error option \<times> StreamManager" where
  "SendStreamingArtifact [] m = (None, m)"
| "SendStreamingArtifact (None # reqs) m = SendStreamingArtifact reqs m"
| "SendStreamingArtifact (Some ev # reqs) m =
     (case handle_event ev m of
        (Some err, m') \<Rightarrow> (Some err, m')
      | (None, m') \<Rightarrow> SendStreamingArtifact reqs m')"

section \<open>Invariant\<close>

text \<open>
  Every subscriber of every session is an open channel, subscribed once and to one session; the
  table points to allocated sessions, queues hold at most 64 events, and nothing has panicked.
\<close>

definition session_subs :: "StreamManager \<Rightarrow> session_ref \<Rightarrow> chan_ref list" where
  "session_subs m s = (case sessions m s of None \<Rightarrow> [] | Some ses \<Rightarrow> Subscribers ses)"

definition channels_ok :: "(session_ref \<Rightarrow> chan_ref list) \<Rightarrow> (chan_ref \<rightharpoonup> stream_event list) \<Rightarrow> bool" where
  "channels_ok ss chs \<longleftrightarrow> (\<forall>s. distinct (ss s)) \<and> (\<forall>s ch. ch \<in> set (ss s) \<longrightarrow> chs ch \<noteq> None)
    \<and> (\<forall>s s' ch. ch \<in> set (ss s) \<longrightarrow> ch \<in> set (ss s') \<longrightarrow> s = s')"

definition table_ok :: "(string \<rightharpoonup> session_ref) \<Rightarrow> (session_ref \<rightharpoonup> StreamSession) \<Rightarrow> bool" where
  "table_ok table ses \<longleftrightarrow> (\<forall>t s. table t = Some s \<longrightarrow> (\<exists>x. ses s = Some x \<and> ses_TaskID x = t))"

definition stream_ok :: "StreamManager \<Rightarrow> bool" where
  "stream_ok m \<longleftrightarrow> \<not> stream_panic m \<and> channels_ok (session_subs m) (stream_chans m)
    \<and> table_ok (streams m) (sessions m)
    \<and> (\<forall>s. sessions m s \<noteq> None \<longrightarrow> s < next_session m)
    \<and> (\<forall>ch q. stream_chans m ch = Some q \<longrightarrow> ch < next_chan m \<and> length q \<le> 64)"

lemma send_each_frame [simp]:
  "streams (send_each ev chs m) = streams m" "sessions (send_each ev chs m) = sessions m"
  "next_session (send_each ev chs m) = next_session m" "next_chan (send_each ev chs m) = next_chan m"
  by (induction ev chs m rule: send_each.induct) (auto split: option.splits)

lemma send_each_chans:
  "distinct chs \<Longrightarrow> stream_chans (send_each ev chs m) ch =
     (if ch \<in> set chs then map_option (try_send 64 ev) (stream_chans m ch) else stream_chans m ch)"
  by (induction ev chs m rule: send_each.induct) (auto split: option.splits)

lemma send_each_panic:
  "distinct chs \<Longrightarrow> stream_panic (send_each ev chs m) \<longleftrightarrow>
     stream_panic m \<or> (\<exists>ch\<in>set chs. stream_chans m ch = None)"
proof (induction ev chs m rule: send_each.induct)
  case (2 ev ch chs m)
  then show ?case by (cases "stream_chans m ch") (auto split: if_splits)
qed simp

section \<open>Interleavings\<close>

text \<open>
  One critical section of one goroutine. A goroutine holds references it obtained before, so the
  session of a step need not be in the manager's table any more. \<open>Subscribe\<close> attaches the channel it
  made; a cleanup function runs once (the gRPC handler defers it); readers take from their channel.
\<close>

inductive stream_step :: "StreamManager \<Rightarrow> StreamManager \<Rightarrow> bool" where
  make: "make_chan m = (ch, m') \<Longrightarrow> stream_step m m'"
| opened: "open_session t m = (s, m') \<Longrightarrow> stream_step m m'"
| attach: "stream_chans m ch \<noteq> None \<Longrightarrow> (\<forall>s'. ch \<notin> set (session_subs m s')) \<Longrightarrow> sessions m s \<noteq> None \<Longrightarrow>
     stream_step m (add_subscriber s ch m)"
| header: "(\<And>ses. Subscribers (f ses) = Subscribers ses \<and> ses_TaskID (f ses) = ses_TaskID ses) \<Longrightarrow> stream_step m (upd_session s f m)"
| send: "stream_step m (broadcast s ev m)"
| dropped: "stream_step m (drop_stream t m)"
| cleaned: "ch \<in> set (session_subs m s) \<Longrightarrow> stream_step m (stream_cleanup s ch m)"
| received: "stream_chans m ch = Some (ev # q) \<Longrightarrow> stream_step m (m\<lparr>stream_chans := (stream_chans m)(ch \<mapsto> q)\<rparr>)"

lemma stream_ok_New: "stream_ok NewStreamManager"
  by (simp add: stream_ok_def channels_ok_def table_ok_def session_subs_def NewStreamManager_def)

lemma session_subs_upd:
  "session_subs (upd_session s f m) =
     (case sessions m s of None \<Rightarrow> session_subs m | Some ses \<Rightarrow> (session_subs m)(s := Subscribers (f ses)))"
  by (auto simp: session_subs_def upd_session_def fun_eq_iff split: option.splits)

lemma upd_session_frame [simp]:
  "streams (upd_session s f m) = streams m" "stream_chans (upd_session s f m) = stream_chans m"
  "next_session (upd_session s f m) = next_session m" "next_chan (upd_session s f m) = next_chan m"
  "stream_panic (upd_session s f m) = stream_panic m"
  "sessions (upd_session s f m) s' = (if s' = s then map_option f (sessions m s) else sessions m s')"
  by (auto simp: upd_session_def split: option.splits)

lemma table_ok_upd:
  assumes "table_ok (streams m) (sessions m)" "\<And>ses. ses_TaskID (f ses) = ses_TaskID ses"
  shows "table_ok (streams m) (sessions (upd_session s f m))"
  unfolding table_ok_def
proof (intro allI impI)
  fix t s' assume "streams m t = Some s'"
  then obtain x where "sessions m s' = Some x" "ses_TaskID x = t"
    using assms(1) by (auto simp: table_ok_def)
  with assms(2) show "\<exists>x. sessions (upd_session s f m) s' = Some x \<and> ses_TaskID x = t"
    by (cases "s' = s") auto
qed

lemma session_subs_chans [simp]: "session_subs (m\<lparr>stream_chans := c\<rparr>) = session_subs m"
  by (simp add: session_subs_def fun_eq_iff)

lemma broadcast_frame [simp]:
  "streams (broadcast s ev m) = streams m" "sessions (broadcast s ev m) = sessions m"
  "next_session (broadcast s ev m) = next_session m" "next_chan (broadcast s ev m) = next_chan m"
  "session_subs (broadcast s ev m) = session_subs m"
  by (auto simp: broadcast_def session_subs_def split: option.splits)

lemma broadcast_eq: "broadcast s ev m = send_each ev (session_subs m s) m"
  by (simp add: broadcast_def session_subs_def split: option.splits)

lemma broadcast_chans:
  assumes "stream_ok m"
  shows "stream_chans (broadcast s ev m) ch =
      (if ch \<in> set (session_subs m s) then map_option (try_send 64 ev) (stream_chans m ch) else stream_chans m ch)"
    and "\<not> stream_panic (broadcast s ev m)"
proof -
  have "distinct (session_subs m s)" "\<forall>ch\<in>set (session_subs m s). stream_chans m ch \<noteq> None" "\<not> stream_panic m"
    using assms by (auto simp: stream_ok_def channels_ok_def)
  then show "stream_chans (broadcast s ev m) ch =
      (if ch \<in> set (session_subs m s) then map_option (try_send 64 ev) (stream_chans m ch) else stream_chans m ch)"
    and "\<not> stream_panic (broadcast s ev m)"
    by (simp_all add: broadcast_eq send_each_chans send_each_panic)
qed

lemma stream_ok_subs: "stream_ok m \<Longrightarrow> ch \<in> set (session_subs m s) \<Longrightarrow> \<exists>q. stream_chans m ch = Some q"
  unfolding stream_ok_def channels_ok_def by (metis not_None_eq)

lemma stream_ok_chan: "stream_ok m \<Longrightarrow> stream_chans m ch = Some q \<Longrightarrow> ch < next_chan m \<and> length q \<le> 64"
  unfolding stream_ok_def by metis

lemma stream_ok_broadcast:
  assumes "stream_ok m"
  shows "stream_ok (broadcast s ev m)"
proof -
  have "ch < next_chan m \<and> length q \<le> 64" if "stream_chans (broadcast s ev m) ch = Some q" for ch q
    using that
    by (auto simp: broadcast_chans [OF assms] intro: try_send_length stream_ok_chan [OF assms, THEN conjunct2]
        stream_ok_chan [OF assms, THEN conjunct1] split: if_splits)
  then show ?thesis
    using assms broadcast_chans [OF assms, of s ev]
    unfolding stream_ok_def channels_ok_def by auto
qed

lemma channels_ok_remove:
  "channels_ok ss chs \<Longrightarrow> ch \<in> set (ss s) \<Longrightarrow> channels_ok (ss(s := remove_first ch (ss s))) (chs(ch := None))"
  unfolding channels_ok_def by (auto split: if_splits)

lemma stream_ok_cleanup:
  assumes ok: "stream_ok m" and ch: "ch \<in> set (session_subs m s)"
  shows "stream_ok (stream_cleanup s ch m)"
proof -
  let ?m = "upd_session s (\<lambda>ses. ses\<lparr>Subscribers := remove_first ch (Subscribers ses)\<rparr>) m"
  have subs: "session_subs ?m = (session_subs m)(s := remove_first ch (session_subs m s))"
    using ch by (auto simp: session_subs_upd session_subs_def split: option.splits)
  obtain q where "stream_chans m ch = Some q"
    using stream_ok_subs [OF ok ch] by blast
  then have m': "stream_cleanup s ch m = ?m\<lparr>stream_chans := (stream_chans m)(ch := None)\<rparr>"
    by (simp add: stream_cleanup_def close_stream_chan_def)
  have "session_subs (stream_cleanup s ch m) = (session_subs m)(s := remove_first ch (session_subs m s))"
    using subs by (simp add: m')
  then show ?thesis
    using ok ch channels_ok_remove [of "session_subs m" "stream_chans m" ch s] table_ok_upd [of m _ s]
    unfolding stream_ok_def by (auto simp: m' split: if_splits)
qed

lemma stream_ok_upd:
  assumes "stream_ok m" "channels_ok (session_subs (upd_session s f m)) (stream_chans m)"
    "\<And>ses. ses_TaskID (f ses) = ses_TaskID ses"
  shows "stream_ok (upd_session s f m)"
  using assms table_ok_upd [of m f s] unfolding stream_ok_def by (auto split: if_splits)

lemma stream_ok_attach:
  assumes "stream_ok m" "stream_chans m ch \<noteq> None" "\<forall>s'. ch \<notin> set (session_subs m s')"
  shows "stream_ok (add_subscriber s ch m)"
proof (unfold add_subscriber_def, rule stream_ok_upd [OF assms(1)])
  show "channels_ok (session_subs (upd_session s (\<lambda>ses. ses\<lparr>Subscribers := Subscribers ses @ [ch]\<rparr>) m)) (stream_chans m)"
  proof (cases "sessions m s")
    case (Some ses)
    then have "Subscribers ses = session_subs m s" by (simp add: session_subs_def)
    with Some assms show ?thesis
      by (auto simp: session_subs_upd channels_ok_def stream_ok_def)
  qed (use assms in \<open>simp add: session_subs_upd stream_ok_def\<close>)
qed simp

lemma stream_ok_header:
  assumes "stream_ok m" "\<And>ses. Subscribers (f ses) = Subscribers ses \<and> ses_TaskID (f ses) = ses_TaskID ses"
  shows "stream_ok (upd_session s f m)" "session_subs (upd_session s f m) = session_subs m"
proof -
  show subs: "session_subs (upd_session s f m) = session_subs m"
    using assms(2) by (auto simp: session_subs_upd session_subs_def fun_eq_iff split: option.splits)
  show "stream_ok (upd_session s f m)"
    using assms by (intro stream_ok_upd) (simp_all add: subs stream_ok_def)
qed

lemma open_session_ok:
  assumes "stream_ok m" "open_session t m = (s, m')"
  shows "stream_ok m'" "session_subs m' = session_subs m" "stream_chans m' = stream_chans m"
    "streams m' = (streams m)(t \<mapsto> s)" "sessions m' s \<noteq> None"
    "sessions m s' \<noteq> None \<Longrightarrow> streams m t \<noteq> Some s' \<Longrightarrow> s \<noteq> s'"
proof -
  have fresh: "sessions m (next_session m) = None"
    using assms(1) by (auto simp: stream_ok_def)
  show subs: "session_subs m' = session_subs m"
    using assms(2) fresh
    by (cases "streams m t") (auto simp: open_session_def session_subs_def new_session_def Let_def)
  show "stream_chans m' = stream_chans m" "streams m' = (streams m)(t \<mapsto> s)"
    using assms(2) by (auto simp: open_session_def Let_def split: option.splits)
  show "sessions m' s \<noteq> None"
    using assms unfolding open_session_def stream_ok_def table_ok_def
    by (cases "streams m t") (fastforce simp: Let_def)+
  show "sessions m s' \<noteq> None \<Longrightarrow> streams m t \<noteq> Some s' \<Longrightarrow> s \<noteq> s'"
    using assms(2) fresh by (auto simp: open_session_def Let_def split: option.splits)
  have "streams m t' \<noteq> Some (next_session m)" for t'
    using assms(1) fresh by (force simp: stream_ok_def table_ok_def)
  then show "stream_ok m'"
    using assms subs fresh unfolding stream_ok_def open_session_def table_ok_def
    by (auto simp: Let_def less_Suc_eq new_session_def split: option.splits if_splits)
qed

lemma make_chan_ok:
  assumes "stream_ok m" "make_chan m = (ch, m')"
  shows "stream_ok m'" "session_subs m' = session_subs m" "stream_chans m' = (stream_chans m)(ch \<mapsto> [])"
    "streams m' = streams m" "\<forall>s. ch \<notin> set (session_subs m s)"
proof -
  show subs: "session_subs m' = session_subs m" "stream_chans m' = (stream_chans m)(ch \<mapsto> [])" "streams m' = streams m"
    using assms(2) by (auto simp: make_chan_def session_subs_def Let_def)
  show "\<forall>s. ch \<notin> set (session_subs m s)"
    using assms stream_ok_subs [OF assms(1)] stream_ok_chan [OF assms(1)]
    by (fastforce simp: make_chan_def Let_def)
  show "stream_ok m'"
    using assms subs unfolding stream_ok_def make_chan_def channels_ok_def
    by (auto simp: Let_def less_Suc_eq split: if_splits)
qed

lemma stream_ok_drop: "stream_ok m \<Longrightarrow> stream_ok (drop_stream t m)"
  unfolding stream_ok_def drop_stream_def table_ok_def by (auto simp: session_subs_def channels_ok_def)

lemma stream_ok_receive:
  "stream_ok m \<Longrightarrow> stream_chans m ch = Some (ev # q) \<Longrightarrow> stream_ok (m\<lparr>stream_chans := (stream_chans m)(ch \<mapsto> q)\<rparr>)"
  using stream_ok_chan [of m ch "ev # q"] unfolding stream_ok_def channels_ok_def by auto

lemma stream_ok_step: "stream_step m m' \<Longrightarrow> stream_ok m \<Longrightarrow> stream_ok m'"
  by (induction rule: stream_step.induct)
    (auto intro: make_chan_ok open_session_ok stream_ok_attach stream_ok_header stream_ok_broadcast
      stream_ok_drop stream_ok_cleanup stream_ok_receive)

section \<open>The operations\<close>

text \<open>An operation is a sequence of critical sections.\<close>

lemma step2: "stream_step a b \<Longrightarrow> stream_step b c \<Longrightarrow> stream_step\<^sup>*\<^sup>* a c"
  by (meson converse_rtranclp_into_rtranclp r_into_rtranclp)

lemma step3: "stream_step a b \<Longrightarrow> stream_step b c \<Longrightarrow> stream_step c d \<Longrightarrow> stream_step\<^sup>*\<^sup>* a d"
  by (meson converse_rtranclp_into_rtranclp r_into_rtranclp)

lemma handle_event_steps: "stream_step\<^sup>*\<^sup>* m (snd (handle_event ev m))"
proof (cases ev)
  case (StreamStart st)
  obtain s m1 where o: "open_session (start_TaskId st) m = (s, m1)" by fastforce
  have "stream_step m1 (upd_session s (start_session st) m1)"
    by (rule stream_step.header) (simp add: start_session_def)
  then show ?thesis
    using step3 [OF stream_step.opened [OF o] _ stream_step.send]
    by (simp add: StreamStart HandleStreamStart_def o)
next
  case (StreamChunk c)
  have "stream_step m (upd_session s (\<lambda>ses. ses\<lparr>Received := Received ses + 1\<rparr>) m)" for s
    by (rule stream_step.header) simp
  then show ?thesis
    using step2 [OF _ stream_step.send]
    by (simp add: StreamChunk HandleStreamChunk_def split: option.splits)
next
  case (StreamEnd e)
  show ?thesis
    using step2 [OF stream_step.send stream_step.dropped]
    by (simp add: StreamEnd HandleStreamEnd_def split: option.splits)
qed

lemma Subscribe_ok:
  assumes ok: "stream_ok m" and sub: "Subscribe t m = (ch, s, m')"
  shows "stream_step\<^sup>*\<^sup>* m m'" "ch \<in> set (session_subs m' s)" "streams m' t = Some s" "stream_chans m' ch = Some []"
    "\<forall>c. stream_chans m c \<noteq> None \<longrightarrow> stream_chans m' c = stream_chans m c"
proof -
  obtain m1 where mk: "make_chan m = (ch, m1)" using sub by (auto simp: Subscribe_def split: prod.splits)
  obtain m2 where op: "open_session t m1 = (s, m2)" and m': "m' = add_subscriber s ch m2"
    using sub mk by (auto simp: Subscribe_def split: prod.splits)
  note k1 = make_chan_ok [OF ok mk] and k2 = open_session_ok [OF make_chan_ok(1) [OF ok mk] op]
  have "stream_step m2 m'"
    unfolding m' using k1 k2 by (intro stream_step.attach) auto
  then show "stream_step\<^sup>*\<^sup>* m m'"
    by (rule step3 [OF stream_step.make [OF mk] stream_step.opened [OF op]])
  show "ch \<in> set (session_subs m' s)"
    using k2(5) by (auto simp: m' add_subscriber_def session_subs_upd split: option.splits)
  show "streams m' t = Some s" "stream_chans m' ch = Some []"
    using k1 k2 by (simp_all add: m' add_subscriber_def)
  have "stream_chans m ch = None"
    using stream_ok_chan [OF ok, of ch] mk by (cases "stream_chans m ch") (auto simp: make_chan_def Let_def)
  then show "\<forall>c. stream_chans m c \<noteq> None \<longrightarrow> stream_chans m' c = stream_chans m c"
    using k1 k2 by (auto simp: m' add_subscriber_def)
qed

lemma stream_ok_steps: "stream_step\<^sup>*\<^sup>* m m' \<Longrightarrow> stream_ok m \<Longrightarrow> stream_ok m'"
  by (induction rule: rtranclp_induct) (auto intro: stream_ok_step)

text \<open>
  C24. Streams in every interleaving. Whatever the order in which subscribers come, leave and read and in
  which the handlers' critical sections run, the manager never sends on a closed channel and never
  closes one twice, no queue holds more than 64 events, and a channel is subscribed to at most one
  session; each handler and \<open>Subscribe\<close> is such a sequence of critical sections.
\<close>

theorem stream_safe:
  assumes "stream_step\<^sup>*\<^sup>* NewStreamManager m"
  shows "\<not> stream_panic m
    \<and> (\<forall>ch q. stream_chans m ch = Some q \<longrightarrow> length q \<le> 64)
    \<and> (\<forall>s ch. ch \<in> set (session_subs m s) \<longrightarrow> stream_chans m ch \<noteq> None)
    \<and> (\<forall>s s' ch. ch \<in> set (session_subs m s) \<longrightarrow> ch \<in> set (session_subs m s') \<longrightarrow> s = s')
    \<and> stream_step\<^sup>*\<^sup>* m (snd (handle_event ev m))
    \<and> stream_step\<^sup>*\<^sup>* m (snd (snd (Subscribe t m)))"
proof -
  have ok: "stream_ok m"
    using stream_ok_steps [OF assms stream_ok_New] .
  obtain ch s m' where "Subscribe t m = (ch, s, m')" by (metis prod_cases3)
  then have "stream_step\<^sup>*\<^sup>* m (snd (snd (Subscribe t m)))"
    using Subscribe_ok(1) [OF ok] by simp
  then show ?thesis
    using ok handle_event_steps unfolding stream_ok_def channels_ok_def by blast
qed

section \<open>Delivery\<close>

text \<open>The events of a stream: up to the first end, that one included.\<close>

fun until_end :: "stream_event list \<Rightarrow> stream_event list" where
  "until_end [] = []"
| "until_end (ev # evs) = (if is_end ev then [ev] else ev # until_end evs)"

fun handle_all :: "stream_event list \<Rightarrow> StreamManager \<Rightarrow> StreamManager" where
  "handle_all [] m = m"
| "handle_all (ev # evs) m = handle_all evs (snd (handle_event ev m))"

lemma fold_try_send: "foldl (\<lambda>q ev. try_send cap ev q) q evs = q @ take (cap - length q) evs"
proof (induction evs arbitrary: q)
  case (Cons ev evs)
  then show ?case by (auto simp: try_send_def Suc_diff_Suc [symmetric])
qed simp

text \<open>Every handler that does not fail broadcasts its event to the session of its task.\<close>

lemma handle_event_shape:
  assumes ok: "stream_ok m"
  obtains (failed) "handle_event ev m = (Some (NoActiveStream (event_task ev)), m)" "streams m (event_task ev) = None"
  | (sent) s1 m1 where "stream_ok m1" "session_subs m1 = session_subs m" "stream_chans m1 = stream_chans m"
      "streams m1 = (streams m)(event_task ev \<mapsto> s1)" "\<forall>s. sessions m s \<noteq> None \<longrightarrow> sessions m1 s \<noteq> None"
      "\<forall>s. sessions m s \<noteq> None \<longrightarrow> s1 = s \<longleftrightarrow> streams m (event_task ev) = Some s"
      "handle_event ev m = (None, (if is_end ev then drop_stream (event_task ev) else id) (broadcast s1 ev m1))"
proof (cases ev)
  case (StreamStart st)
  obtain s1 m1 where o: "open_session (start_TaskId st) m = (s1, m1)" by fastforce
  note k = open_session_ok [OF ok o]
  let ?m1 = "upd_session s1 (start_session st) m1"
  have h: "stream_ok ?m1" "session_subs ?m1 = session_subs m1"
    using stream_ok_header [OF k(1), of "start_session st"] by (simp_all add: start_session_def)
  have "\<forall>s. sessions m s \<noteq> None \<longrightarrow> sessions m1 s \<noteq> None"
    using o by (auto simp: open_session_def Let_def split: option.splits)
  moreover have "s1 = s \<longleftrightarrow> streams m (start_TaskId st) = Some s" if "sessions m s \<noteq> None" for s
    using o k(6) [of s] that by (auto simp: open_session_def)
  ultimately show ?thesis
    using h k by (intro sent [of ?m1 s1]) (auto simp: StreamStart HandleStreamStart_def o)
next
  case (StreamChunk c)
  let ?m1 = "\<lambda>s. upd_session s (\<lambda>ses. ses\<lparr>Received := Received ses + 1\<rparr>) m"
  have h: "stream_ok (?m1 s)" "session_subs (?m1 s) = session_subs m" for s
    using stream_ok_header [OF ok, of "\<lambda>ses. ses\<lparr>Received := Received ses + 1\<rparr>" s] by simp_all
  show ?thesis
  proof (cases "streams m (chunk_TaskId c)")
    case (Some s1)
    with h show ?thesis
      by (intro sent [of "?m1 s1" s1]) (auto simp: StreamChunk HandleStreamChunk_def)
  qed (simp add: failed StreamChunk HandleStreamChunk_def)
next
  case (StreamEnd e)
  show ?thesis
  proof (cases "streams m (end_TaskId e)")
    case (Some s1)
    with ok show ?thesis
      by (intro sent [of m s1]) (auto simp: StreamEnd HandleStreamEnd_def)
  qed (simp add: failed StreamEnd HandleStreamEnd_def)
qed

lemma drop_stream_frame [simp]:
  "session_subs (drop_stream t m) = session_subs m" "stream_chans (drop_stream t m) = stream_chans m"
  "sessions (drop_stream t m) = sessions m" "streams (drop_stream t m) = (streams m)(t := None)"
  by (simp_all add: drop_stream_def session_subs_def fun_eq_iff)

text \<open>What one event does to a session \<open>s\<close> with a subscriber \<open>ch\<close>.\<close>

lemma handle_event_effect:
  assumes ok: "stream_ok m" and s: "sessions m s \<noteq> None" and m': "m' = snd (handle_event ev m)"
  shows "session_subs m' = session_subs m \<and> sessions m' s \<noteq> None \<and>
     (streams m t = Some s \<longrightarrow> streams m' t = (if event_task ev = t \<and> is_end ev then None else Some s)) \<and>
     (streams m t \<noteq> Some s \<longrightarrow> streams m' t \<noteq> Some s) \<and>
     (ch \<in> set (session_subs m s) \<longrightarrow> stream_chans m' ch =
       (if streams m (event_task ev) = Some s then map_option (try_send 64 ev) (stream_chans m ch) else stream_chans m ch))"
proof (cases rule: handle_event_shape [OF ok, of ev, case_names failed sent])
  case failed
  with s m' show ?thesis by auto
next
  case (sent s1 m1)
  have same: "ch \<in> set (session_subs m s1) \<longleftrightarrow> s1 = s" if "ch \<in> set (session_subs m s)"
    using ok that unfolding stream_ok_def channels_ok_def by blast
  show ?thesis
    using sent s same by (auto simp: m' broadcast_chans)
qed

lemma handle_all_detached:
  assumes "stream_ok m" "sessions m s \<noteq> None" "\<forall>t. streams m t \<noteq> Some s" "ch \<in> set (session_subs m s)"
  shows "stream_chans (handle_all evs m) ch = stream_chans m ch"
  using assms
proof (induction evs arbitrary: m)
  case (Cons ev evs)
  note e = handle_event_effect [OF Cons.prems(1,2) refl, of ev _ ch]
  have "stream_ok (snd (handle_event ev m))"
    by (rule stream_ok_steps [OF handle_event_steps Cons.prems(1)])
  then show ?case
    using Cons.IH [of "snd (handle_event ev m)"] Cons.prems e by simp
qed simp

lemma handle_all_attached:
  assumes "stream_ok m" "streams m t = Some s" "ch \<in> set (session_subs m s)" "stream_chans m ch = Some q"
  shows "stream_chans (handle_all evs m) ch =
    Some (foldl (\<lambda>q ev. try_send 64 ev q) q (until_end (filter (\<lambda>ev. event_task ev = t) evs)))"
  using assms
proof (induction evs arbitrary: m q)
  case (Cons ev evs)
  let ?m = "snd (handle_event ev m)"
  have tab: "table_ok (streams m) (sessions m)"
    using Cons.prems(1) by (simp add: stream_ok_def)
  obtain x where x: "sessions m s = Some x" "ses_TaskID x = t"
    using tab Cons.prems(2) unfolding table_ok_def by blast
  then have s: "sessions m s \<noteq> None" by simp
  have uniq: "streams m t' = Some s \<longleftrightarrow> t' = t" for t'
    using tab Cons.prems(2) x unfolding table_ok_def by fastforce
  note e = handle_event_effect [OF Cons.prems(1) s refl, of ev]
  have ok: "stream_ok ?m"
    by (rule stream_ok_steps [OF handle_event_steps Cons.prems(1)])
  have ch: "ch \<in> set (session_subs ?m s)" and s': "sessions ?m s \<noteq> None"
    using e Cons.prems(3) by simp_all
  have q: "stream_chans ?m ch = Some (if event_task ev = t then try_send 64 ev q else q)"
    using e [of t ch] Cons.prems(3,4) uniq by simp
  show ?case
  proof (cases "event_task ev = t \<and> is_end ev")
    case True
    have "streams ?m t' \<noteq> Some s" for t'
      using e [of t' ch] uniq [of t'] True by (cases "t' = t") simp_all
    then have "stream_chans (handle_all evs ?m) ch = stream_chans ?m ch"
      by (intro handle_all_detached [OF ok s' _ ch]) blast
    then show ?thesis
      using True q by simp
  next
    case False
    have "streams ?m t = Some s"
      using e [of t ch] Cons.prems(2) False by simp
    from Cons.IH [OF ok this ch q] False show ?thesis by auto
  qed
qed simp

text \<open>
  C23. What a subscriber gets. A channel subscribed to a task holds, whatever else the manager handles,
  exactly the events of that task in order, up to and including the first end of stream, and the first
  64 of them while nobody reads: nothing of another task, nothing twice, and nothing of a stream that
  starts for the task after the first one ended.
\<close>

theorem stream_delivery:
  assumes "stream_step\<^sup>*\<^sup>* NewStreamManager m" and "Subscribe t m = (ch, s, m')"
  shows "stream_chans (handle_all evs m') ch =
    Some (take 64 (until_end (filter (\<lambda>ev. event_task ev = t) evs)))"
proof -
  have ok: "stream_ok m"
    using stream_ok_steps [OF assms(1) stream_ok_New] .
  note k = Subscribe_ok [OF ok assms(2)]
  show ?thesis
    using handle_all_attached [OF stream_ok_steps [OF k(1) ok] k(3,2,4)] by (simp add: fold_try_send)
qed

definition demo_start :: pb_StreamStart where
  "demo_start = \<lparr>start_TaskId = ''t'', start_ArtifactId = ''a'', start_ArtifactName = [], start_MediaType = [], start_TotalChunks = 1\<rparr>"

definition demo_events :: "stream_event list" where
  "demo_events = [StreamStart demo_start, StreamChunk \<lparr>chunk_TaskId = ''u'', chunk_body = [1]\<rparr>,
     StreamChunk \<lparr>chunk_TaskId = ''t'', chunk_body = [2]\<rparr>,
     StreamEnd \<lparr>end_TaskId = ''t'', end_ArtifactId = ''a'', end_Reason = []\<rparr>, StreamStart demo_start]"

theorem stream_delivery_witness:
  "case Subscribe ''t'' NewStreamManager of (ch, s, m') \<Rightarrow>
     stream_chans (handle_all demo_events m') ch =
       Some [StreamStart demo_start, StreamChunk \<lparr>chunk_TaskId = ''t'', chunk_body = [2]\<rparr>,
             StreamEnd \<lparr>end_TaskId = ''t'', end_ArtifactId = ''a'', end_Reason = []\<rparr>]"
  using stream_delivery [OF rtranclp.rtrancl_refl, where evs = demo_events and t = "''t''"]
  by (auto simp: demo_events_def demo_start_def split: prod.splits)

theorem stream_safe_witness:
  "\<not> stream_panic NewStreamManager
    \<and> stream_step\<^sup>*\<^sup>* NewStreamManager (snd (handle_event (StreamStart demo_start) NewStreamManager))"
  using stream_safe [OF rtranclp.rtrancl_refl] by blast

end
