(* ===== verification/Adapters.thy ===== *)
theory Adapters
  imports ConnCore Proto Host Config Bridge "HOL-Library.Multiset"
begin

text \<open>
  The adapters of the Connection Core: the A2A and ANP protocols (\<^verbatim>\<open>internal/adapter/a2a/\<close>,
  \<^verbatim>\<open>internal/adapter/anp/\<close>) and the libp2p, HTTP and NATS transports (\<^verbatim>\<open>internal/adapter/libp2p/\<close>,
  \<^verbatim>\<open>http/\<close>, \<^verbatim>\<open>nats/\<close>).

  The protobuf and JSON decoders, \<open>peer.Decode\<close>, the libp2p streams and the NATS client are arguments.
  An error is its text up to the text of the library error that it wraps.
\<close>

section \<open>The A2A protocol\<close>

fun envelopeTypeMap :: "pb_EnvelopeType \<Rightarrow> envelope_Type option" where
  "envelopeTypeMap ENVELOPE_TYPE_SEND_TASK = Some TypeTask"
| "envelopeTypeMap ENVELOPE_TYPE_TASK_STATUS_UPDATE = Some TypeTaskUpdate"
| "envelopeTypeMap ENVELOPE_TYPE_TASK_COMPLETE = Some TypeTaskComplete"
| "envelopeTypeMap ENVELOPE_TYPE_TASK_FAIL = Some TypeTaskFail"
| "envelopeTypeMap ENVELOPE_TYPE_TASK_CANCEL = Some TypeTaskCancel"
| "envelopeTypeMap ENVELOPE_TYPE_ACK = Some TypeACK"
| "envelopeTypeMap ENVELOPE_TYPE_STREAM_START = Some TypeStreamStart"
| "envelopeTypeMap ENVELOPE_TYPE_STREAM_CHUNK = Some TypeStreamChunk"
| "envelopeTypeMap ENVELOPE_TYPE_STREAM_END = Some TypeStreamEnd"
| "envelopeTypeMap _ = None"

text \<open>The loop of \<open>init\<close>; \<open>order\<close> is the iteration order of the map.\<close>

fun reverse_types :: "pb_EnvelopeType list \<Rightarrow> (envelope_Type \<rightharpoonup> pb_EnvelopeType) \<Rightarrow> (envelope_Type \<rightharpoonup> pb_EnvelopeType)" where
  "reverse_types [] m = m"
| "reverse_types (k # ks) m =
     reverse_types ks (case envelopeTypeMap k of None \<Rightarrow> m | Some v \<Rightarrow> m(v \<mapsto> k))"

definition reverseTypeMap :: "pb_EnvelopeType list \<Rightarrow> envelope_Type \<rightharpoonup> pb_EnvelopeType" where
  "reverseTypeMap order = reverse_types order Map.empty"

text \<open>\<open>if v != "" { m[k] = v }\<close>\<close>

definition set_nonempty :: "string \<Rightarrow> string \<Rightarrow> (string \<rightharpoonup> string) \<Rightarrow> (string \<rightharpoonup> string)" where
  "set_nonempty k v m = (if v \<noteq> [] then m(k \<mapsto> v) else m)"

text \<open>The loop that copies the entries of \<open>metadata\<close> whose keys are not set yet.\<close>

definition copy_missing :: "(string \<rightharpoonup> string) \<Rightarrow> (string \<rightharpoonup> string) \<Rightarrow> (string \<rightharpoonup> string)" where
  "copy_missing metadata m = metadata ++ m"

definition a2a_Ingest :: "pb_codec \<Rightarrow> bytes \<Rightarrow> (string \<rightharpoonup> string) \<Rightarrow> string + Envelope" where
  "a2a_Ingest P raw metadata =
     (case pb_Unmarshal P raw of
        None \<Rightarrow> Inl ''a2a: unmarshal envelope''
      | Some pbEnv \<Rightarrow>
          (let m = set_nonempty MetaKeyTraceParent (TraceParent pbEnv) Map.empty;
               m = set_nonempty MetaKeyTraceState (TraceState pbEnv) m;
               m = m(MetaKeyProtocol \<mapsto> ''a2a'')
           in Inr \<lparr>ID = EnvelopeId pbEnv,
                   Type = (case envelopeTypeMap (env_Type pbEnv) of None \<Rightarrow> TypeCustom | Some t \<Rightarrow> t),
                   Source = \<lparr>PeerID = [], DIDKey = []\<rparr>, Target = [],
                   Payload = Some raw, Metadata = Some (copy_missing metadata m),
                   Timestamp = (case env_Timestamp pbEnv of None \<Rightarrow> zero_time | Some t \<Rightarrow> t)\<rparr>))"

definition a2a_Emit :: "Envelope \<Rightarrow> string + bytes" where
  "a2a_Emit env =
     (case Payload env of
        None \<Rightarrow> Inl (''a2a: envelope '' @ ID env @ '' has nil payload'')
      | Some p \<Rightarrow> Inr p)"

definition a2a_Adapter :: "pb_codec \<Rightarrow> ProtocolAdapter" where
  "a2a_Adapter P = \<lparr>pa_Name = ''a2a'', pa_Ingest = a2a_Ingest P, pa_Emit = a2a_Emit, pa_Endpoints = []\<rparr>"

section \<open>The ANP protocol\<close>

record jsonRPCRequest =
  jr_JSONRPC :: string
  jr_Method :: string
  jr_Params :: bytes
  jr_ID :: json

definition methodToEnvelopeType :: "string \<rightharpoonup> envelope_Type" where
  "methodToEnvelopeType =
     [''tasks/send'' \<mapsto> TypeTask, ''tasks/get'' \<mapsto> TypeTask, ''tasks/cancel'' \<mapsto> TypeTaskCancel,
      ''agent/card'' \<mapsto> TypeCard]"

text \<open>\<open>decode\<close> is \<open>json.Unmarshal\<close> at the request type, \<open>sprint\<close> is \<open>fmt.Sprintf("%v")\<close> of a decoded value;
  a missing identifier is null.\<close>

definition anp_Ingest ::
  "(bytes \<Rightarrow> jsonRPCRequest option) \<Rightarrow> (json \<Rightarrow> string) \<Rightarrow> bytes \<Rightarrow> (string \<rightharpoonup> string) \<Rightarrow> string + Envelope" where
  "anp_Ingest decode sprint raw metadata =
     (case decode raw of
        None \<Rightarrow> Inl ''anp: unmarshal json-rpc''
      | Some req \<Rightarrow>
          Inr \<lparr>ID = (if jr_ID req \<noteq> JNull then sprint (jr_ID req) else []),
               Type = (case methodToEnvelopeType (jr_Method req) of None \<Rightarrow> TypeCustom | Some t \<Rightarrow> t),
               Source = \<lparr>PeerID = [], DIDKey = []\<rparr>, Target = [], Payload = Some raw,
               Metadata = Some (copy_missing metadata
                 [MetaKeyProtocol \<mapsto> ''anp'', ''jsonrpc.method'' \<mapsto> jr_Method req]),
               Timestamp = zero_time\<rparr>)"

definition anp_Emit :: "Envelope \<Rightarrow> string + bytes" where
  "anp_Emit env = (case Payload env of None \<Rightarrow> Inl ''anp: envelope has nil payload'' | Some p \<Rightarrow> Inr p)"

definition anp_Adapter :: "(bytes \<Rightarrow> jsonRPCRequest option) \<Rightarrow> (json \<Rightarrow> string) \<Rightarrow> ProtocolAdapter" where
  "anp_Adapter decode sprint =
     \<lparr>pa_Name = ''anp'', pa_Ingest = anp_Ingest decode sprint, pa_Emit = anp_Emit, pa_Endpoints = []\<rparr>"

section \<open>The HTTP transport\<close>

text \<open>\<open>sender\<close> is nil when the bridge is disabled.\<close>

type_synonym 'w bridge_sender = "string \<Rightarrow> bytes option \<Rightarrow> 'w \<Rightarrow> (string + bytes) \<times> 'w"

definition http_matches :: "string \<Rightarrow> bool" where
  "http_matches tgt \<longleftrightarrow> HasPrefix tgt ''http://'' \<or> HasPrefix tgt ''https://''"

definition http_Send :: "'w bridge_sender option \<Rightarrow> string \<Rightarrow> Envelope \<Rightarrow> 'w \<Rightarrow> string option \<times> 'w" where
  "http_Send snd_raw tgt env w =
     (case snd_raw of
        None \<Rightarrow> (Some ''http: bridge not configured'', w)
      | Some f \<Rightarrow> (case f tgt (Payload env) w of
          (Inl err, w') \<Rightarrow> (Some err, w')
        | (Inr _, w') \<Rightarrow> (None, w')))"

definition http_Transport :: "'w bridge_sender option \<Rightarrow> 'w TransportAdapter" where
  "http_Transport snd_raw = \<lparr>tr_Name = ''http'', MatchesTarget = http_matches, tr_Send = http_Send snd_raw\<rparr>"

section \<open>The libp2p transport\<close>

record InboundMessage =
  im_Envelope :: Envelope
  im_Source :: string

type_synonym 'w stream_opener = "peer_id \<Rightarrow> 'w \<Rightarrow> (string + (bytes \<Rightarrow> 'w \<Rightarrow> string option \<times> 'w)) \<times> 'w"

definition libp2p_Send ::
  "(string \<Rightarrow> peer_id option) \<Rightarrow> 'w stream_opener \<Rightarrow> ProtocolAdapter \<Rightarrow> string \<Rightarrow> Envelope \<Rightarrow> 'w \<Rightarrow> string option \<times> 'w" where
  "libp2p_Send peer_Decode NewStream protocol tgt env w =
     (case peer_Decode tgt of
        None \<Rightarrow> (Some (''libp2p: decode peer ID '' @ tgt), w)
      | Some pid \<Rightarrow>
          (case pa_Emit protocol env of
             Inl err \<Rightarrow> (Some (''libp2p: emit envelope: '' @ err), w)
           | Inr dat \<Rightarrow> SendA2AMessage NewStream pid dat w))"

definition libp2p_Transport ::
  "(string \<Rightarrow> peer_id option) \<Rightarrow> 'w stream_opener \<Rightarrow> ProtocolAdapter \<Rightarrow> 'w TransportAdapter" where
  "libp2p_Transport peer_Decode NewStream protocol =
     \<lparr>tr_Name = ''libp2p'', MatchesTarget = (\<lambda>tgt. peer_Decode tgt \<noteq> None),
      tr_Send = libp2p_Send peer_Decode NewStream protocol\<rparr>"

text \<open>The handler that \<open>RegisterHandler\<close> installs, on the inbound channel of 64 slots.\<close>

definition libp2p_handler :: "ProtocolAdapter \<Rightarrow> peer_id \<Rightarrow> bytes \<Rightarrow> InboundMessage list \<Rightarrow> InboundMessage list" where
  "libp2p_handler protocol remotePeer dat inCh =
     (case pa_Ingest protocol dat [''remote_peer'' \<mapsto> remotePeer, ''transport'' \<mapsto> ''libp2p''] of
        Inl err \<Rightarrow> inCh
      | Inr env \<Rightarrow>
          try_send 64 \<lparr>im_Envelope = env\<lparr>Source := \<lparr>PeerID = remotePeer, DIDKey = []\<rparr>\<rparr>, im_Source = remotePeer\<rparr> inCh)"

section \<open>The NATS transport\<close>

definition subject_char :: "char \<Rightarrow> bool" where
  "subject_char c \<longleftrightarrow>
     (let n = code c in
      (97 \<le> n \<and> n \<le> 122) \<or> (65 \<le> n \<and> n \<le> 90) \<or> (48 \<le> n \<and> n \<le> 57) \<or>
      c = CHR ''.'' \<or> c = CHR ''_'' \<or> c = CHR ''-'')"

definition validateNATSSubject :: "string \<Rightarrow> string option" where
  "validateNATSSubject subject =
     (if subject = [] then Some ''nats: empty subject''
      else if \<not> list_all subject_char subject then Some (''nats: invalid subject '' @ subject)
      else None)"

definition truncateID :: "string \<Rightarrow> string" where
  "truncateID i = (if length i > 8 then take 8 i else i)"

datatype nats_option =
    OptName string
  | OptMaxReconnects int
  | OptReconnectWait duration
  | OptUserInfo string string
  | OptSecure "(string \<times> string) option"

text \<open>The broker connection: what the NATS client does to the world.\<close>

record 'w nats_lib =
  nats_Connect :: "string \<Rightarrow> nats_option list \<Rightarrow> 'w \<Rightarrow> string option \<times> 'w"
  nats_Subscribe :: "string \<Rightarrow> 'w \<Rightarrow> string option \<times> 'w"
  nats_Publish :: "string \<Rightarrow> bytes \<Rightarrow> 'w \<Rightarrow> string option \<times> 'w"
  nats_Unsubscribe :: "'w \<Rightarrow> 'w"
  nats_Close :: "'w \<Rightarrow> 'w"
  nats_ConnectedUrl :: "'w \<Rightarrow> string"
  LoadX509KeyPair :: "string \<Rightarrow> string \<Rightarrow> string option"

text \<open>The certificate files that the TLS configuration loads, if any.\<close>

definition buildTLSConfig :: "'w nats_lib \<Rightarrow> NATSConfig \<Rightarrow> string + (string \<times> string) option" where
  "buildTLSConfig N cfg =
     (if TLSCertFile cfg \<noteq> [] \<and> TLSKeyFile cfg \<noteq> [] then
        (case LoadX509KeyPair N (TLSCertFile cfg) (TLSKeyFile cfg) of
           Some err \<Rightarrow> Inl (''load TLS keypair: '' @ err)
         | None \<Rightarrow> Inr (Some (TLSCertFile cfg, TLSKeyFile cfg)))
      else Inr None)"

definition nats_options :: "'w nats_lib \<Rightarrow> NATSConfig \<Rightarrow> string \<Rightarrow> string + nats_option list" where
  "nats_options N cfg localID =
     (let opts = [OptName (''agentanycast-'' @ truncateID localID), OptMaxReconnects (-1), OptReconnectWait (2 * Second)];
          opts = (if AuthUser cfg \<noteq> [] then opts @ [OptUserInfo (AuthUser cfg) (AuthPass cfg)] else opts)
      in if TLSEnabled cfg then
           (case buildTLSConfig N cfg of
              Inl err \<Rightarrow> Inl (''nats: build TLS config: '' @ err)
            | Inr tls \<Rightarrow> Inr (opts @ [OptSecure tls]))
         else Inr opts)"

text \<open>The inbound channel, whether \<open>Close\<close> has run, and whether a send on the closed channel panicked.\<close>

record nats_State =
  nats_inCh :: "InboundMessage list"
  nats_closed :: bool
  nats_panicked :: bool

definition nats_New ::
  "'w nats_lib \<Rightarrow> NATSConfig \<Rightarrow> string \<Rightarrow> 'w \<Rightarrow> (string + nats_State) \<times> 'w" where
  "nats_New N cfg localID w =
     (case nats_options N cfg localID of
        Inl err \<Rightarrow> (Inl err, w)
      | Inr opts \<Rightarrow>
          (case nats_Connect N (Broker cfg) opts w of
             (Some err, w1) \<Rightarrow> (Inl (''nats: connect to '' @ Broker cfg @ '': '' @ err), w1)
           | (None, w1) \<Rightarrow>
               (let subject = SubjectPrefix cfg @ localID in
                case validateNATSSubject subject of
                  Some err \<Rightarrow> (Inl (''nats: invalid subscription subject: '' @ err), nats_Close N w1)
                | None \<Rightarrow>
                    (case nats_Subscribe N subject w1 of
                       (Some err, w2) \<Rightarrow> (Inl (''nats: subscribe to '' @ subject @ '': '' @ err), nats_Close N w2)
                     | (None, w2) \<Rightarrow> (Inr \<lparr>nats_inCh = [], nats_closed = False, nats_panicked = False\<rparr>, w2)))))"

definition nats_matches :: "string \<Rightarrow> bool" where
  "nats_matches tgt \<longleftrightarrow> HasPrefix tgt ''nats://''"

definition nats_Send :: "'w nats_lib \<Rightarrow> ProtocolAdapter \<Rightarrow> string \<Rightarrow> Envelope \<Rightarrow> 'w \<Rightarrow> string option \<times> 'w" where
  "nats_Send N protocol tgt env w =
     (let subject = TrimPrefix tgt ''nats://'' in
      case validateNATSSubject subject of
        Some err \<Rightarrow> (Some (''nats: invalid target subject: '' @ err), w)
      | None \<Rightarrow>
          (case pa_Emit protocol env of
             Inl err \<Rightarrow> (Some (''nats: emit envelope: '' @ err), w)
           | Inr dat \<Rightarrow>
               (case nats_Publish N subject dat w of
                  (Some err, w1) \<Rightarrow> (Some (''nats: publish to subject '' @ subject @ '': '' @ err), w1)
                | (None, w1) \<Rightarrow> (None, w1))))"

definition nats_Transport :: "'w nats_lib \<Rightarrow> ProtocolAdapter \<Rightarrow> 'w TransportAdapter" where
  "nats_Transport N protocol =
     \<lparr>tr_Name = ''nats'', MatchesTarget = nats_matches, tr_Send = nats_Send N protocol\<rparr>"

definition nats_LocalAddrs :: "'w nats_lib \<Rightarrow> 'w \<Rightarrow> string list" where
  "nats_LocalAddrs N w = (let url = nats_ConnectedUrl N w in if url \<noteq> [] then [url] else [])"

definition nats_Transport_Close :: "'w nats_lib \<Rightarrow> nats_State \<Rightarrow> 'w \<Rightarrow> nats_State \<times> 'w" where
  "nats_Transport_Close N t w =
     (if nats_closed t then (t, w)
      else (t\<lparr>nats_closed := True\<rparr>, nats_Close N (nats_Unsubscribe N w)))"

text \<open>The subscription callback. A send on a closed channel panics, also inside \<open>select\<close>.\<close>

definition nats_handleMessage :: "ProtocolAdapter \<Rightarrow> string \<Rightarrow> bytes \<Rightarrow> nats_State \<Rightarrow> nats_State" where
  "nats_handleMessage protocol subject dat t =
     (case pa_Ingest protocol dat [''transport'' \<mapsto> ''nats'', ''nats.subject'' \<mapsto> subject] of
        Inl err \<Rightarrow> t
      | Inr env \<Rightarrow>
          if nats_closed t then t\<lparr>nats_panicked := True\<rparr>
          else t\<lparr>nats_inCh := try_send 256 \<lparr>im_Envelope = env, im_Source = subject\<rparr> (nats_inCh t)\<rparr>)"

section \<open>The type tables\<close>

lemma envelopeTypeMap_inj: "envelopeTypeMap k = Some v \<Longrightarrow> envelopeTypeMap k' = Some v \<Longrightarrow> k = k'"
  by (cases k; cases k') (auto simp: envelope_Type_defs)

lemma reverse_types_get:
  "reverse_types order m v = Some k \<longleftrightarrow>
     (if \<exists>k'\<in>set order. envelopeTypeMap k' = Some v then envelopeTypeMap k = Some v else m v = Some k)"
proof (induction order arbitrary: m)
  case (Cons a order)
  show ?case
    by (cases "envelopeTypeMap a") (auto simp: Cons.IH dest: envelopeTypeMap_inj)
qed simp

text \<open>Whatever the order in which \<open>init\<close> sees the entries, the two tables are inverse to each other.\<close>

lemma reverseTypeMap_inverse:
  assumes "{k. envelopeTypeMap k \<noteq> None} \<subseteq> set order"
  shows "reverseTypeMap order v = Some k \<longleftrightarrow> envelopeTypeMap k = Some v"
proof (cases "\<exists>k'\<in>set order. envelopeTypeMap k' = Some v")
  case False
  with assms have "envelopeTypeMap k \<noteq> Some v" by blast
  with False show ?thesis by (simp add: reverseTypeMap_def reverse_types_get)
qed (simp add: reverseTypeMap_def reverse_types_get)

section \<open>Protocols that pass the payload through\<close>

text \<open>
  What the transports rely on: ingesting keeps the raw bytes as the payload and attributes the message
  to nobody, entries that the protocol sets itself win over those of the transport, and emitting gives
  the payload.
\<close>

lemma nats_Send_valid:
  assumes "pa_Emit pa e = Inr raw" "subject \<noteq> []" "list_all subject_char subject"
  shows "nats_Send N pa (''nats://'' @ subject) e w =
    (case nats_Publish N subject raw w of
       (Some err, w1) \<Rightarrow> (Some (''nats: publish to subject '' @ subject @ '': '' @ err), w1)
     | (None, w1) \<Rightarrow> (None, w1))"
  using assms TrimPrefix_append [of "''nats://''" subject]
  by (simp add: nats_Send_def validateNATSSubject_def split: option.splits)

locale passthrough_protocol =
  fixes pa :: ProtocolAdapter
  assumes ingest: "pa_Ingest pa raw md = Inr e \<Longrightarrow>
      Payload e = Some raw \<and> source_id (Source e) = [] \<and> Meta MetaKeyProtocol e = pa_Name pa"
    and foreign: "pa_Ingest pa raw md = Inr e \<Longrightarrow> k \<notin> {MetaKeyTraceParent, MetaKeyTraceState, MetaKeyProtocol, ''jsonrpc.method''} \<Longrightarrow>
      Meta k e = (case md k of None \<Rightarrow> [] | Some v \<Rightarrow> v)"
    and emit: "Payload e = Some raw \<Longrightarrow> pa_Emit pa e = Inr raw"
begin

lemma emit_ingest: "pa_Ingest pa raw md = Inr e \<Longrightarrow> pa_Emit pa e = Inr raw"
  using ingest emit by blast

text \<open>A message handed over by one transport and sent on by another leaves as the same bytes.\<close>

lemma relayed_by_nats:
  assumes "pa_Ingest pa raw md = Inr e" "subject \<noteq> []" "list_all subject_char subject"
  shows "nats_Send N pa (''nats://'' @ subject) e w =
    (case nats_Publish N subject raw w of
       (Some err, w1) \<Rightarrow> (Some (''nats: publish to subject '' @ subject @ '': '' @ err), w1)
     | (None, w1) \<Rightarrow> (None, w1))"
  using nats_Send_valid [OF emit_ingest [OF assms(1)] assms(2,3)] .

lemma received_from_nats:
  assumes "pa_Ingest pa raw [''transport'' \<mapsto> ''nats'', ''nats.subject'' \<mapsto> subject] = Inr e"
    and "\<not> nats_closed t" "length (nats_inCh t) < 256"
  shows "nats_handleMessage pa subject raw t = t\<lparr>nats_inCh := nats_inCh t @ [\<lparr>im_Envelope = e, im_Source = subject\<rparr>]\<rparr>
    \<and> Payload e = Some raw \<and> source_id (Source e) = [] \<and> Meta ''encrypted'' e = [] \<and> Meta MetaKeySkill e = []"
  using assms ingest [OF assms(1)] foreign [OF assms(1), of "''encrypted''"] foreign [OF assms(1), of MetaKeySkill]
  by (simp add: nats_handleMessage_def try_send_def MetaKeyTraceParent_def MetaKeyTraceState_def MetaKeyProtocol_def MetaKeySkill_def)

lemma received_from_libp2p:
  assumes "pa_Ingest pa raw [''remote_peer'' \<mapsto> p, ''transport'' \<mapsto> ''libp2p''] = Inr e" "length q < 64"
  shows "libp2p_handler pa p raw q = q @ [\<lparr>im_Envelope = e\<lparr>Source := \<lparr>PeerID = p, DIDKey = []\<rparr>\<rparr>, im_Source = p\<rparr>]"
  using assms by (simp add: libp2p_handler_def try_send_def)

end

interpretation a2a_proto: passthrough_protocol "a2a_Adapter P" for P
proof (unfold_locales, goal_cases)
  case (1 raw md e)
  then show ?case
    by (auto simp: a2a_Adapter_def a2a_Ingest_def source_id_def Meta_def copy_missing_def Let_def split: option.splits)
next
  case (2 raw md e k)
  then show ?case
    by (auto simp: a2a_Adapter_def a2a_Ingest_def Meta_def copy_missing_def set_nonempty_def map_add_def Let_def
        split: option.splits if_splits)
next
  case (3 e raw)
  then show ?case by (simp add: a2a_Adapter_def a2a_Emit_def)
qed

interpretation anp_proto: passthrough_protocol "anp_Adapter decode sprint" for decode sprint
proof (unfold_locales, goal_cases)
  case (1 raw md e)
  then show ?case
    by (auto simp: anp_Adapter_def anp_Ingest_def source_id_def Meta_def copy_missing_def MetaKeyProtocol_def split: option.splits)
next
  case (2 raw md e k)
  then show ?case
    by (auto simp: anp_Adapter_def anp_Ingest_def Meta_def copy_missing_def map_add_def split: option.splits)
next
  case (3 e raw)
  then show ?case by (simp add: anp_Adapter_def anp_Emit_def)
qed

section \<open>The choice of the transport\<close>

lemma send_loop_filter:
  "send_loop env ts w =
     (case filter (\<lambda>t. MatchesTarget t (Target env)) ts of
        [] \<Rightarrow> (Some (ErrNoTransport (Target env) (ID env)), w)
      | t # _ \<Rightarrow> (case tr_Send t (Target env) env w of
          (Some err, w') \<Rightarrow> (Some (ErrSendVia (tr_Name t) err), w')
        | (None, w') \<Rightarrow> (None, w')))"
  by (induction ts) auto

lemma send_loop_mset:
  assumes "mset ts' = mset ts" and "length (filter (\<lambda>t. MatchesTarget t (Target env)) ts) \<le> 1"
  shows "send_loop env ts' w = send_loop env ts w"
proof -
  let ?f = "filter (\<lambda>t. MatchesTarget t (Target env))"
  have m: "mset (?f ts') = mset (?f ts)" using assms(1) by simp
  have "?f ts' = ?f ts"
  proof (cases "?f ts")
    case (Cons t us)
    with assms(2) have "us = []" by simp
    with m Cons have "mset (?f ts') = mset [t]" by (simp del: mset_filter)
    then have "?f ts' = [t]" by (metis mset_single_iff_right)
    with Cons \<open>us = []\<close> show ?thesis by simp
  next
    case Nil
    with m have "mset (?f ts') = {#}" by (simp del: mset_filter)
    with Nil show ?thesis by (metis mset_zero_iff)
  qed
  then show ?thesis by (simp only: send_loop_filter)
qed

text \<open>The transports that the daemon can register.\<close>

definition daemon_transports ::
  "(string \<Rightarrow> peer_id option) \<Rightarrow> 'w stream_opener \<Rightarrow> pb_codec \<Rightarrow> 'w bridge_sender option \<Rightarrow> 'w nats_lib \<Rightarrow> 'w TransportAdapter list" where
  "daemon_transports peer_Decode NewStream P snd_raw N =
     [libp2p_Transport peer_Decode NewStream (a2a_Adapter P), http_Transport snd_raw, nats_Transport N (a2a_Adapter P)]"

lemma daemon_transports_disjoint:
  assumes "\<And>s. CHR '':'' \<in> set s \<Longrightarrow> peer_Decode s = None"
  shows "length (filter (\<lambda>t. MatchesTarget t tgt) (daemon_transports peer_Decode NewStream P snd_raw N)) \<le> 1"
proof -
  have "http_matches tgt \<or> nats_matches tgt \<Longrightarrow> CHR '':'' \<in> set tgt"
    by (auto simp: http_matches_def nats_matches_def HasPrefix_iff)
  moreover have "\<not> (http_matches tgt \<and> nats_matches tgt)"
    by (auto simp: http_matches_def nats_matches_def HasPrefix_iff)
  ultimately show ?thesis
    using assms [of tgt]
    by (auto simp: daemon_transports_def libp2p_Transport_def http_Transport_def nats_Transport_def)
qed

text \<open>
  The order of registration does not matter. The targets of the three transports exclude each other
  (a peer identifier contains no colon), so with any of them registered, two cores that registered the
  same transports in different orders send every envelope in the same way.
\<close>

theorem transport_order_irrelevant:
  assumes "\<And>s. CHR '':'' \<in> set s \<Longrightarrow> peer_Decode s = None"
    and "mset (transports c) \<subseteq># mset (daemon_transports peer_Decode NewStream P snd_raw N)"
    and "mset (transports c') = mset (transports c)"
  shows "core_Send env c' w = core_Send env c w"
proof -
  let ?m = "\<lambda>t. MatchesTarget t (Target env)"
  have "filter_mset ?m (mset (transports c)) \<subseteq># filter_mset ?m (mset (daemon_transports peer_Decode NewStream P snd_raw N))"
    by (rule multiset_filter_mono [OF assms(2)])
  then have "length (filter ?m (transports c)) \<le> length (filter ?m (daemon_transports peer_Decode NewStream P snd_raw N))"
    using size_mset_mono by (metis mset_filter size_mset)
  also have "\<dots> \<le> 1" by (rule daemon_transports_disjoint [OF assms(1)])
  finally show ?thesis
    unfolding core_Send_def by (rule send_loop_mset [OF assms(3)])
qed

section \<open>Delivery over NATS\<close>

lemma core_Send_nats:
  assumes "\<And>s. CHR '':'' \<in> set s \<Longrightarrow> peer_Decode s = None"
    and "transports c = daemon_transports peer_Decode NewStream P snd_raw N" and "Target env = ''nats://'' @ subject"
  shows "core_Send env c w = (case nats_Send N (a2a_Adapter P) (Target env) env w of
      (Some err, w') \<Rightarrow> (Some (ErrSendVia ''nats'' err), w') | (None, w') \<Rightarrow> (None, w'))"
proof -
  have "peer_Decode (Target env) = None" using assms(1,3) by simp
  moreover have "\<not> http_matches (Target env)" "nats_matches (Target env)"
    using assms(3) by (auto simp: http_matches_def nats_matches_def HasPrefix_def)
  ultimately show ?thesis
    by (simp add: core_Send_def assms(2) daemon_transports_def libp2p_Transport_def http_Transport_def nats_Transport_def
        split: option.splits prod.splits)
qed

text \<open>
  Delivery over NATS. An A2A envelope that the policies permit and that is not to be encrypted, sent
  to the subject of another node, is published there as the original bytes; the receiving node, with
  room in its inbound channel, queues exactly one message with the identifier and the bytes of the
  envelope. Only the bytes travel: the receiver sees no sender identity and no metadata such as the
  requested skill, so the policies there would have nothing to decide on.
\<close>

theorem nats_delivery:
  assumes "\<And>s. CHR '':'' \<in> set s \<Longrightarrow> peer_Decode s = None"
    and "transports c = daemon_transports peer_Decode NewStream P snd_raw N"
    and "Target env = ''nats://'' @ subject" and "subject \<noteq> []" and "list_all subject_char subject"
    and "Payload env = Some raw" and "Meta ''recipient_pubkey'' env = []"
    and "verdict_of L (in_now i) (Source env) (Meta MetaKeySkill env) c = Permit"
    and "nats_Publish N subject raw w = (None, w1)"
    and "pb_Unmarshal P raw = Some pbEnv" and "\<not> nats_closed t" and "length (nats_inCh t) < 256"
  shows "(\<exists>c'. Route L i env c w = (None, env, c', w1))
    \<and> (\<exists>e. nats_handleMessage (a2a_Adapter P) subject raw t =
          t\<lparr>nats_inCh := nats_inCh t @ [\<lparr>im_Envelope = e, im_Source = subject\<rparr>]\<rparr>
        \<and> ID e = EnvelopeId pbEnv \<and> Payload e = Some raw
        \<and> source_id (Source e) = [] \<and> Meta MetaKeySkill e = [])"
proof
  obtain err env' c' w' where r: "Route L i env c w = (err, env', c', w')" by (metis prod_cases4)
  have "route_encrypt L (in_nonce i) env c = Inr env"
    using assms(7) by (simp add: route_encrypt_def split: option.splits)
  from Route_permitted [OF r assms(8) this] have "env' = env" "core_Send env c w = (err, w')" by simp_all
  moreover have "pa_Emit (a2a_Adapter P) env = Inr raw" using assms(6) by (simp add: a2a_proto.emit)
  then have "nats_Send N (a2a_Adapter P) (Target env) env w = (None, w1)"
    using nats_Send_valid [OF _ assms(4,5), where N = N and w = w] assms(3,9) by simp
  then have "core_Send env c w = (None, w1)"
    using core_Send_nats [OF assms(1-3)] by simp
  ultimately show "\<exists>c'. Route L i env c w = (None, env, c', w1)"
    using r by simp
  obtain e where e: "pa_Ingest (a2a_Adapter P) raw [''transport'' \<mapsto> ''nats'', ''nats.subject'' \<mapsto> subject] = Inr e"
    "ID e = EnvelopeId pbEnv"
    using assms(10) by (simp add: a2a_Adapter_def a2a_Ingest_def Let_def)
  from a2a_proto.received_from_nats [OF e(1) assms(11,12)] e(2)
  show "\<exists>e. nats_handleMessage (a2a_Adapter P) subject raw t =
          t\<lparr>nats_inCh := nats_inCh t @ [\<lparr>im_Envelope = e, im_Source = subject\<rparr>]\<rparr>
        \<and> ID e = EnvelopeId pbEnv \<and> Payload e = Some raw
        \<and> source_id (Source e) = [] \<and> Meta MetaKeySkill e = []" by auto
qed

section \<open>A broker in memory\<close>

definition mem_nats :: "(string \<times> bytes) list nats_lib" where
  "mem_nats = \<lparr>nats_Connect = (\<lambda>_ _ w. (None, w)), nats_Subscribe = (\<lambda>_ w. (None, w)),
     nats_Publish = (\<lambda>s d w. (None, w @ [(s, d)])), nats_Unsubscribe = id, nats_Close = id,
     nats_ConnectedUrl = (\<lambda>_. ''nats://broker''), LoadX509KeyPair = (\<lambda>_ _. None)\<rparr>"

definition plain_peer_Decode :: "string \<Rightarrow> peer_id option" where
  "plain_peer_Decode s = (if CHR '':'' \<in> set s then None else Some s)"

definition no_streams :: "'w stream_opener" where
  "no_streams p w = (Inl ''unreachable'', w)"

definition nats_demo_core :: "(bucket, AuditEvent list, (string \<times> bytes) list) Core" where
  "nats_demo_core = core_New\<lparr>transports := daemon_transports plain_peer_Decode no_streams
     (pair_codec (cancel_envelope ''k'') (complete_envelope ''k'')) None mem_nats\<rparr>"

lemma nats_demo_transports: "transports nats_demo_core = daemon_transports plain_peer_Decode no_streams
     (pair_codec (cancel_envelope ''k'') (complete_envelope ''k'')) None mem_nats"
  by (simp add: nats_demo_core_def)

lemma nats_demo_permit: "verdict_of demo_libs t src sk nats_demo_core = Permit"
  by (simp add: verdict_of_def acl_check_def rate_check_def nats_demo_core_def core_New_def)

lemma plain_peer_Decode_colon: "CHR '':'' \<in> set s \<Longrightarrow> plain_peer_Decode s = None"
  by (simp add: plain_peer_Decode_def)

theorem nats_delivery_witness:
  "\<exists>c'. Route demo_libs demo_inputs (envelope_New ''e1'' 0 TypeTask ''nats://agent.b'' (Some [0])) nats_demo_core [] =
     (None, envelope_New ''e1'' 0 TypeTask ''nats://agent.b'' (Some [0]), c', [(''agent.b'', [0])])"
proof -
  let ?P = "pair_codec (cancel_envelope ''k'') (complete_envelope ''k'')"
  let ?t = "\<lparr>nats_inCh = [], nats_closed = False, nats_panicked = False\<rparr>"
  let ?e = "envelope_New ''e1'' 0 TypeTask ''nats://agent.b'' (Some [0])"
  have "(\<exists>c'. Route demo_libs demo_inputs ?e nats_demo_core [] = (None, ?e, c', [(''agent.b'', [0])]))
    \<and> (\<exists>e. nats_handleMessage (a2a_Adapter ?P) ''agent.b'' [0] ?t =
          ?t\<lparr>nats_inCh := nats_inCh ?t @ [\<lparr>im_Envelope = e, im_Source = ''agent.b''\<rparr>]\<rparr>
        \<and> ID e = EnvelopeId (cancel_envelope ''k'') \<and> Payload e = Some [0]
        \<and> source_id (Source e) = [] \<and> Meta MetaKeySkill e = [])"
    by (rule nats_delivery [OF plain_peer_Decode_colon, where NewStream = no_streams and snd_raw = None and N = mem_nats])
      (simp_all add: nats_demo_permit envelope_New_def Meta_def pair_codec_def mem_nats_def nats_demo_transports
        subject_char_def code_def)
  then show ?thesis by blast
qed

theorem transport_order_irrelevant_witness:
  "core_Send (envelope_New ''e1'' 0 TypeTask ''nats://agent.b'' (Some [0]))
      (nats_demo_core\<lparr>transports := rev (transports nats_demo_core)\<rparr>) [] =
   core_Send (envelope_New ''e1'' 0 TypeTask ''nats://agent.b'' (Some [0])) nats_demo_core []"
proof (rule transport_order_irrelevant [OF plain_peer_Decode_colon])
  show "mset (transports nats_demo_core) \<subseteq># mset (daemon_transports plain_peer_Decode no_streams
     (pair_codec (cancel_envelope ''k'') (complete_envelope ''k'')) None mem_nats)"
    unfolding nats_demo_transports by (rule subset_mset.order_refl)
qed simp_all

end
