(* ===== verification/Identity.thy ===== *)
theory Identity
  imports Bridge Config "HOL-Library.List_Lexorder" "HOL-Library.Char_ord" "HOL-Library.Multiset"
begin

text \<open>
  Identities, \<^verbatim>\<open>internal/crypto/\<close>: the conversion between peer identifiers and \<open>did:key\<close> (\<^verbatim>\<open>did.go\<close>), the
  resolution of \<open>did:dns\<close> and \<open>did:web\<close> (\<^verbatim>\<open>did_dns.go\<close>, \<^verbatim>\<open>did_web.go\<close>), the key file (\<^verbatim>\<open>keys.go\<close>), and of
  \<^verbatim>\<open>vc.go\<close> the resolution of an issuer's key and the canonical JSON of a credential.

  The packages agentanycast-identity and libp2p are arguments: the record \<open>did_lib\<close>, with what the code
  relies on in \<open>did_lib_ok\<close>. A public key is a value of type \<open>'pub\<close>.
\<close>

section \<open>did:key\<close>

record 'pub did_lib =
  ExtractPublicKey :: "peer_id \<Rightarrow> 'pub option"
  pub_Ed25519 :: "'pub \<Rightarrow> bool"
  pub_Raw :: "'pub \<Rightarrow> bytes option"
  UnmarshalEd25519PublicKey :: "bytes \<Rightarrow> 'pub option"
  IDFromPublicKey :: "'pub \<Rightarrow> peer_id option"
  MarshalPublicKey :: "'pub \<Rightarrow> bytes option"
  UnmarshalPublicKey :: "bytes \<Rightarrow> 'pub option"
  PubKeyToDIDKey :: "bytes \<Rightarrow> string option"
  DIDKeyToPubKey :: "string \<Rightarrow> bytes option"

datatype did_error =
    ExtractKey
  | ErrUnsupportedKeyType
  | RawKey
  | LibraryDIDKey
  | ErrInvalidDIDKey
  | UnmarshalKey
  | DerivePeerID

definition PeerIDToDIDKey :: "'pub did_lib \<Rightarrow> peer_id \<Rightarrow> did_error + string" where
  "PeerIDToDIDKey D pid =
     (case ExtractPublicKey D pid of
        None \<Rightarrow> Inl ExtractKey
      | Some pub \<Rightarrow>
          if \<not> pub_Ed25519 D pub then Inl ErrUnsupportedKeyType
          else case pub_Raw D pub of
            None \<Rightarrow> Inl RawKey
          | Some raw \<Rightarrow> (case PubKeyToDIDKey D raw of None \<Rightarrow> Inl LibraryDIDKey | Some did \<Rightarrow> Inr did))"

definition DIDKeyToPeerID :: "'pub did_lib \<Rightarrow> string \<Rightarrow> did_error + peer_id" where
  "DIDKeyToPeerID D didKey =
     (case DIDKeyToPubKey D didKey of
        None \<Rightarrow> Inl ErrInvalidDIDKey
      | Some pub \<Rightarrow>
          (case UnmarshalEd25519PublicKey D pub of
             None \<Rightarrow> Inl UnmarshalKey
           | Some libp2pPub \<Rightarrow>
               (case IDFromPublicKey D libp2pPub of None \<Rightarrow> Inl DerivePeerID | Some pid \<Rightarrow> Inr pid)))"

section \<open>did:dns\<close>

record DIDDNSEntry =
  de_DIDKey :: string
  de_PeerID :: string

datatype dns_error =
    MissingDNSPrefix
  | EmptyDomain
  | InvalidDomain string
  | ErrDIDDNSResolve string string

definition parseDIDDNSDomain :: "string \<Rightarrow> dns_error + string" where
  "parseDIDDNSDomain didDNS =
     (if \<not> HasPrefix didDNS ''did:dns:'' then Inl MissingDNSPrefix
      else
        let domain = drop (length ''did:dns:'') didDNS in
        if domain = [] then Inl EmptyDomain
        else if \<exists>c\<in>set domain. c \<in> {CHR '' '', CHR 0x09, CHR '':''} then Inl (InvalidDomain domain)
        else Inr domain)"

definition extractDIDKeyFromTXT :: "string \<Rightarrow> string" where
  "extractDIDKeyFromTXT rec =
     (let record = TrimSpace rec;
          val = TrimSpace (TrimPrefix record ''did='')
      in if HasPrefix record ''did='' \<and> HasPrefix val ''did:key:'' then val
         else if HasPrefix record ''did:key:'' then record
         else [])"

fun dns_entries :: "'pub did_lib \<Rightarrow> string list \<Rightarrow> DIDDNSEntry list" where
  "dns_entries D [] = []"
| "dns_entries D (record # records) =
     (let didKey = extractDIDKeyFromTXT record in
      if didKey = [] then dns_entries D records
      else \<lparr>de_DIDKey = didKey,
            de_PeerID = (case DIDKeyToPeerID D didKey of Inl _ \<Rightarrow> [] | Inr pid \<Rightarrow> pid)\<rparr> # dns_entries D records)"

definition resolveDIDDNSWithResolver ::
  "'pub did_lib \<Rightarrow> string \<Rightarrow> (string \<Rightarrow> 'w \<Rightarrow> (string + string list) \<times> 'w) \<Rightarrow> 'w \<Rightarrow> (dns_error + DIDDNSEntry list) \<times> 'w" where
  "resolveDIDDNSWithResolver D didDNS LookupTXT w =
     (case parseDIDDNSDomain didDNS of
        Inl err \<Rightarrow> (Inl err, w)
      | Inr domain \<Rightarrow>
          (let queryName = ''_did.'' @ domain in
           case LookupTXT queryName w of
             (Inl err, w') \<Rightarrow> (Inl (ErrDIDDNSResolve queryName err), w')
           | (Inr records, w') \<Rightarrow> (Inr (dns_entries D records), w')))"

section \<open>did:web\<close>

datatype web_error =
    WebCreateRequest string
  | WebGet string string
  | WebStatus nat string
  | WebRead string
  | WebParse
  | ErrDIDDocMismatch string string

text \<open>\<open>decode\<close> is \<open>json.Unmarshal\<close> at the type of DID documents and \<open>doc_ID\<close> reads the identifier of one.\<close>

definition resolveDIDWebFromURL ::
  "'w http_client \<Rightarrow> (bytes \<Rightarrow> 'doc option) \<Rightarrow> ('doc \<Rightarrow> string) \<Rightarrow> string \<Rightarrow> string \<Rightarrow> 'w \<Rightarrow> (web_error + 'doc) \<times> 'w" where
  "resolveDIDWebFromURL C decode doc_ID didWeb resolveURL w =
     (case http_NewRequest C resolveURL of
        Some err \<Rightarrow> (Inl (WebCreateRequest err), w)
      | None \<Rightarrow>
          (case http_Do C resolveURL None w of
             (Inl err, w1) \<Rightarrow> (Inl (WebGet resolveURL err), w1)
           | (Inr (scode, content), w1) \<Rightarrow>
               if scode \<noteq> 200 then (Inl (WebStatus scode resolveURL), w1)
               else (case content of
                 Inl err \<Rightarrow> (Inl (WebRead err), w1)
               | Inr body \<Rightarrow>
                   (case decode (take (2 ^ 20) body) of
                      None \<Rightarrow> (Inl WebParse, w1)
                    | Some doc \<Rightarrow>
                        if doc_ID doc \<noteq> didWeb then (Inl (ErrDIDDocMismatch didWeb (doc_ID doc)), w1)
                        else (Inr doc, w1)))))"

section \<open>Keys\<close>

text \<open>\<open>load\<close> is \<open>LoadOrGenerateKey\<close> of the identity package.\<close>

definition stdKeyToLibp2p :: "(bytes \<Rightarrow> 'priv option) \<Rightarrow> bytes \<Rightarrow> string + 'priv" where
  "stdKeyToLibp2p UnmarshalEd25519PrivateKey stdKey =
     (case UnmarshalEd25519PrivateKey stdKey of
        None \<Rightarrow> Inl ''convert ed25519 key to libp2p''
      | Some priv \<Rightarrow> Inr priv)"

definition LoadOrGenerateKey ::
  "(string \<Rightarrow> 'w \<Rightarrow> (string + bytes) \<times> 'w) \<Rightarrow> (bytes \<Rightarrow> 'priv option) \<Rightarrow> string \<Rightarrow> 'w \<Rightarrow> (string + 'priv) \<times> 'w" where
  "LoadOrGenerateKey load UnmarshalEd25519PrivateKey path w =
     (case load path w of
        (Inl err, w') \<Rightarrow> (Inl err, w')
      | (Inr stdKey, w') \<Rightarrow> (stdKeyToLibp2p UnmarshalEd25519PrivateKey stdKey, w'))"

section \<open>Credentials\<close>

datatype vc_error =
    VCIssuerKey did_error
  | VCExtractKey
  | VCMarshalKey
  | VCUnsupportedMethod string
  | VCUnmarshalKey
  | VCRawKey

definition Default_ResolvePublicKey :: "'pub did_lib \<Rightarrow> string \<Rightarrow> vc_error + bytes" where
  "Default_ResolvePublicKey D did =
     (if HasPrefix did ''did:key:'' then
        (case DIDKeyToPeerID D did of
           Inl err \<Rightarrow> Inl (VCIssuerKey err)
         | Inr pid \<Rightarrow>
             (case ExtractPublicKey D pid of
                None \<Rightarrow> Inl VCExtractKey
              | Some pub \<Rightarrow>
                  (case MarshalPublicKey D pub of None \<Rightarrow> Inl VCMarshalKey | Some raw \<Rightarrow> Inr raw)))
      else Inl (VCUnsupportedMethod did))"

definition vcDIDResolverAdapter :: "'pub did_lib \<Rightarrow> (string \<Rightarrow> vc_error + bytes) \<Rightarrow> string \<Rightarrow> vc_error + bytes" where
  "vcDIDResolverAdapter D inner did =
     (case inner did of
        Inl err \<Rightarrow> Inl err
      | Inr raw \<Rightarrow>
          (case UnmarshalPublicKey D raw of
             None \<Rightarrow> Inl VCUnmarshalKey
           | Some pub \<Rightarrow> (case pub_Raw D pub of None \<Rightarrow> Inl VCRawKey | Some rawKey \<Rightarrow> Inr rawKey)))"

text \<open>\<open>verify\<close> and \<open>issue\<close> are the functions of the identity package; without a resolver \<open>verify\<close> uses its own.\<close>

definition VerifyCredential ::
  "'pub did_lib \<Rightarrow> ('vc \<Rightarrow> (string \<Rightarrow> vc_error + bytes) option \<Rightarrow> string option) \<Rightarrow> 'vc \<Rightarrow>
   (string \<Rightarrow> vc_error + bytes) option list \<Rightarrow> string option" where
  "VerifyCredential D verify vc resolver =
     (case resolver of
        Some r # _ \<Rightarrow> verify vc (Some (vcDIDResolverAdapter D r))
      | _ \<Rightarrow> verify vc None)"

definition IssueSkillCredential ::
  "('priv \<Rightarrow> string + bytes) \<Rightarrow> (bytes \<Rightarrow> string \<Rightarrow> string \<Rightarrow> string list \<Rightarrow> string + 'vc) \<Rightarrow> 'priv \<Rightarrow> string \<Rightarrow> string \<Rightarrow>
   string list \<Rightarrow> string + 'vc" where
  "IssueSkillCredential priv_Raw issue privKey issuerDID subjectDID skills =
     (case priv_Raw privKey of
        Inl err \<Rightarrow> Inl (''extract raw private key: '' @ err)
      | Inr raw \<Rightarrow> issue raw issuerDID subjectDID skills)"

section \<open>Canonical JSON\<close>

text \<open>
  A decoded value: the entries of an object stand in the order in which the map is iterated. The result
  is an ordered map, whose entries are written in their order. Leaves are written by \<open>enc\<close>, keys by
  \<open>enc_key\<close>: \<open>json.Marshal\<close> on them.
\<close>

primrec sortKeys :: "json \<Rightarrow> json" where
  "sortKeys JNull = JNull"
| "sortKeys (JBool b) = JBool b"
| "sortKeys (JNumber n) = JNumber n"
| "sortKeys (JString s) = JString s"
| "sortKeys (JArray vs) = JArray (map sortKeys vs)"
| "sortKeys (JObject kvs) = JObject (sort_key fst (map (map_prod id sortKeys) kvs))"

fun join_commas :: "bytes list \<Rightarrow> bytes" where
  "join_commas [] = []"
| "join_commas [x] = x"
| "join_commas (x # y # xs) = x @ bytes_of_string '','' @ join_commas (y # xs)"

primrec marshal_sorted :: "(json \<Rightarrow> bytes) \<Rightarrow> (string \<Rightarrow> bytes) \<Rightarrow> json \<Rightarrow> bytes" where
  "marshal_sorted enc enc_key JNull = enc JNull"
| "marshal_sorted enc enc_key (JBool b) = enc (JBool b)"
| "marshal_sorted enc enc_key (JNumber n) = enc (JNumber n)"
| "marshal_sorted enc enc_key (JString s) = enc (JString s)"
| "marshal_sorted enc enc_key (JArray vs) =
     bytes_of_string ''['' @ join_commas (map (marshal_sorted enc enc_key) vs) @ bytes_of_string '']''"
| "marshal_sorted enc enc_key (JObject kvs) =
     bytes_of_string ''{'' @
     join_commas (map (\<lambda>(k, v). enc_key k @ bytes_of_string '':'' @ v) (map (map_prod id (marshal_sorted enc enc_key)) kvs)) @
     bytes_of_string ''}''"

text \<open>\<open>first\<close> is the encoding of the value and \<open>decode\<close> the decoding of it into maps.\<close>

definition canonicalJSON ::
  "('v \<Rightarrow> bytes option) \<Rightarrow> (bytes \<Rightarrow> json option) \<Rightarrow> (json \<Rightarrow> bytes) \<Rightarrow> (string \<Rightarrow> bytes) \<Rightarrow> 'v \<Rightarrow> bytes option" where
  "canonicalJSON encode decode enc enc_key v =
     (case encode v of
        None \<Rightarrow> None
      | Some dat \<Rightarrow>
          (case decode dat of None \<Rightarrow> None | Some generic \<Rightarrow> Some (marshal_sorted enc enc_key (sortKeys generic))))"

section \<open>Conversions\<close>

text \<open>
  What the code relies on: an Ed25519 key is its 32 raw bytes, a \<open>did:key\<close> and a peer identifier each
  determine their key, and marshalled keys read back.
\<close>

definition did_lib_ok :: "'pub did_lib \<Rightarrow> bool" where
  "did_lib_ok D \<longleftrightarrow>
     (\<forall>raw did. PubKeyToDIDKey D raw = Some did \<longrightarrow> DIDKeyToPubKey D did = Some raw \<and> HasPrefix did ''did:key:'') \<and>
     (\<forall>pub raw. pub_Ed25519 D pub \<longrightarrow> pub_Raw D pub = Some raw \<longrightarrow> UnmarshalEd25519PublicKey D raw = Some pub) \<and>
     (\<forall>pid pub. ExtractPublicKey D pid = Some pub \<longrightarrow> IDFromPublicKey D pub = Some pid) \<and>
     (\<forall>pub b. MarshalPublicKey D pub = Some b \<longrightarrow> UnmarshalPublicKey D b = Some pub)"

lemma did_lib_okD:
  assumes "did_lib_ok D"
  shows "PubKeyToDIDKey D raw = Some did \<Longrightarrow> DIDKeyToPubKey D did = Some raw"
    and "PubKeyToDIDKey D raw = Some did \<Longrightarrow> HasPrefix did ''did:key:''"
    and "pub_Ed25519 D pub \<Longrightarrow> pub_Raw D pub = Some raw \<Longrightarrow> UnmarshalEd25519PublicKey D raw = Some pub"
    and "ExtractPublicKey D pid = Some pub \<Longrightarrow> IDFromPublicKey D pub = Some pid"
    and "MarshalPublicKey D pub = Some b \<Longrightarrow> UnmarshalPublicKey D b = Some pub"
  using assms unfolding did_lib_ok_def by blast+

lemma PeerIDToDIDKeyE:
  assumes "PeerIDToDIDKey D pid = Inr did"
  obtains pub raw where "ExtractPublicKey D pid = Some pub" "pub_Ed25519 D pub" "pub_Raw D pub = Some raw"
    "PubKeyToDIDKey D raw = Some did"
  using assms by (auto simp: PeerIDToDIDKey_def split: option.splits if_splits)

lemma DIDKeyToPeerID_inverse:
  assumes "did_lib_ok D" "PeerIDToDIDKey D pid = Inr did"
  shows "DIDKeyToPeerID D did = Inr pid"
  using assms(2)
proof (rule PeerIDToDIDKeyE)
  fix pub raw
  assume "ExtractPublicKey D pid = Some pub" "pub_Ed25519 D pub" "pub_Raw D pub = Some raw" "PubKeyToDIDKey D raw = Some did"
  then show ?thesis
    using did_lib_okD [OF assms(1)] by (simp add: DIDKeyToPeerID_def)
qed

lemma Default_ResolvePublicKey_own:
  assumes "did_lib_ok D" "PeerIDToDIDKey D pid = Inr did" "ExtractPublicKey D pid = Some pub" "MarshalPublicKey D pub \<noteq> None"
  shows "vcDIDResolverAdapter D (Default_ResolvePublicKey D) did =
    (case pub_Raw D pub of None \<Rightarrow> Inl VCRawKey | Some raw \<Rightarrow> Inr raw)"
proof -
  have "HasPrefix did ''did:key:''"
    using assms(2) did_lib_okD(2) [OF assms(1)] by (rule PeerIDToDIDKeyE)
  moreover obtain b where "MarshalPublicKey D pub = Some b" using assms(4) by blast
  ultimately show ?thesis
    using DIDKeyToPeerID_inverse [OF assms(1,2)] assms(3) did_lib_okD(5) [OF assms(1)]
    by (simp add: vcDIDResolverAdapter_def Default_ResolvePublicKey_def)
qed

lemma extract_TXT:
  assumes "HasPrefix did ''did:key:''" "\<forall>c\<in>set did. \<not> ascii_space c"
  shows "extractDIDKeyFromTXT (''did='' @ did) = did \<and> extractDIDKeyFromTXT did = did"
proof -
  have d: "did \<noteq> []" "\<not> HasPrefix did ''did=''" using assms(1) by (auto simp: HasPrefix_iff)
  have trim: "TrimSpace s = s" if "\<forall>c\<in>set s. \<not> ascii_space c" for s
  proof -
    have "dropWhile ascii_space xs = xs" if "\<forall>c\<in>set xs. \<not> ascii_space c" for xs
      using that by (cases xs) simp_all
    from this [of s] this [of "rev s"] that show ?thesis by (simp add: TrimSpace_def)
  qed
  have "\<forall>c\<in>set ''did=''. \<not> ascii_space c" by (simp add: ascii_space_def)
  then have "TrimSpace (''did='' @ did) = ''did='' @ did" "TrimSpace did = did"
    using assms(2) by (simp_all only: trim set_append ball_Un)
  then show ?thesis
    using assms(1) d TrimPrefix_append [of "''did=''" did] HasPrefix_append [of "''did=''" did]
    by (simp add: extractDIDKeyFromTXT_def Let_def)
qed

lemma dns_entries_member:
  "r \<in> set rs \<Longrightarrow> extractDIDKeyFromTXT r = did \<Longrightarrow> did \<noteq> [] \<Longrightarrow> DIDKeyToPeerID D did = Inr pid \<Longrightarrow>
   \<lparr>de_DIDKey = did, de_PeerID = pid\<rparr> \<in> set (dns_entries D rs)"
  by (induction rs) (auto simp: Let_def)

text \<open>
  C33. Identities convert without loss. The \<open>did:key\<close> of a peer identifier converts back to that peer;
  when it is published in the DNS, bare or as \<open>did=\<close>, resolving the domain's \<open>did:dns\<close> asks for the one
  record name and returns the peer among the entries; and resolving it as the issuer of a credential
  gives the raw key of the peer, whatever resolver wraps it.
\<close>

theorem did_key_resolution:
  assumes "did_lib_ok D" and "PeerIDToDIDKey D pid = Inr did" and "\<forall>c\<in>set did. \<not> ascii_space c"
    and "parseDIDDNSDomain (''did:dns:'' @ domain) = Inr domain" and "LookupTXT (''_did.'' @ domain) w = (Inr records, w')"
    and "did \<in> set records \<or> (''did='' @ did) \<in> set records"
    and "ExtractPublicKey D pid = Some pub" and "pub_Raw D pub = Some raw" and "MarshalPublicKey D pub \<noteq> None"
  shows "DIDKeyToPeerID D did = Inr pid
    \<and> (\<exists>es. resolveDIDDNSWithResolver D (''did:dns:'' @ domain) LookupTXT w = (Inr es, w')
        \<and> \<lparr>de_DIDKey = did, de_PeerID = pid\<rparr> \<in> set es)
    \<and> vcDIDResolverAdapter D (Default_ResolvePublicKey D) did = Inr raw"
proof -
  note inv = DIDKeyToPeerID_inverse [OF assms(1,2)]
  have pre: "HasPrefix did ''did:key:''"
    using assms(2) did_lib_okD(2) [OF assms(1)] by (rule PeerIDToDIDKeyE)
  then have "did \<noteq> []" by (auto simp: HasPrefix_iff)
  with extract_TXT [OF pre assms(3)] inv assms(6)
  have "\<lparr>de_DIDKey = did, de_PeerID = pid\<rparr> \<in> set (dns_entries D records)"
    using dns_entries_member [of _ records did D pid] by metis
  then show ?thesis
    using inv Default_ResolvePublicKey_own [OF assms(1,2,7,9)] assms(4,5,8)
    by (simp add: resolveDIDDNSWithResolver_def)
qed

text \<open>Keys of one byte, named by letters.\<close>

definition demo_did :: "byte did_lib" where
  "demo_did = \<lparr>ExtractPublicKey = (\<lambda>p. if p = ''alice'' then Some 1 else None), pub_Ed25519 = (\<lambda>_. True), pub_Raw = (\<lambda>b. Some [b]),
     UnmarshalEd25519PublicKey = (\<lambda>bs. case bs of [b] \<Rightarrow> Some b | _ \<Rightarrow> None),
     IDFromPublicKey = (\<lambda>b. if b = 1 then Some ''alice'' else None), MarshalPublicKey = (\<lambda>b. Some [8, b]),
     UnmarshalPublicKey = (\<lambda>bs. case bs of [a, b] \<Rightarrow> Some b | _ \<Rightarrow> None),
     PubKeyToDIDKey = (\<lambda>bs. if bs = [1] then Some ''did:key:z6MkA'' else None),
     DIDKeyToPubKey = (\<lambda>s. if s = ''did:key:z6MkA'' then Some [1] else None)\<rparr>"

theorem did_key_resolution_witness:
  "\<exists>es. resolveDIDDNSWithResolver demo_did ''did:dns:example.com'' (\<lambda>_ w. (Inr [''v=spf1'', ''did=did:key:z6MkA''], w)) () = (Inr es, ())
     \<and> \<lparr>de_DIDKey = ''did:key:z6MkA'', de_PeerID = ''alice''\<rparr> \<in> set es"
proof -
  have "did_lib_ok demo_did"
    by (auto simp: did_lib_ok_def demo_did_def HasPrefix_def split: if_splits)
  moreover have "PeerIDToDIDKey demo_did ''alice'' = Inr ''did:key:z6MkA''"
    by (simp add: PeerIDToDIDKey_def demo_did_def)
  moreover have "\<forall>c\<in>set ''did:key:z6MkA''. \<not> ascii_space c" by (simp add: ascii_space_def)
  moreover have "parseDIDDNSDomain (''did:dns:'' @ ''example.com'') = Inr ''example.com''"
    by (simp add: parseDIDDNSDomain_def HasPrefix_def)
  ultimately show ?thesis
    using did_key_resolution [of demo_did "''alice''" "''did:key:z6MkA''" "''example.com''"
        "\<lambda>_ w. (Inr [''v=spf1'', ''did=did:key:z6MkA''], w)" "()" "[''v=spf1'', ''did=did:key:z6MkA'']" "()" 1 "[1]"]
    by (simp add: demo_did_def)
qed

section \<open>The canonical form\<close>

text \<open>Two decoded values are the same when they differ only in the order of the entries of objects.\<close>

inductive json_same :: "json \<Rightarrow> json \<Rightarrow> bool" where
  same_leaf: "v \<in> {JNull, JBool b, JNumber n, JString s} \<Longrightarrow> json_same v v"
| same_array: "list_all2 json_same vs vs' \<Longrightarrow> json_same (JArray vs) (JArray vs')"
| same_object: "list_all2 (\<lambda>x y. fst x = fst y \<and> json_same (snd x) (snd y)) kvs kvs'' \<Longrightarrow> mset kvs'' = mset kvs' \<Longrightarrow>
    json_same (JObject kvs) (JObject kvs')"

text \<open>The keys of an object are distinct, as those of a map are.\<close>

primrec json_wf :: "json \<Rightarrow> bool" where
  "json_wf JNull = True"
| "json_wf (JBool b) = True"
| "json_wf (JNumber n) = True"
| "json_wf (JString s) = True"
| "json_wf (JArray vs) = list_all id (map json_wf vs)"
| "json_wf (JObject kvs) = (distinct (map fst kvs) \<and> list_all snd (map (map_prod id json_wf) kvs))"

lemma sort_entries_cong:
  assumes "mset xs = mset ys" "distinct (map fst xs)"
  shows "sort_key fst xs = sort_key fst ys"
  by (rule sort_key_inj_key_eq) (use assms in \<open>simp_all add: distinct_map\<close>)

lemma map_permuted:
  assumes "mset (map f xs) = mset (map f ys)"
  shows "\<exists>zs. mset zs = mset ys \<and> map f xs = map f zs"
  using assms
proof (induction xs arbitrary: ys)
  case (Cons x xs)
  then have "f x \<in> set (map f ys)" by (metis list.set_intros(1) list.simps(9) set_mset_mset)
  then obtain y as bs where ys: "ys = as @ y # bs" "f y = f x" by (auto dest: split_list)
  with Cons.prems have "mset (map f xs) = mset (map f (as @ bs))" by simp
  from Cons.IH [OF this] obtain zs where "mset zs = mset (as @ bs)" "map f xs = map f zs" by blast
  with ys show ?case by (intro exI [of _ "y # zs"]) simp
qed simp

abbreviation sort_entry :: "string \<times> json \<Rightarrow> string \<times> json" where
  "sort_entry \<equiv> map_prod id sortKeys"

lemma sortKeys_same: "json_same v v' \<Longrightarrow> json_wf v \<Longrightarrow> sortKeys v = sortKeys v'"
proof (induction rule: json_same.induct)
  case (same_array vs vs')
  then show ?case by (auto simp: list_all2_conv_all_nth list_all_length intro: nth_equalityI)
next
  case (same_object kvs kvs'' kvs')
  have len: "length kvs = length kvs''" using same_object.IH by (rule list_all2_lengthD)
  have "map sort_entry kvs = map sort_entry kvs''"
  proof (rule nth_equalityI)
    fix i assume i: "i < length (map sort_entry kvs)"
    then have "json_wf (snd (kvs ! i))"
      using same_object.prems by (auto simp: list_all_length)
    with same_object.IH i show "map sort_entry kvs ! i = map sort_entry kvs'' ! i"
      by (auto simp: list_all2_conv_all_nth case_prod_beta prod_eq_iff len)
  qed (simp add: len)
  moreover have "mset (map sort_entry kvs'') = mset (map sort_entry kvs')"
    using same_object.hyps by (metis mset_map)
  moreover have "distinct (map fst (map sort_entry kvs))"
    using same_object.prems by (simp add: comp_def)
  ultimately show ?case by (simp add: sort_entries_cong)
qed auto

lemma same_sortKeys: "sortKeys v = sortKeys v' \<Longrightarrow> json_same v v'"
proof (induction v arbitrary: v')
  case (JArray vs)
  from JArray.prems obtain vs' where v': "v' = JArray vs'" "map sortKeys vs = map sortKeys vs'" by (cases v') auto
  then have "list_all2 json_same vs vs'"
    using JArray.IH by (auto simp: list_all2_conv_all_nth list_eq_iff_nth_eq)
  with v' show ?case by (simp add: same_array)
next
  case (JObject kvs)
  from JObject.prems obtain kvs' where v': "v' = JObject kvs'" "sort_key fst (map sort_entry kvs) = sort_key fst (map sort_entry kvs')"
    by (cases v') auto
  then have "mset (map sort_entry kvs) = mset (map sort_entry kvs')" by (metis mset_sort)
  from map_permuted [OF this] obtain kvs'' where k: "mset kvs'' = mset kvs'" "map sort_entry kvs = map sort_entry kvs''" by blast
  have "list_all2 (\<lambda>x y. fst x = fst y \<and> json_same (snd x) (snd y)) kvs kvs''"
  proof (rule list_all2_all_nthI)
    show len: "length kvs = length kvs''" using k(2) by (metis length_map)
    fix i assume i: "i < length kvs"
    then have "sort_entry (kvs ! i) = sort_entry (kvs'' ! i)" using k(2) len by (metis nth_map)
    moreover have "snd (kvs ! i) \<in> Basic_BNFs.snds (kvs ! i)" "kvs ! i \<in> set kvs"
      using i by (auto intro: snds.intros)
    ultimately show "fst (kvs ! i) = fst (kvs'' ! i) \<and> json_same (snd (kvs ! i)) (snd (kvs'' ! i))"
      using JObject.IH by (auto simp: case_prod_beta prod_eq_iff)
  qed
  with v' k(1) show ?case by (auto intro: same_object)
qed (case_tac v'; auto intro: same_leaf)+

text \<open>
  C32. Canonical JSON is canonical. Two values have the same sorted form exactly when they differ at most
  in the order in which the maps in them are iterated; so the bytes that are signed do not depend on
  the iteration order.
\<close>

theorem canonical_form:
  assumes "json_wf v" and "decode b = Some v" and "decode b' = Some v'"
  shows "(sortKeys v = sortKeys v' \<longleftrightarrow> json_same v v')
    \<and> (json_same v v' \<longrightarrow> canonicalJSON Some decode enc enc_key b = canonicalJSON Some decode enc enc_key b')"
  using assms sortKeys_same [of v v'] same_sortKeys [of v v'] by (auto simp: canonicalJSON_def)

theorem canonical_form_witness:
  "canonicalJSON Some (\<lambda>b. if b = [1] then Some (JObject [(''b'', JNull), (''a'', JBool True)])
      else Some (JObject [(''a'', JBool True), (''b'', JNull)])) (\<lambda>_. [7]) (\<lambda>_. [8]) [1] =
   canonicalJSON Some (\<lambda>b. if b = [1] then Some (JObject [(''b'', JNull), (''a'', JBool True)])
      else Some (JObject [(''a'', JBool True), (''b'', JNull)])) (\<lambda>_. [7]) (\<lambda>_. [8]) [2]"
proof -
  let ?v = "JObject [(''b'', JNull), (''a'', JBool True)]" and ?v' = "JObject [(''a'', JBool True), (''b'', JNull)]"
  let ?d = "\<lambda>b :: bytes. if b = [1] then Some ?v else Some ?v'"
  have "json_same ?v ?v'"
    by (rule same_object [where kvs'' = "[(''b'', JNull), (''a'', JBool True)]"]) (auto intro: same_leaf)
  moreover have "json_wf ?v" "?d [1] = Some ?v" "?d [2] = Some ?v'" by simp_all
  ultimately show ?thesis using canonical_form [of ?v ?d "[1]" "[2]" ?v' "\<lambda>_. [7]" "\<lambda>_. [8]"] by simp
qed

end
