(* ===== verification/GrpcServer.thy ===== *)
theory GrpcServer
  imports Adapters Identity Anycast StreamMgr Daemon
begin

text \<open>
  The gRPC service of \<^verbatim>\<open>pkg/grpcserver/server.go\<close>, by which an application controls the node.

  The server owns the router (with the engine), the host's card table, the anycast router and the
  stream manager; the database and the outside world are passed along. The Connection Core is the one
  object that also serves as the inbound policy: it lives in the router's \<open>policy_state\<close>, and
  \<open>connectionCore\<close> says whether the server has a pointer to it.

  A goroutine that a call starts is an entry of \<open>background\<close>; it may run at any later time and in any
  order. The channels of \<open>SubscribeIncomingTasks\<close> are numbers, as in the router. A streaming call is
  the function that opens it, the one that sends the next event to the client and the one that ends it.
\<close>

section \<open>Statuses and requests\<close>

datatype grpc_code = InvalidArgument | NotFound | Internal | Unavailable | FailedPrecondition

datatype detail =
    DText string
  | DDecode string
  | DEngine engine_error
  | DRouter peer_id router_error
  | DCore core_error
  | DAnycast anycast_error
  | DBridge string bridge_error
  | DStream stream_error

type_synonym 'a rpc = "grpc_code \<times> detail + 'a"

datatype send_target =
    TargetPeerId string
  | TargetSkillId string
  | TargetUrl string

record SendTaskRequest =
  sr_Message :: "pb_Message option"
  sr_Target :: "send_target option"
  sr_Metadata :: "string \<rightharpoonup> string"

datatype bg_job =
    BgStatusUpdate peer_id string pb_TaskStatus "pb_Message option"
  | BgComplete peer_id string "pb_Artifact list" "pb_Message option"
  | BgFail peer_id string string
  | BgExchangeCard peer_id bytes
  | BgProxyTask IncomingTaskEvent

record ('l, 'f, 'w) Server =
  srv_router :: "(nat \<times> ('l, 'f, 'w) Core) Router"
  srv_host :: Host
  anycastRouter :: "'w anycast_Router option"
  outboundBridge :: bool
  streamMgr :: "StreamManager option"
  srv_card :: "pb_AgentCard option"
  cardRaw :: "bytes option"
  incomingTaskSubs :: "nat list"
  inc_chans :: "nat \<rightharpoonup> IncomingTaskEvent list"
  inc_fresh :: nat
  inc_panicked :: bool
  mcpProxySkills :: "string set option"
  connectionCore :: bool
  background :: "bg_job list"

text \<open>What the server calls. \<open>sl_stream\<close> opens a card stream to a peer and \<open>sl_incoming\<close> is what arrives on it;
  \<open>sl_ConnAddr\<close> is the remote address of the first connection to a peer.\<close>

record ('db, 'l, 'f, 'w, 'pub) server_libs =
  sl_router :: "('db, 'w) router_libs"
  sl_core :: "('l, 'f) core_libs"
  sl_did :: "'pub did_lib"
  sl_peer_Decode :: "string \<Rightarrow> peer_id option"
  sl_self :: peer_id
  sl_MarshalCard :: "pb_AgentCard \<Rightarrow> bytes option"
  sl_MarshalMessage :: "pb_Message \<Rightarrow> bytes option"
  sl_json :: json_lib
  sl_http :: "'w http_client"
  sl_Addrs :: "'w \<Rightarrow> string list"
  sl_ConnectedPeers :: "'w \<Rightarrow> peer_id list"
  sl_ConnAddr :: "peer_id \<Rightarrow> 'w \<Rightarrow> string option"
  sl_NewMultiaddr :: "string \<Rightarrow> bool"
  sl_Connect :: "peer_id \<Rightarrow> string list \<Rightarrow> 'w \<Rightarrow> string option \<times> 'w"
  sl_stream :: "peer_id \<Rightarrow> 'w \<Rightarrow> string + (bytes \<Rightarrow> 'w \<Rightarrow> string option \<times> 'w)"
  sl_incoming :: "peer_id \<Rightarrow> 'w \<Rightarrow> bytes"

text \<open>What one call takes from outside, besides what the router takes.\<close>

record server_inputs =
  si_router :: router_inputs
  si_core :: core_inputs
  si_uuid :: string
  si_now :: gotime
  si_msg_uuid :: "nat \<Rightarrow> string"
  si_msg_now :: "nat \<Rightarrow> gotime"

section \<open>Construction\<close>

definition server_New ::
  "('db, 'l, 'f, 'w, 'pub) server_libs \<Rightarrow> (nat \<times> ('l, 'f, 'w) Core) Router \<Rightarrow> Host \<Rightarrow> 'w anycast_Router option \<Rightarrow> bool \<Rightarrow>
   StreamManager option \<Rightarrow> 'db \<Rightarrow> ('l, 'f, 'w) Server" where
  "server_New L r h ar ob sm d =
     (let s = \<lparr>srv_router = r, srv_host = h, anycastRouter = ar, outboundBridge = ob, streamMgr = sm, srv_card = None,
               cardRaw = None, incomingTaskSubs = [], inc_chans = Map.empty, inc_fresh = 0, inc_panicked = False,
               mcpProxySkills = None, connectionCore = False, background = []\<rparr>
      in case GetSelfCard (lib_bolt (sl_router L)) h d of
           Inl _ \<Rightarrow> s
         | Inr raw \<Rightarrow>
             if length raw > 0 then
               (case pb_UnmarshalCard (lib_pb (sl_router L)) raw of
                  None \<Rightarrow> s
                | Some c \<Rightarrow> s\<lparr>srv_card := Some c, cardRaw := Some raw\<rparr>)
             else s)"

definition SetConnectionCore :: "('l, 'f, 'w) Core \<Rightarrow> ('l, 'f, 'w) Server \<Rightarrow> ('l, 'f, 'w) Server" where
  "SetConnectionCore c s =
     s\<lparr>connectionCore := True,
       srv_router := (srv_router s)\<lparr>policy_state := (fst (policy_state (srv_router s)), c)\<rparr>\<rparr>"

text \<open>The network and the address that \<open>ListenAndServe\<close> listens on, and whether it first removes a stale socket.\<close>

definition listen_address :: "string \<Rightarrow> string \<times> string \<times> bool" where
  "listen_address addr =
     (if HasPrefix addr ''unix://'' then (''unix'', drop 7 addr, True)
      else if HasPrefix addr ''tcp://'' then (''tcp'', drop 6 addr, False)
      else (''unix'', addr, False))"

definition RegisterMCPProxyHandler :: "string list \<Rightarrow> ('l, 'f, 'w) Server \<Rightarrow> ('l, 'f, 'w) Server" where
  "RegisterMCPProxyHandler skillIDs s = s\<lparr>mcpProxySkills := Some (set skillIDs)\<rparr>"

definition proxy_card :: pb_AgentCard where
  "proxy_card = \<lparr>card_Name = ''MCP Proxy Agent'', card_Description = ''Auto-generated agent card for MCP proxy'',
     card_Version = ''0.7.0'', ProtocolVersion = ''a2a/0.3'', card_Skills = [], P2PExtension = None\<rparr>"

definition RegisterProxySkill ::
  "('db, 'l, 'f, 'w, 'pub) server_libs \<Rightarrow> pb_Skill \<Rightarrow> ('l, 'f, 'w) Server \<times> 'db \<Rightarrow> ('l, 'f, 'w) Server \<times> 'db" where
  "RegisterProxySkill L skill sd =
     (case sd of (s, d) \<Rightarrow>
      let c = (case srv_card s of None \<Rightarrow> proxy_card | Some c \<Rightarrow> c);
          c' = c\<lparr>card_Skills := card_Skills c @ [skill]\<rparr>;
          s1 = s\<lparr>srv_card := Some c'\<rparr>
      in case sl_MarshalCard L c' of
           None \<Rightarrow> (s1, d)
         | Some raw \<Rightarrow> (s1\<lparr>cardRaw := Some raw\<rparr>, SetSelfCard (lib_bolt (sl_router L)) raw (srv_host s) d))"

section \<open>Incoming tasks\<close>

text \<open>The send to one subscriber, under \<open>subsMu\<close>, on a channel of 16 slots.\<close>

definition inc_offer :: "IncomingTaskEvent \<Rightarrow> nat \<Rightarrow> ('l, 'f, 'w) Server \<Rightarrow> ('l, 'f, 'w) Server" where
  "inc_offer evt ch s =
     (case inc_chans s ch of
        None \<Rightarrow> s\<lparr>inc_panicked := True\<rparr>
      | Some q \<Rightarrow> s\<lparr>inc_chans := (inc_chans s)(ch \<mapsto> try_send 16 evt q)\<rparr>)"

definition fan_out :: "IncomingTaskEvent \<Rightarrow> ('l, 'f, 'w) Server \<Rightarrow> ('l, 'f, 'w) Server" where
  "fan_out evt s = fold (inc_offer evt) (incomingTaskSubs s) s"

definition proxied :: "IncomingTaskEvent \<Rightarrow> ('l, 'f, 'w) Server \<Rightarrow> bool" where
  "proxied evt s \<longleftrightarrow>
     (case mcpProxySkills s of None \<Rightarrow> False | Some skills \<Rightarrow> pbt_TargetSkillId (inc_Task evt) \<in> skills)"

text \<open>One round of the loop of \<open>forwardIncomingTasks\<close>.\<close>

definition forward_one :: "('l, 'f, 'w) Server \<Rightarrow> ('l, 'f, 'w) Server" where
  "forward_one s =
     (case incomingCh (srv_router s) of
        [] \<Rightarrow> s
      | evt # rest \<Rightarrow>
          (let s1 = s\<lparr>srv_router := (srv_router s)\<lparr>incomingCh := rest\<rparr>\<rparr> in
           if proxied evt s1 then s1\<lparr>background := background s1 @ [BgProxyTask evt]\<rparr>
           else fan_out evt s1))"

definition incoming_open :: "('l, 'f, 'w) Server \<Rightarrow> nat \<times> ('l, 'f, 'w) Server" where
  "incoming_open s =
     (let ch = inc_fresh s in
      (ch, s\<lparr>inc_chans := (inc_chans s)(ch \<mapsto> []), inc_fresh := Suc ch,
             incomingTaskSubs := incomingTaskSubs s @ [ch]\<rparr>))"

definition incoming_next :: "nat \<Rightarrow> ('l, 'f, 'w) Server \<Rightarrow> (pb_Task \<times> pb_AgentCard option) option \<times> ('l, 'f, 'w) Server" where
  "incoming_next ch s =
     (case inc_chans s ch of
        Some (evt # q) \<Rightarrow> (Some (inc_Task evt, inc_SenderCard evt), s\<lparr>inc_chans := (inc_chans s)(ch \<mapsto> q)\<rparr>)
      | _ \<Rightarrow> (None, s))"

text \<open>The deferred function of \<open>SubscribeIncomingTasks\<close>: its critical section, then the close.\<close>

definition incoming_remove :: "nat \<Rightarrow> ('l, 'f, 'w) Server \<Rightarrow> ('l, 'f, 'w) Server" where
  "incoming_remove ch s = s\<lparr>incomingTaskSubs := remove_first ch (incomingTaskSubs s)\<rparr>"

definition incoming_close_chan :: "nat \<Rightarrow> ('l, 'f, 'w) Server \<Rightarrow> ('l, 'f, 'w) Server" where
  "incoming_close_chan ch s =
     (case inc_chans s ch of
        None \<Rightarrow> s\<lparr>inc_panicked := True\<rparr>
      | Some _ \<Rightarrow> s\<lparr>inc_chans := (inc_chans s)(ch := None)\<rparr>)"

definition incoming_end :: "nat \<Rightarrow> ('l, 'f, 'w) Server \<Rightarrow> ('l, 'f, 'w) Server" where
  "incoming_end ch s = incoming_close_chan ch (incoming_remove ch s)"

section \<open>Moving tasks\<close>

definition srv_transition ::
  "('db, 'l, 'f, 'w, 'pub) server_libs \<Rightarrow> gotime \<Rightarrow> string \<Rightarrow> TaskStatus \<Rightarrow> ('l, 'f, 'w) Server \<Rightarrow> 'db \<Rightarrow>
   engine_error option \<times> ('l, 'f, 'w) Server \<times> 'db" where
  "srv_transition L now taskID newStatus s d =
     (let r = srv_router s in
      case TransitionTask (lib_bolt (sl_router L)) (lib_json (sl_router L)) now taskID newStatus (engine r) d (subs r) of
        (err, e', d', st') \<Rightarrow> (err, s\<lparr>srv_router := r\<lparr>engine := e', subs := st'\<rparr>\<rparr>, d'))"

text \<open>The peer that a task is reported to: its originator, unless that is the node itself.\<close>

definition report_to :: "('db, 'l, 'f, 'w, 'pub) server_libs \<Rightarrow> Task \<Rightarrow> peer_id option" where
  "report_to L task =
     (if OriginatorPeerID task \<noteq> ''local'' then sl_peer_Decode L (OriginatorPeerID task) else None)"

definition start_job :: "bg_job \<Rightarrow> ('l, 'f, 'w) Server \<Rightarrow> ('l, 'f, 'w) Server" where
  "start_job j s = s\<lparr>background := background s @ [j]\<rparr>"

text \<open>The tail that the three calls of an executing agent share: after the transition, look the task up and start
  the goroutine that tells the originator.\<close>

definition report_job ::
  "('db, 'l, 'f, 'w, 'pub) server_libs \<Rightarrow> string \<Rightarrow> (peer_id \<Rightarrow> bg_job) \<Rightarrow> ('l, 'f, 'w) Server \<Rightarrow> ('l, 'f, 'w) Server" where
  "report_job L taskID mk s =
     (case GetTask taskID (engine (srv_router s)) of
        Inl _ \<Rightarrow> s
      | Inr task \<Rightarrow> (case report_to L task of None \<Rightarrow> s | Some pid \<Rightarrow> start_job (mk pid) s))"

definition move_and_report ::
  "('db, 'l, 'f, 'w, 'pub) server_libs \<Rightarrow> gotime \<Rightarrow> string \<Rightarrow> TaskStatus \<Rightarrow> (peer_id \<Rightarrow> bg_job) \<Rightarrow> ('l, 'f, 'w) Server \<Rightarrow> 'db \<Rightarrow>
   unit rpc \<times> ('l, 'f, 'w) Server \<times> 'db" where
  "move_and_report L now taskID newStatus mk s d =
     (if taskID = [] then (Inl (InvalidArgument, DText ''task_id is required''), s, d)
      else case srv_transition L now taskID newStatus s d of
        (Some err, s', d') \<Rightarrow> (Inl (FailedPrecondition, DEngine err), s', d')
      | (None, s', d') \<Rightarrow> (Inr (), report_job L taskID mk s', d'))"

definition UpdateTaskStatus ::
  "('db, 'l, 'f, 'w, 'pub) server_libs \<Rightarrow> gotime \<Rightarrow> string \<Rightarrow> pb_TaskStatus \<Rightarrow> pb_Message option \<Rightarrow> ('l, 'f, 'w) Server \<Rightarrow> 'db \<Rightarrow>
   unit rpc \<times> ('l, 'f, 'w) Server \<times> 'db" where
  "UpdateTaskStatus L now taskID st msg s d =
     move_and_report L now taskID (ProtoToTaskStatus st) (\<lambda>pid. BgStatusUpdate pid taskID st msg) s d"

definition CompleteTask ::
  "('db, 'l, 'f, 'w, 'pub) server_libs \<Rightarrow> gotime \<Rightarrow> string \<Rightarrow> pb_Artifact list \<Rightarrow> pb_Message option \<Rightarrow> ('l, 'f, 'w) Server \<Rightarrow> 'db \<Rightarrow>
   unit rpc \<times> ('l, 'f, 'w) Server \<times> 'db" where
  "CompleteTask L now taskID artifacts msg s d =
     move_and_report L now taskID StatusCompleted (\<lambda>pid. BgComplete pid taskID artifacts msg) s d"

definition FailTask ::
  "('db, 'l, 'f, 'w, 'pub) server_libs \<Rightarrow> gotime \<Rightarrow> string \<Rightarrow> string \<Rightarrow> ('l, 'f, 'w) Server \<Rightarrow> 'db \<Rightarrow>
   unit rpc \<times> ('l, 'f, 'w) Server \<times> 'db" where
  "FailTask L now taskID errorMessage s d =
     move_and_report L now taskID StatusFailed (\<lambda>pid. BgFail pid taskID errorMessage) s d"

definition task_response :: "Task \<Rightarrow> pb_Message list \<Rightarrow> pb_Task" where
  "task_response task msgs =
     \<lparr>pbt_TaskId = task_ID task, pbt_ContextId = ContextID task, pbt_Status = TaskStatusToProto (Status task),
      pbt_TargetSkillId = TargetSkillID task, pbt_OriginatorPeerId = OriginatorPeerID task, pbt_Messages = msgs,
      pbt_Artifacts = [], pbt_CreatedAt = Some (CreatedAt task), pbt_UpdatedAt = Some (UpdatedAt task)\<rparr>"

definition server_GetTask :: "string \<Rightarrow> ('l, 'f, 'w) Server \<Rightarrow> pb_Task rpc" where
  "server_GetTask taskID s =
     (if taskID = [] then Inl (InvalidArgument, DText ''task_id is required'')
      else case GetTask taskID (engine (srv_router s)) of
        Inl err \<Rightarrow> Inl (NotFound, DEngine err)
      | Inr task \<Rightarrow> Inr (task_response task []))"

definition CancelTask ::
  "('db, 'l, 'f, 'w, 'pub) server_libs \<Rightarrow> gotime \<Rightarrow> string \<Rightarrow> ('l, 'f, 'w) Server \<Rightarrow> 'db \<Rightarrow> pb_Task rpc \<times> ('l, 'f, 'w) Server \<times> 'db" where
  "CancelTask L now taskID s d =
     (if taskID = [] then (Inl (InvalidArgument, DText ''task_id is required''), s, d)
      else case GetTask taskID (engine (srv_router s)) of
        Inl err \<Rightarrow> (Inl (NotFound, DEngine err), s, d)
      | Inr task \<Rightarrow>
          (let s1 = (case report_to L task of
                       None \<Rightarrow> s
                     | Some pid \<Rightarrow> start_job (BgFail pid (task_ID task) ''canceled by local node'') s)
           in case srv_transition L now taskID StatusCanceled s1 d of
                (Some err, s2, d') \<Rightarrow> (Inl (FailedPrecondition, DEngine err), s2, d')
              | (None, s2, d') \<Rightarrow>
                  (case GetTask taskID (engine (srv_router s2)) of
                     Inl err \<Rightarrow> (Inl (Internal, DEngine err), s2, d')
                   | Inr task' \<Rightarrow> (Inr (task_response task' []), s2, d'))))"

section \<open>The MCP proxy's tasks\<close>

text \<open>The first text part of the first message; no text gives an empty object.\<close>

fun first_text :: "pb_Part list \<Rightarrow> string option" where
  "first_text [] = None"
| "first_text (TextPart t # ps) = Some t"
| "first_text (_ # ps) = first_text ps"

definition proxy_input :: "pb_Task \<Rightarrow> string" where
  "proxy_input t =
     (case pbt_Messages t of
        [] \<Rightarrow> ''{}''
      | m # _ \<Rightarrow> (case first_text (Parts m) of None \<Rightarrow> ''{}'' | Some txt \<Rightarrow> txt))"

definition remote_originator :: "('db, 'l, 'f, 'w, 'pub) server_libs \<Rightarrow> pb_Task \<Rightarrow> peer_id option" where
  "remote_originator L t =
     (if pbt_OriginatorPeerId t \<noteq> [] \<and> pbt_OriginatorPeerId t \<noteq> ''local''
      then sl_peer_Decode L (pbt_OriginatorPeerId t) else None)"

definition handleMCPProxyTask ::
  "('db, 'l, 'f, 'w, 'pub) server_libs \<Rightarrow> server_inputs \<Rightarrow> (string \<Rightarrow> string \<Rightarrow> 'w \<Rightarrow> (string + string) \<times> 'w) \<Rightarrow> IncomingTaskEvent \<Rightarrow>
   ('l, 'f, 'w) Server \<Rightarrow> 'db \<Rightarrow> 'w \<Rightarrow> ('l, 'f, 'w) Server \<times> 'db \<times> 'w" where
  "handleMCPProxyTask L i mcpProxyHandler evt s d w =
     (let task = inc_Task evt; taskID = pbt_TaskId task; now = ri_clock (si_router i) in
      case srv_transition L (now 5) taskID StatusWorking s d of (_, s1, d1) \<Rightarrow>
      case mcpProxyHandler (pbt_TargetSkillId task) (proxy_input task) w of
        (Inl err, w1) \<Rightarrow>
          (case srv_transition L (now 6) taskID StatusFailed s1 d1 of (_, s2, d2) \<Rightarrow>
           case remote_originator L task of
             None \<Rightarrow> (s2, d2, w1)
           | Some pid \<Rightarrow> (case SendFail (sl_router L) (si_router i) pid taskID err (srv_router s2) w1 of
               (_, r', w2) \<Rightarrow> (s2\<lparr>srv_router := r'\<rparr>, d2, w2)))
      | (Inr result, w1) \<Rightarrow>
          (case srv_transition L (now 6) taskID StatusCompleted s1 d1 of (_, s2, d2) \<Rightarrow>
           case remote_originator L task of
             None \<Rightarrow> (s2, d2, w1)
           | Some pid \<Rightarrow> (case SendComplete (sl_router L) (si_router i) pid taskID
                 [\<lparr>ArtifactId = [], art_Name = [], art_Parts = [TextPart result]\<rparr>] None (srv_router s2) w1 of
               (_, r', w2) \<Rightarrow> (s2\<lparr>srv_router := r'\<rparr>, d2, w2))))"

section \<open>Background jobs\<close>

fun run_job ::
  "('db, 'l, 'f, 'w, 'pub) server_libs \<Rightarrow> server_inputs \<Rightarrow> (string \<Rightarrow> string \<Rightarrow> 'w \<Rightarrow> (string + string) \<times> 'w) \<Rightarrow> bg_job \<Rightarrow>
   ('l, 'f, 'w) Server \<Rightarrow> 'db \<Rightarrow> 'w \<Rightarrow> ('l, 'f, 'w) Server \<times> 'db \<times> 'w" where
  "run_job L i handler (BgStatusUpdate pid taskID st msg) s d w =
     (case SendStatusUpdate (sl_router L) (si_router i) pid taskID st msg (srv_router s) w of
        (_, r', w') \<Rightarrow> (s\<lparr>srv_router := r'\<rparr>, d, w'))"
| "run_job L i handler (BgComplete pid taskID artifacts msg) s d w =
     (case SendComplete (sl_router L) (si_router i) pid taskID artifacts msg (srv_router s) w of
        (_, r', w') \<Rightarrow> (s\<lparr>srv_router := r'\<rparr>, d, w'))"
| "run_job L i handler (BgFail pid taskID err) s d w =
     (case SendFail (sl_router L) (si_router i) pid taskID err (srv_router s) w of
        (_, r', w') \<Rightarrow> (s\<lparr>srv_router := r'\<rparr>, d, w'))"
| "run_job L i handler (BgExchangeCard pid raw) s d w =
     (case ExchangeCard (lib_bolt (sl_router L)) (sl_stream L pid w) (sl_incoming L pid) pid raw (srv_host s) d w of
        (_, h', d', w') \<Rightarrow> (s\<lparr>srv_host := h'\<rparr>, d', w'))"
| "run_job L i handler (BgProxyTask evt) s d w = handleMCPProxyTask L i handler evt s d w"

text \<open>The \<open>n\<close>-th goroutine that waits runs to its end.\<close>

definition run_background ::
  "('db, 'l, 'f, 'w, 'pub) server_libs \<Rightarrow> server_inputs \<Rightarrow> (string \<Rightarrow> string \<Rightarrow> 'w \<Rightarrow> (string + string) \<times> 'w) \<Rightarrow> nat \<Rightarrow>
   ('l, 'f, 'w) Server \<Rightarrow> 'db \<Rightarrow> 'w \<Rightarrow> ('l, 'f, 'w) Server \<times> 'db \<times> 'w" where
  "run_background L i handler n s d w =
     (if n < length (background s) then
        run_job L i handler (background s ! n)
          (s\<lparr>background := take n (background s) @ drop (Suc n) (background s)\<rparr>) d w
      else (s, d, w))"

section \<open>Node and peers\<close>

record NodeInfo =
  ni_PeerId :: string
  ni_ListenAddresses :: "string list"
  ni_ConnectedPeers :: "32 word"
  ni_StartedAt :: gotime
  ni_Version :: string

definition GetNodeInfo :: "('db, 'l, 'f, 'w, 'pub) server_libs \<Rightarrow> gotime \<Rightarrow> 'w \<Rightarrow> NodeInfo" where
  "GetNodeInfo L startedAt w =
     \<lparr>ni_PeerId = sl_self L, ni_ListenAddresses = sl_Addrs L w,
      ni_ConnectedPeers = word_of_nat (length (sl_ConnectedPeers L w)), ni_StartedAt = startedAt, ni_Version = ''0.1.0''\<rparr>"

definition empty_extension :: pb_P2PExtension where
  "empty_extension = \<lparr>ext_PeerId = [], DidKey = [], DidWeb = [], SupportedTransports = [], RelayAddresses = []\<rparr>"

definition own_extension :: "('db, 'l, 'f, 'w, 'pub) server_libs \<Rightarrow> pb_P2PExtension option \<Rightarrow> pb_P2PExtension" where
  "own_extension L x =
     (let e = (case x of None \<Rightarrow> empty_extension | Some e \<Rightarrow> e)\<lparr>ext_PeerId := sl_self L\<rparr>
      in case PeerIDToDIDKey (sl_did L) (sl_self L) of Inl _ \<Rightarrow> e | Inr didKey \<Rightarrow> e\<lparr>DidKey := didKey\<rparr>)"

definition SetAgentCard ::
  "('db, 'l, 'f, 'w, 'pub) server_libs \<Rightarrow> pb_AgentCard option \<Rightarrow> ('l, 'f, 'w) Server \<Rightarrow> 'db \<Rightarrow> 'w \<Rightarrow>
   unit rpc \<times> ('l, 'f, 'w) Server \<times> 'db" where
  "SetAgentCard L req s d w =
     (case req of
        None \<Rightarrow> (Inl (InvalidArgument, DText ''card is required''), s, d)
      | Some c \<Rightarrow>
          (let c' = c\<lparr>P2PExtension := Some (own_extension L (P2PExtension c))\<rparr> in
           case sl_MarshalCard L c' of
             None \<Rightarrow> (Inl (Internal, DText ''marshal card''), s, d)
           | Some raw \<Rightarrow>
               (let s1 = s\<lparr>srv_card := Some c', cardRaw := Some raw\<rparr>;
                    d1 = SetSelfCard (lib_bolt (sl_router L)) raw (srv_host s) d
                in (Inr (), s1\<lparr>background := background s1 @ map (\<lambda>pid. BgExchangeCard pid raw) (sl_ConnectedPeers L w)\<rparr>, d1))))"

definition GetLocalCardBytes :: "('l, 'f, 'w) Server \<Rightarrow> bytes option" where
  "GetLocalCardBytes s = cardRaw s"

definition GetLocalCard :: "('l, 'f, 'w) Server \<Rightarrow> pb_AgentCard option" where
  "GetLocalCard s = srv_card s"

record PeerInfo =
  pi_PeerId :: string
  pi_Addresses :: "string list"
  pi_ConnectedAt :: "gotime option"

definition ConnectPeer ::
  "('db, 'l, 'f, 'w, 'pub) server_libs \<Rightarrow> gotime \<Rightarrow> string \<Rightarrow> string list \<Rightarrow> ('l, 'f, 'w) Server \<Rightarrow> 'w \<Rightarrow>
   PeerInfo rpc \<times> ('l, 'f, 'w) Server \<times> 'w" where
  "ConnectPeer L now peerId addresses s w =
     (if peerId = [] then (Inl (InvalidArgument, DText ''peer_id is required''), s, w)
      else case sl_peer_Decode L peerId of
        None \<Rightarrow> (Inl (InvalidArgument, DDecode peerId), s, w)
      | Some pid \<Rightarrow>
          (case sl_Connect L pid (filter (sl_NewMultiaddr L) addresses) w of
             (Some err, w') \<Rightarrow> (Inl (Unavailable, DText (''connect to peer '' @ pid @ '': '' @ err)), s, w')
           | (None, w') \<Rightarrow>
               (Inr \<lparr>pi_PeerId = pid, pi_Addresses = [], pi_ConnectedAt = Some now\<rparr>,
                (case GetLocalCardBytes s of None \<Rightarrow> s | Some raw \<Rightarrow> start_job (BgExchangeCard pid raw) s), w')))"

definition ListPeers :: "('db, 'l, 'f, 'w, 'pub) server_libs \<Rightarrow> 'w \<Rightarrow> PeerInfo list" where
  "ListPeers L w =
     map (\<lambda>pid. \<lparr>pi_PeerId = pid, pi_Addresses = (case sl_ConnAddr L pid w of None \<Rightarrow> [] | Some a \<Rightarrow> [a]), pi_ConnectedAt = None\<rparr>)
       (sl_ConnectedPeers L w)"

definition server_GetPeerCard :: "('db, 'l, 'f, 'w, 'pub) server_libs \<Rightarrow> string \<Rightarrow> ('l, 'f, 'w) Server \<Rightarrow> pb_AgentCard rpc" where
  "server_GetPeerCard L peerId s =
     (if peerId = [] then Inl (InvalidArgument, DText ''peer_id is required'')
      else case sl_peer_Decode L peerId of
        None \<Rightarrow> Inl (InvalidArgument, DDecode peerId)
      | Some pid \<Rightarrow>
          (case host_GetPeerCard pid (srv_host s) of
             None \<Rightarrow> Inl (NotFound, DText (''no card for peer '' @ peerId))
           | Some dat \<Rightarrow>
               (case pb_UnmarshalCard (lib_pb (sl_router L)) dat of
                  None \<Rightarrow> Inl (Internal, DText ''unmarshal peer card'')
                | Some c \<Rightarrow> Inr c)))"

section \<open>Sending tasks\<close>

definition taskToProto :: "Task \<Rightarrow> pb_Message \<Rightarrow> pb_Task" where
  "taskToProto task msg = task_response task [msg]"

definition router_send ::
  "('db, 'l, 'f, 'w, 'pub) server_libs \<Rightarrow> server_inputs \<Rightarrow> peer_id \<Rightarrow> pb_Message \<Rightarrow> string \<Rightarrow> ('l, 'f, 'w) Server \<Rightarrow> 'db \<Rightarrow> 'w \<Rightarrow>
   (router_error + Task) \<times> ('l, 'f, 'w) Server \<times> 'db \<times> 'w" where
  "router_send L i pid msg skill s d w =
     (case SendTask (sl_router L) (si_router i) pid (Some msg) skill [] (srv_router s) d w of
        (res, r', d', w') \<Rightarrow> (res, s\<lparr>srv_router := r'\<rparr>, d', w'))"

definition sendTaskToPeer ::
  "('db, 'l, 'f, 'w, 'pub) server_libs \<Rightarrow> server_inputs \<Rightarrow> string \<Rightarrow> pb_Message \<Rightarrow> ('l, 'f, 'w) Server \<Rightarrow> 'db \<Rightarrow> 'w \<Rightarrow>
   pb_Task rpc \<times> ('l, 'f, 'w) Server \<times> 'db \<times> 'w" where
  "sendTaskToPeer L i peerIDStr msg s d w =
     (case sl_peer_Decode L peerIDStr of
        None \<Rightarrow> (Inl (InvalidArgument, DDecode peerIDStr), s, d, w)
      | Some pid \<Rightarrow>
          (case router_send L i pid msg [] s d w of
             (Inl err, s', d', w') \<Rightarrow> (Inl (Internal, DRouter pid err), s', d', w')
           | (Inr task, s', d', w') \<Rightarrow> (Inr (taskToProto task msg), s', d', w')))"

definition sendTaskBySkill ::
  "('db, 'l, 'f, 'w, 'pub) server_libs \<Rightarrow> server_inputs \<Rightarrow> string \<Rightarrow> pb_Message \<Rightarrow> ('l, 'f, 'w) Server \<Rightarrow> 'db \<Rightarrow> 'w \<Rightarrow>
   pb_Task rpc \<times> ('l, 'f, 'w) Server \<times> 'db \<times> 'w" where
  "sendTaskBySkill L i skillID msg s d w =
     (case anycastRouter s of
        None \<Rightarrow> (Inl (Unavailable, DText ''anycast routing is not configured''), s, d, w)
      | Some ar \<Rightarrow>
          (case Resolve (ri_clock (si_router i) 8) (ri_clock (si_router i) 9) skillID ar w of
             (Inl err, ar', w1) \<Rightarrow> (Inl (NotFound, DAnycast err), s\<lparr>anycastRouter := Some ar'\<rparr>, d, w1)
           | (Inr targetPeer, ar', w1) \<Rightarrow>
               (case router_send L i targetPeer msg skillID (s\<lparr>anycastRouter := Some ar'\<rparr>) d w1 of
                  (Inl err, s', d', w') \<Rightarrow>
                    (Inl (Internal, DRouter targetPeer err), s'\<lparr>anycastRouter := Some (InvalidateCache skillID ar')\<rparr>, d', w')
                | (Inr task, s', d', w') \<Rightarrow> (Inr (taskToProto task msg), s', d', w'))))"

definition sendTaskViaHTTPBridge ::
  "('db, 'l, 'f, 'w, 'pub) server_libs \<Rightarrow> server_inputs \<Rightarrow> string \<Rightarrow> pb_Message \<Rightarrow> ('l, 'f, 'w) Server \<Rightarrow> 'db \<Rightarrow> 'w \<Rightarrow>
   pb_Task rpc \<times> ('l, 'f, 'w) Server \<times> 'db \<times> 'w" where
  "sendTaskViaHTTPBridge L i targetURL msg s d w =
     (if \<not> outboundBridge s then (Inl (Unavailable, DText ''HTTP bridge is not configured''), s, d, w)
      else case outbound_SendTask (sl_json L) (sl_http L) (si_uuid i) (si_now i) (si_msg_uuid i) (si_msg_now i) targetURL msg w of
        (Inl err, w') \<Rightarrow> (Inl (Internal, DBridge targetURL err), s, d, w')
      | (Inr t, w') \<Rightarrow> (Inr t, s, d, w'))"

definition resolveConnectionCoreTarget :: "send_target option \<Rightarrow> string option" where
  "resolveConnectionCoreTarget tgt =
     (case tgt of
        Some (TargetUrl url) \<Rightarrow>
          if HasPrefix url ''http://'' \<or> HasPrefix url ''https://'' \<or> HasPrefix url ''nats://'' then Some url else None
      | _ \<Rightarrow> None)"

text \<open>The envelope that carries a task. The loop over the metadata sets every entry, in any order.\<close>

definition core_envelope ::
  "('db, 'l, 'f, 'w, 'pub) server_libs \<Rightarrow> server_inputs \<Rightarrow> string \<Rightarrow> bytes \<Rightarrow> (string \<rightharpoonup> string) \<Rightarrow> Envelope" where
  "core_envelope L i tgt payload metadata =
     (envelope_New (si_uuid i) (si_now i) TypeTask tgt (Some payload))
       \<lparr>Source := \<lparr>PeerID = sl_self L,
                   DIDKey = (case PeerIDToDIDKey (sl_did L) (sl_self L) of Inl _ \<Rightarrow> [] | Inr didKey \<Rightarrow> didKey)\<rparr>,
        Metadata := Some metadata\<rparr>"

definition sendTaskViaConnectionCore ::
  "('db, 'l, 'f, 'w, 'pub) server_libs \<Rightarrow> server_inputs \<Rightarrow> string \<Rightarrow> pb_Message \<Rightarrow> (string \<rightharpoonup> string) \<Rightarrow> ('l, 'f, 'w) Server \<Rightarrow> 'db \<Rightarrow> 'w \<Rightarrow>
   pb_Task rpc \<times> ('l, 'f, 'w) Server \<times> 'db \<times> 'w" where
  "sendTaskViaConnectionCore L i tgt msg metadata s d w =
     (case sl_MarshalMessage L msg of
        None \<Rightarrow> (Inl (Internal, DText ''marshal message''), s, d, w)
      | Some payload \<Rightarrow>
          (let r = srv_router s; n = fst (policy_state r); c = snd (policy_state r) in
           case Route (sl_core L) (si_core i) (core_envelope L i tgt payload metadata) c w of
             (Some err, _, c', w') \<Rightarrow>
               (Inl (Internal, DCore err), s\<lparr>srv_router := r\<lparr>policy_state := (n, c')\<rparr>\<rparr>, d, w')
           | (None, _, c', w') \<Rightarrow>
               (case CreateTask (lib_bolt (sl_router L)) (lib_json (sl_router L)) (ri_uuid (si_router i))
                       (ri_clock (si_router i) 0) (ri_clock (si_router i) 1) [] [] (sl_self L) (engine r) d of
                  (task, e', d') \<Rightarrow>
                    (Inr (taskToProto task msg), s\<lparr>srv_router := r\<lparr>policy_state := (n, c'), engine := e'\<rparr>\<rparr>, d', w'))))"

definition server_SendTask ::
  "('db, 'l, 'f, 'w, 'pub) server_libs \<Rightarrow> server_inputs \<Rightarrow> SendTaskRequest \<Rightarrow> ('l, 'f, 'w) Server \<Rightarrow> 'db \<Rightarrow> 'w \<Rightarrow>
   pb_Task rpc \<times> ('l, 'f, 'w) Server \<times> 'db \<times> 'w" where
  "server_SendTask L i req s d w =
     (case sr_Message req of
        None \<Rightarrow> (Inl (InvalidArgument, DText ''message is required''), s, d, w)
      | Some msg \<Rightarrow>
          (case (if connectionCore s then resolveConnectionCoreTarget (sr_Target req) else None) of
             Some tgt \<Rightarrow> sendTaskViaConnectionCore L i tgt msg (sr_Metadata req) s d w
           | None \<Rightarrow>
               (case sr_Target req of
                  Some (TargetPeerId p) \<Rightarrow> sendTaskToPeer L i p msg s d w
                | Some (TargetSkillId sk) \<Rightarrow> sendTaskBySkill L i sk msg s d w
                | Some (TargetUrl url) \<Rightarrow> sendTaskViaHTTPBridge L i url msg s d w
                | None \<Rightarrow> (Inl (InvalidArgument, DText ''target (peer_id, skill_id, or url) is required''), s, d, w))))"

section \<open>Subscriptions\<close>

definition updates_open :: "string \<Rightarrow> ('l, 'f, 'w) Server \<Rightarrow> nat rpc \<times> ('l, 'f, 'w) Server" where
  "updates_open taskID s =
     (if taskID = [] then (Inl (InvalidArgument, DText ''task_id is required''), s)
      else case SubscribeTaskUpdates taskID (srv_router s) of (ch, r') \<Rightarrow> (Inr ch, s\<lparr>srv_router := r'\<rparr>))"

definition updates_next :: "nat \<Rightarrow> ('l, 'f, 'w) Server \<Rightarrow> TaskUpdateEvent option \<times> ('l, 'f, 'w) Server" where
  "updates_next ch s =
     (let r = srv_router s in
      case chans (subs r) ch of
        Some (evt # q) \<Rightarrow> (Some evt, s\<lparr>srv_router := r\<lparr>subs := (subs r)\<lparr>chans := (chans (subs r))(ch \<mapsto> q)\<rparr>\<rparr>\<rparr>)
      | _ \<Rightarrow> (None, s))"

definition updates_end :: "string \<Rightarrow> nat \<Rightarrow> ('l, 'f, 'w) Server \<Rightarrow> ('l, 'f, 'w) Server" where
  "updates_end taskID ch s = s\<lparr>srv_router := UnsubscribeTaskUpdates taskID ch (srv_router s)\<rparr>"

definition SubscribeTaskStream :: "string \<Rightarrow> ('l, 'f, 'w) Server \<Rightarrow> (chan_ref \<times> session_ref) rpc \<times> ('l, 'f, 'w) Server" where
  "SubscribeTaskStream taskID s =
     (if taskID = [] then (Inl (InvalidArgument, DText ''task_id is required''), s)
      else case streamMgr s of
        None \<Rightarrow> (Inl (Unavailable, DText ''streaming is not configured''), s)
      | Some m \<Rightarrow> (case Subscribe taskID m of (ch, ses, m') \<Rightarrow> (Inr (ch, ses), s\<lparr>streamMgr := Some m'\<rparr>)))"

definition server_SendStreamingArtifact :: "stream_event option list \<Rightarrow> ('l, 'f, 'w) Server \<Rightarrow> unit rpc \<times> ('l, 'f, 'w) Server" where
  "server_SendStreamingArtifact reqs s =
     (case streamMgr s of
        None \<Rightarrow> (Inl (Unavailable, DText ''streaming is not configured''), s)
      | Some m \<Rightarrow>
          (case SendStreamingArtifact reqs m of
             (Some err, m') \<Rightarrow> (Inl (Internal, DStream err), s\<lparr>streamMgr := Some m'\<rparr>)
           | (None, m') \<Rightarrow> (Inr (), s\<lparr>streamMgr := Some m'\<rparr>)))"

section \<open>Discovery\<close>

record DiscoveredAgent =
  da_PeerId :: string
  da_AgentName :: string
  da_Description :: string
  da_Skills :: "SkillInfo list"

definition server_Discover ::
  "server_inputs \<Rightarrow> string \<Rightarrow> ('l, 'f, 'w) Server \<Rightarrow> 'w \<Rightarrow> DiscoveredAgent list rpc \<times> ('l, 'f, 'w) Server \<times> 'w" where
  "server_Discover i skillId s w =
     (if skillId = [] then (Inl (InvalidArgument, DText ''skill_id is required''), s, w)
      else case anycastRouter s of
        None \<Rightarrow> (Inl (Unavailable, DText ''anycast routing is not configured''), s, w)
      | Some ar \<Rightarrow>
          (case anycast_Discover (si_now i) skillId ar w of
             (Inl err, ar', w') \<Rightarrow> (Inl (Internal, DAnycast err), s\<lparr>anycastRouter := Some ar'\<rparr>, w')
           | (Inr eps, ar', w') \<Rightarrow>
               (Inr (map (\<lambda>ep. \<lparr>da_PeerId = ep_PeerID ep, da_AgentName = AgentName ep, da_Description = ep_Description ep,
                               da_Skills = ep_Skills ep\<rparr>) eps), s\<lparr>anycastRouter := Some ar'\<rparr>, w')))"

end
