(* ===== verification/GrpcFacts.thy ===== *)
theory GrpcFacts
  imports GrpcServer
begin

text \<open>
  What the calls of the gRPC service guarantee: the calls of an executing agent against an abstract
  specification, a task from its submission to its completion across two nodes, the order of the
  goroutines that report, cancellation, the MCP proxy, sending by skill and to a URL, the fan-out of
  incoming tasks and the node's own card.
\<close>

section \<open>Calls of an executing agent\<close>

lemma srv_transition_ok:
  assumes "tasks (engine (srv_router s)) k = Some t" "status_step (Status t) new"
  shows "\<exists>st' d'. srv_transition L now k new s d =
    (None, s\<lparr>srv_router := (srv_router s)\<lparr>engine := (engine (srv_router s))
       \<lparr>tasks := (tasks (engine (srv_router s)))(k \<mapsto> t\<lparr>Status := new, UpdatedAt := now\<rparr>)\<rparr>, subs := st'\<rparr>\<rparr>, d')"
  by (simp add: srv_transition_def TransitionTask_ok [OF assms] Let_def) blast

lemma srv_transition_err:
  assumes "\<nexists>t. tasks (engine (srv_router s)) k = Some t \<and> status_step (Status t) new"
  shows "\<exists>err. srv_transition L now k new s d = (Some err, s, d)"
  using TransitionTask_err [OF assms, of "lib_bolt (sl_router L)" "lib_json (sl_router L)" now d "subs (srv_router s)"]
  by (auto simp: srv_transition_def Let_def)

text \<open>The task table of the node of a server.\<close>

abbreviation srv_tasks :: "('l, 'f, 'w) Server \<Rightarrow> (string \<rightharpoonup> Task)" where
  "srv_tasks s \<equiv> tasks (engine (srv_router s))"

text \<open>
  The specification of a call that moves task \<open>k\<close> to the status \<open>new\<close>: either it is accepted, then the
  life cycle has the step, only this task changes, and one goroutine is started that tells the task's
  originator, if that is another node; or it is refused with a code that says why, and nothing changes.
\<close>

definition moves_and_reports ::
  "('db, 'l, 'f, 'w, 'pub) server_libs \<Rightarrow> gotime \<Rightarrow> string \<Rightarrow> TaskStatus \<Rightarrow> (peer_id \<Rightarrow> bg_job) \<Rightarrow> ('l, 'f, 'w) Server \<Rightarrow> 'db \<Rightarrow>
   unit rpc \<times> ('l, 'f, 'w) Server \<times> 'db \<Rightarrow> bool" where
  "moves_and_reports L now k new mk s d out \<longleftrightarrow>
     (case out of
        (Inr _, s', d') \<Rightarrow> k \<noteq> [] \<and> (\<exists>t. srv_tasks s k = Some t \<and> status_step (Status t) new
          \<and> srv_tasks s' = (srv_tasks s)(k \<mapsto> t\<lparr>Status := new, UpdatedAt := now\<rparr>)
          \<and> background s' = background s @ (case report_to L t of None \<Rightarrow> [] | Some p \<Rightarrow> [mk p]))
      | (Inl (c, _), s', d') \<Rightarrow> s' = s \<and> d' = d
          \<and> (if k = [] then c = InvalidArgument
             else c = FailedPrecondition \<and> (\<nexists>t. srv_tasks s k = Some t \<and> status_step (Status t) new)))"

lemma report_to_upd [simp]: "report_to L (t\<lparr>Status := x, UpdatedAt := y\<rparr>) = report_to L t"
  by (simp add: report_to_def)

lemma move_and_report_spec: "moves_and_reports L now k new mk s d (move_and_report L now k new mk s d)"
proof (cases "k \<noteq> [] \<and> (\<exists>t. srv_tasks s k = Some t \<and> status_step (Status t) new)")
  case True
  then obtain t where t: "srv_tasks s k = Some t" "status_step (Status t) new" by blast
  from srv_transition_ok [OF t, of L now d] True t show ?thesis
    by (cases "report_to L t") (auto simp: moves_and_reports_def move_and_report_def report_job_def GetTask_def start_job_def)
next
  case False
  show ?thesis
  proof (cases "k = []")
    case False
    with \<open>\<not> (k \<noteq> [] \<and> _)\<close> have no: "\<nexists>t. srv_tasks s k = Some t \<and> status_step (Status t) new" by blast
    from srv_transition_err [OF no, of L now d] no False show ?thesis
      by (auto simp: moves_and_reports_def move_and_report_def)
  qed (simp add: moves_and_reports_def move_and_report_def)
qed

text \<open>
  C14. The calls by which an agent works on a task. \<open>UpdateTaskStatus\<close>, \<open>CompleteTask\<close> and \<open>FailTask\<close> all
  implement the same specification: an accepted call is a step of the life cycle and is reported to the
  originator exactly once, a refused call changes nothing.
\<close>

theorem agent_calls_refine:
  "moves_and_reports L now k (ProtoToTaskStatus st) (\<lambda>p. BgStatusUpdate p k st msg) s d (UpdateTaskStatus L now k st msg s d)
   \<and> moves_and_reports L now k StatusCompleted (\<lambda>p. BgComplete p k arts msg) s d (CompleteTask L now k arts msg s d)
   \<and> moves_and_reports L now k StatusFailed (\<lambda>p. BgFail p k err) s d (FailTask L now k err s d)"
  unfolding UpdateTaskStatus_def CompleteTask_def FailTask_def by (intro conjI move_and_report_spec)

lemma call_accepted:
  assumes "move_and_report L now k new mk s d = (res, s', d')" "srv_tasks s k = Some t" "status_step (Status t) new" "k \<noteq> []"
    and "report_to L t = Some a"
  shows "res = Inr ()" "srv_tasks s' k = Some (t\<lparr>Status := new, UpdatedAt := now\<rparr>)" "background s' = background s @ [mk a]"
  using move_and_report_spec [of L now k new mk s d] assms
  by (cases res; auto simp: moves_and_reports_def)+

section \<open>Messages on a link\<close>

lemma send_tracked_linked:
  assumes "linked L" "pb_codec_ok (lib_pb L)" "send_tracked L now q env r w = (err, r', w')"
  shows "engine r' = engine r \<and> subs r' = subs r \<and> (w' = w \<or> (\<exists>dat. w' = w @ [(q, dat)] \<and> pb_Unmarshal (lib_pb L) dat = Some env))"
  using assms by (auto simp: send_tracked_def linked_def pb_codec_ok_def split: option.splits)

text \<open>A message that asks for a transition, received and admitted by the node where the task is.\<close>

lemma receive_transition:
  assumes "pb_Unmarshal (lib_pb L) dat = Some env" "admitted q env r"
    and "message_op i q env = Some (OpTransition now k new)" "tasks (engine r) k = Some t"
    and "HandleMessage L i q dat (r, d, w) = (r', d', w')"
  shows "tasks (engine r') k = Some (if status_step (Status t) new then t\<lparr>Status := new, UpdatedAt := now\<rparr> else t)"
proof -
  obtain ack r1 d1 where dsp: "dispatch L i q env (after_checks q env r) d = (ack, r1, d1)" by (metis prod_cases3)
  then have "r1 = r'" using assms(1,2,5) by (simp add: HandleMessage_admitted)
  with dispatch_engine [OF dsp] assms(3)
  obtain c where "engine_run1 (lib_bolt L) (lib_json L) (OpTransition now k new) (engine r, d, subs r) = (engine r', d1, c)"
    by (auto simp: run_op_option_def)
  then have run: "engine r' = fst (snd (TransitionTask (lib_bolt L) (lib_json L) now k new (engine r) d (subs r)))" by simp
  show ?thesis
  proof (cases "status_step (Status t) new")
    case True
    have "engine r' = (engine r)\<lparr>tasks := (tasks (engine r))(k \<mapsto> t\<lparr>Status := new, UpdatedAt := now\<rparr>)\<rparr>"
      unfolding run TransitionTask_ok [OF assms(4) True] by (simp add: Let_def)
    with True show ?thesis by simp
  next
    case False
    with assms(4) have "engine r' = engine r"
      using run TransitionTask_err [of "engine r" k new "lib_bolt L" "lib_json L" now d "subs r"] by auto
    with False assms(4) show ?thesis by simp
  qed
qed

lemma op_status_update:
  "message_op i q (mk_envelope u ENVELOPE_TYPE_TASK_STATUS_UPDATE now
     (PTaskStatusUpdate \<lparr>su_TaskId = k, su_Status = st, su_Message = m\<rparr>)) = Some (OpTransition (ri_clock i 0) k (ProtoToTaskStatus st))"
  by (simp add: message_op_def mk_envelope_def)

lemma op_complete:
  "message_op i q (mk_envelope u ENVELOPE_TYPE_TASK_COMPLETE now
     (PTaskComplete \<lparr>tc_TaskId = k, tc_Artifacts = arts, tc_Message = m\<rparr>)) = Some (OpTransition (ri_clock i 0) k StatusCompleted)"
  by (simp add: message_op_def mk_envelope_def)

lemma op_fail:
  "message_op i q (mk_envelope u ENVELOPE_TYPE_TASK_FAIL now
     (PTaskFail \<lparr>tf_TaskId = k, tf_ErrorMessage = e, tf_Message = m\<rparr>)) = Some (OpTransition (ri_clock i 0) k StatusFailed)"
  by (simp add: message_op_def mk_envelope_def)

lemmas report_ops = op_status_update op_complete op_fail

section \<open>A task from node to node\<close>

text \<open>A goroutine that reports on task \<open>k\<close> to peer \<open>a\<close>, and the engine call that its message leads to at the receiver.\<close>

fun reports_on :: "string \<Rightarrow> peer_id \<Rightarrow> bg_job \<Rightarrow> TaskStatus option" where
  "reports_on k a (BgStatusUpdate p j st m) = (if p = a \<and> j = k then Some (ProtoToTaskStatus st) else None)"
| "reports_on k a (BgComplete p j arts m) = (if p = a \<and> j = k then Some StatusCompleted else None)"
| "reports_on k a (BgFail p j e) = (if p = a \<and> j = k then Some StatusFailed else None)"
| "reports_on k a _ = None"

lemma run_report:
  assumes "reports_on k a j = Some new" "linked (sl_router L)" "pb_codec_ok (lib_pb (sl_router L))"
    and "run_job L i handler j s d w = (s', d', w')"
  shows "srv_tasks s' = srv_tasks s \<and> background s' = background s \<and> d' = d
    \<and> (w' = w \<or> (\<exists>dat env. w' = w @ [(a, dat)] \<and> pb_Unmarshal (lib_pb (sl_router L)) dat = Some env
        \<and> (\<forall>iA b. message_op iA b env = Some (OpTransition (ri_clock iA 0) k new))))"
proof -
  let ?R = "sl_router L"
  let ?done = "\<lambda>env. \<forall>iA b. message_op iA b env = Some (OpTransition (ri_clock iA 0) k new)"
  obtain now env err r' where j: "send_tracked ?R now a env (srv_router s) w = (err, r', w')" "s' = s\<lparr>srv_router := r'\<rparr>" "d' = d"
      "?done env"
  proof (cases j)
    case (BgStatusUpdate p k' st m)
    with assms(1,4) that show ?thesis
      by (auto simp: SendStatusUpdate_def op_status_update split: prod.splits if_splits)
  next
    case (BgComplete p k' arts m)
    with assms(1,4) that show ?thesis
      by (auto simp: SendComplete_def op_complete split: prod.splits if_splits)
  next
    case (BgFail p k' e)
    with assms(1,4) that show ?thesis
      by (auto simp: SendFail_def op_fail split: prod.splits if_splits)
  qed (use assms(1) in auto)
  from send_tracked_linked [OF assms(2,3) j(1)] j(2-4) show ?thesis by auto
qed

definition admits :: "('db, 'w) router_libs \<Rightarrow> peer_id \<Rightarrow> bytes \<Rightarrow> 'p Router \<Rightarrow> bool" where
  "admits L b dat r \<longleftrightarrow> (\<exists>env. pb_Unmarshal (lib_pb L) dat = Some env \<and> admitted b env r)"

text \<open>One report: a goroutine of node B runs and its message is received by node A, which has the task.\<close>

lemma report_received:
  assumes "reports_on k a j = Some new" "linked (sl_router L)" "pb_codec_ok (lib_pb (sl_router L))" "lib_pb LA = lib_pb (sl_router L)"
    and "run_job L i handler j s d [] = (s', d', [(p, dat)])"
    and "admits LA b dat r" "HandleMessage LA iA b dat (r, dA, wA) = (r', dA', wA')" "tasks (engine r) k = Some t"
  shows "p = a \<and> srv_tasks s' = srv_tasks s \<and> background s' = background s \<and> d' = d
    \<and> tasks (engine r') k = Some (if status_step (Status t) new then t\<lparr>Status := new, UpdatedAt := ri_clock iA 0\<rparr> else t)"
proof -
  from run_report [OF assms(1-3,5)] obtain env where env: "p = a" "pb_Unmarshal (lib_pb LA) dat = Some env"
    "message_op iA b env = Some (OpTransition (ri_clock iA 0) k new)" "srv_tasks s' = srv_tasks s" "background s' = background s" "d' = d"
    using assms(4) by auto
  moreover have "admitted b env r" using assms(6) env(2) by (simp add: admits_def)
  ultimately show ?thesis using receive_transition [OF env(2) _ env(3) assms(8,7)] by simp
qed

lemma run_background_nth:
  "n < length (background s) \<Longrightarrow> run_background L i handler n s d w =
     run_job L i handler (background s ! n) (s\<lparr>background := take n (background s) @ drop (Suc n) (background s)\<rparr>) d w"
  by (simp add: run_background_def)


text \<open>
  Reports may overtake each other. Each call starts a goroutine of its own. When the completion is
  sent before the update to working, the originator refuses the completion, since its task is still
  submitted, and then accepts the update: its task stays working although the task is completed and
  nothing is left to be sent.
\<close>

theorem racing_reports:
  assumes "linked (sl_router L)" and "pb_codec_ok (lib_pb (sl_router L))" and "lib_pb LA = lib_pb (sl_router L)"
    and "k \<noteq> []" and "srv_tasks s k = Some tB" and "Status tB = StatusSubmitted" and "report_to L tB = Some a" and "background s = []"
    and "tasks (engine rA) k = Some tA" and "Status tA = StatusSubmitted"
    and "UpdateTaskStatus L n1 k TASK_STATUS_WORKING m1 s d = (res1, s1, d1)"
    and "CompleteTask L n2 k arts m2 s1 d1 = (res2, s2, d2)"
    and "run_background L i1 handler 1 s2 d2 [] = (s3, d3, [(p1, dat1)])"
    and "run_background L i2 handler 0 s3 d3 [] = (s4, d4, [(p2, dat2)])"
    and "admits LA b dat1 rA" and "HandleMessage LA iA1 b dat1 (rA, dA, wA) = (rA1, dA1, wA1)"
    and "admits LA b dat2 rA1" and "HandleMessage LA iA2 b dat2 (rA1, dA1, wA1) = (rA2, dA2, wA2)"
  shows "res1 = Inr () \<and> res2 = Inr () \<and> background s4 = []
    \<and> map_option Status (srv_tasks s4 k) = Some StatusCompleted
    \<and> map_option Status (tasks (engine rA2) k) = Some StatusWorking"
proof -
  have B1: "res1 = Inr ()" "srv_tasks s1 k = Some (tB\<lparr>Status := StatusWorking, UpdatedAt := n1\<rparr>)"
      "background s1 = [BgStatusUpdate a k TASK_STATUS_WORKING m1]"
    using call_accepted [OF assms(11) [unfolded UpdateTaskStatus_def] assms(5)] assms(4,6-8) by simp_all
  have B2: "res2 = Inr ()" "map_option Status (srv_tasks s2 k) = Some StatusCompleted"
      "background s2 = [BgStatusUpdate a k TASK_STATUS_WORKING m1, BgComplete a k arts m2]"
    using call_accepted [OF assms(12) [unfolded CompleteTask_def] B1(2)] assms(4,7) B1(3) by simp_all
  have "run_job L i1 handler (BgComplete a k arts m2) (s2\<lparr>background := [BgStatusUpdate a k TASK_STATUS_WORKING m1]\<rparr>) d2 [] = (s3, d3, [(p1, dat1)])"
    using assms(13) B2(3) by (simp add: run_background_nth del: run_job.simps)
  from report_received [where a = a and new = StatusCompleted, OF _ assms(1-3) this assms(15,16,9)] B2 assms(10)
  have R1: "srv_tasks s3 = srv_tasks s2" "background s3 = [BgStatusUpdate a k TASK_STATUS_WORKING m1]"
      "tasks (engine rA1) k = Some tA" by simp_all
  have "run_job L i2 handler (BgStatusUpdate a k TASK_STATUS_WORKING m1) (s3\<lparr>background := []\<rparr>) d3 [] = (s4, d4, [(p2, dat2)])"
    using assms(14) R1(2) by (simp add: run_background_nth del: run_job.simps)
  from report_received [where a = a and new = StatusWorking, OF _ assms(1-3) this assms(17,18) R1(3)] B2(1,2) assms(10) R1(1) B1(1) show ?thesis by simp
qed

section \<open>Cancellation\<close>

lemma to_failed: "status_step x StatusFailed \<longleftrightarrow> x = StatusWorking"
  by (cases x) auto

lemma CancelTask_effect:
  assumes "k \<noteq> []" "srv_tasks s k = Some t" "task_ID t = k" "report_to L t = Some a" "CancelTask L now k s d = (res, s', d')"
  shows "background s' = background s @ [BgFail a k ''canceled by local node''] \<and>
    (if status_step (Status t) StatusCanceled
     then map_option Status (srv_tasks s' k) = Some StatusCanceled \<and> (\<exists>pt. res = Inr pt \<and> pbt_Status pt = TASK_STATUS_CANCELED)
     else srv_tasks s' = srv_tasks s \<and> (\<exists>e. res = Inl (FailedPrecondition, e)))"
proof -
  let ?s = "start_job (BgFail a k ''canceled by local node'') s"
  have t: "srv_tasks ?s k = Some t" using assms(2) by (simp add: start_job_def)
  show ?thesis
  proof (cases "status_step (Status t) StatusCanceled")
    case True
    with srv_transition_ok [OF t True, of L now d] assms show ?thesis
      by (auto simp: CancelTask_def GetTask_def start_job_def task_response_def)
  next
    case False
    with t have "\<nexists>t. srv_tasks ?s k = Some t \<and> status_step (Status t) StatusCanceled" by simp
    from srv_transition_err [OF this, of L now d] False assms show ?thesis
      by (auto simp: CancelTask_def GetTask_def start_job_def)
  qed
qed

text \<open>
  What a cancellation tells the originator. Canceling a task of another node always sends its
  originator a failure, before the transition is tried: also when the task is finished and the call
  itself is refused. The originator never sees the task canceled: a working task becomes failed there,
  and a submitted one stays submitted, since the life cycle has no failure of a submitted task.
\<close>

theorem cancel_is_reported_as_failure:
  assumes "linked (sl_router L)" and "pb_codec_ok (lib_pb (sl_router L))" and "lib_pb LA = lib_pb (sl_router L)"
    and "k \<noteq> []" and "srv_tasks s k = Some tB" and "task_ID tB = k" and "report_to L tB = Some a" and "background s = []"
    and "CancelTask L now k s d = (res, s1, d1)"
    and "run_background L i handler 0 s1 d1 [] = (s2, d2, [(p, dat)])"
    and "tasks (engine rA) k = Some tA" and "admits LA b dat rA" and "HandleMessage LA iA b dat (rA, dA, wA) = (rA', dA', wA')"
  shows "p = a
    \<and> (if status_step (Status tB) StatusCanceled
       then map_option Status (srv_tasks s2 k) = Some StatusCanceled \<and> (\<exists>pt. res = Inr pt \<and> pbt_Status pt = TASK_STATUS_CANCELED)
       else srv_tasks s2 = srv_tasks s \<and> (\<exists>e. res = Inl (FailedPrecondition, e)))
    \<and> map_option Status (tasks (engine rA') k) = Some (if Status tA = StatusWorking then StatusFailed else Status tA)"
proof -
  note C = CancelTask_effect [OF assms(4-7,9)]
  have "run_job L i handler (BgFail a k ''canceled by local node'') (s1\<lparr>background := []\<rparr>) d1 [] = (s2, d2, [(p, dat)])"
    using assms(8,10) C by (simp add: run_background_nth del: run_job.simps)
  from report_received [where a = a and new = StatusFailed, OF _ assms(1-3) this assms(12,13,11)] C show ?thesis
    by (simp add: to_failed)
qed

section \<open>Tasks of the MCP proxy\<close>

text \<open>
  Results of the MCP proxy do not arrive. The handler of a proxied task moves the task to working and
  to completed on its own node, but the only message it sends to the originator is the completion. The
  originator's task is still submitted and refuses it, so it stays submitted for good and the result is
  lost.
\<close>

theorem proxy_result_refused:
  assumes "linked (sl_router L)" and "pb_codec_ok (lib_pb (sl_router L))" and "lib_pb LA = lib_pb (sl_router L)"
    and "pbt_TaskId (inc_Task evt) = k" and "remote_originator L (inc_Task evt) = Some a"
    and "srv_tasks s k = Some tB" and "Status tB = StatusSubmitted"
    and "handler (pbt_TargetSkillId (inc_Task evt)) (proxy_input (inc_Task evt)) [] = (Inr result, [])"
    and "handleMCPProxyTask L i handler evt s d [] = (s', d', [(p, dat)])"
    and "tasks (engine rA) k = Some tA" and "Status tA = StatusSubmitted"
    and "admits LA b dat rA" and "HandleMessage LA iA b dat (rA, dA, wA) = (rA', dA', wA')"
  shows "p = a \<and> map_option Status (srv_tasks s' k) = Some StatusCompleted
    \<and> tasks (engine rA') k = Some tA"
proof -
  let ?clk = "ri_clock (si_router i)"
  have w: "status_step (Status tB) StatusWorking" using assms(7) by simp
  obtain s1 d1 where s1: "srv_transition L (?clk 5) k StatusWorking s d = (None, s1, d1)"
      "srv_tasks s1 k = Some (tB\<lparr>Status := StatusWorking, UpdatedAt := ?clk 5\<rparr>)"
    using srv_transition_ok [OF assms(6) w, of L "?clk 5" d] by fastforce
  obtain s2 d2 where s2: "srv_transition L (?clk 6) k StatusCompleted s1 d1 = (None, s2, d2)"
      "map_option Status (srv_tasks s2 k) = Some StatusCompleted"
    using srv_transition_ok [OF s1(2), of StatusCompleted L "?clk 6" d1] by fastforce
  have "run_job L i handler (BgComplete a k [\<lparr>ArtifactId = [], art_Name = [], art_Parts = [TextPart result]\<rparr>] None) s2 d2 []
      = (s', d', [(p, dat)])"
    using assms(4,5,8,9) s1(1) s2(1) by (simp add: handleMCPProxyTask_def Let_def)
  from report_received [where a = a and k = k and new = StatusCompleted, OF _ assms(1-3) this assms(12,13,10)] s2(2) assms(11)
  show ?thesis by simp
qed

section \<open>Sending\<close>

text \<open>
  Tasks for HTTP agents are never sent. With the Connection Core set, as the daemon always does, a task
  for an http or https URL goes to the core, whose HTTP transport has no sender. Whatever transports of
  the daemon are registered, the call fails with an internal error and nothing is sent or recorded; the
  outbound bridge is never asked.
\<close>

theorem http_url_never_sent:
  assumes "\<And>x. CHR '':'' \<in> set x \<Longrightarrow> peer_Decode x = None" and "connectionCore s" and "sr_Target req = Some (TargetUrl url)"
    and "HasPrefix url ''http://'' \<or> HasPrefix url ''https://''" and "sr_Message req = Some msg"
    and "set (transports (snd (policy_state (srv_router s)))) \<subseteq> set (daemon_transports peer_Decode NewStream P None N)"
    and "server_SendTask L i req s d w = (res, s', d', w')"
  shows "(\<exists>e. res = Inl (Internal, e)) \<and> w' = w \<and> d' = d \<and> engine (srv_router s') = engine (srv_router s)"
proof -
  let ?c = "snd (policy_state (srv_router s))"
  have via: "server_SendTask L i req s d w = sendTaskViaConnectionCore L i url msg (sr_Metadata req) s d w"
    using assms(2-5) by (auto simp: server_SendTask_def resolveConnectionCoreTarget_def)
  have colon: "peer_Decode url = None" "\<not> nats_matches url"
    using assms(1) [of url] assms(4) by (auto simp: HasPrefix_iff nats_matches_def)
  have noSend: "\<exists>err. send_loop env ts w = (Some err, w)"
    if "Target env = url" "set ts \<subseteq> set (daemon_transports peer_Decode NewStream P None N)" for env ts
    using that
  proof (induction ts)
    case (Cons t ts)
    then show ?case
      using colon by (auto simp: daemon_transports_def libp2p_Transport_def http_Transport_def nats_Transport_def http_Send_def)
  qed simp
  have failed: "\<exists>err env' c'. Route (sl_core L) ci env ?c w = (Some err, env', c', w)" if "Target env = url" for ci env
  proof -
    obtain err env' c' w' where r: "Route (sl_core L) ci env ?c w = (err, env', c', w')" by (metis prod_cases4)
    have tgt: "Target env1 = url" if "route_encrypt (sl_core L) n env c1 = Inr env1" for n env1 c1
      using that \<open>Target env = url\<close> by (auto simp: route_encrypt_def Let_def split: option.splits if_splits sum.splits)
    have tr: "transports (snd (rate_check (sl_core L) (in_now ci) (Source env) ?c)) = transports ?c"
      using rate_check_frame by (metis prod.collapse)
    show ?thesis
      using noSend [OF tgt, of _ _ _ "transports ?c"] assms(6) tr unfolding Route_cases core_Send_def
      by (fastforce simp: Let_def split: verdict.splits sum.splits)
  qed
  have "Target (core_envelope L i url payload md) = url" for payload md
    by (simp add: core_envelope_def envelope_New_def)
  from failed [OF this] show ?thesis
    using assms(7) unfolding via
    by (auto simp: sendTaskViaConnectionCore_def Let_def split: option.splits prod.splits)
      (metis prod.inject option.distinct(1))+
qed

lemma Resolve_frame:
  assumes "Resolve t1 t2 sk ar w = (res, ar', w')"
  shows "discovery ar' = discovery ar \<and> (\<forall>sk'. sk' \<noteq> sk \<longrightarrow> entries (cache ar') sk' = entries (cache ar) sk')"
  using assms by (auto simp: Resolve_def resolve_query_def cache_Put_def Let_def split: prod.splits sum.splits if_splits)

lemma router_send_anycast: "router_send L i p msg sk s d w = (res, s', d', w') \<Longrightarrow> anycastRouter s' = anycastRouter s"
  by (auto simp: router_send_def split: prod.splits)

text \<open>
  A route that failed is forgotten. When a task is sent by skill and the chosen peer cannot be reached,
  the call reports the peer and drops the cached answer for that skill and for no other, so that the next
  resolution of the skill asks the discovery provider again.
\<close>

theorem failed_skill_send_forgets_route:
  assumes "sr_Target req = Some (TargetSkillId sk)" and "sk \<noteq> []" and "sr_Message req = Some msg" and "anycastRouter s = Some ar"
    and "server_SendTask L i req s d w = (Inl (Internal, e), s', d', w')"
  shows "\<exists>p err ar'. e = DRouter p err \<and> anycastRouter s' = Some ar'
    \<and> Resolve t1 t2 sk ar' w2 = resolve_query t2 sk ar' w2 \<and> discovery ar' = discovery ar
    \<and> (\<forall>sk'. sk' \<noteq> sk \<longrightarrow> entries (cache ar') sk' = entries (cache ar) sk')"
proof -
  have "server_SendTask L i req s d w = sendTaskBySkill L i sk msg s d w"
    using assms(1,3) by (simp add: server_SendTask_def resolveConnectionCoreTarget_def)
  with assms(5) have sent: "sendTaskBySkill L i sk msg s d w = (Inl (Internal, e), s', d', w')" by simp
  obtain res ar1 w1 where r: "Resolve (ri_clock (si_router i) 8) (ri_clock (si_router i) 9) sk ar w = (res, ar1, w1)" by (metis prod_cases3)
  with sent assms(4) obtain p where p: "res = Inr p" by (cases res) (auto simp: sendTaskBySkill_def)
  obtain res2 s2 d2 w2 where "router_send L i p msg sk (s\<lparr>anycastRouter := Some ar1\<rparr>) d w1 = (res2, s2, d2, w2)" by (metis prod_cases4)
  with sent assms(4) r p obtain err where "e = DRouter p err" "anycastRouter s' = Some (InvalidateCache sk ar1)"
    by (cases res2) (auto simp: sendTaskBySkill_def)
  moreover have "Resolve t1 t2 sk (InvalidateCache sk ar1) w2 = resolve_query t2 sk (InvalidateCache sk ar1) w2" for w2
    using assms(2) by (simp add: Resolve_def InvalidateCache_def cache_Invalidate_def cache_Get_def)
  ultimately show ?thesis
    using Resolve_frame [OF r] assms(2) by (auto simp: InvalidateCache_def cache_Invalidate_def)
qed

section \<open>Incoming tasks\<close>

text \<open>
  The steps that touch the subscribers of incoming tasks, one for each critical section: a client
  subscribes, the forwarder takes the next task, a client receives, a client that leaves removes its
  channel and then closes it; and whatever else the server does.
\<close>

inductive inc_step :: "('l, 'f, 'w) Server \<Rightarrow> ('l, 'f, 'w) Server \<Rightarrow> bool" where
  opened: "incoming_open s = (ch, s') \<Longrightarrow> inc_step s s'"
| forwarded: "inc_step s (forward_one s)"
| delivered: "incoming_next ch s = (ev, s') \<Longrightarrow> inc_step s s'"
| removed: "ch \<in> set (incomingTaskSubs s) \<Longrightarrow> inc_step s (incoming_remove ch s)"
| closed: "ch \<notin> set (incomingTaskSubs s) \<Longrightarrow> inc_chans s ch \<noteq> None \<Longrightarrow> inc_step s (incoming_close_chan ch s)"
| other: "incomingTaskSubs s' = incomingTaskSubs s \<Longrightarrow> inc_chans s' = inc_chans s \<Longrightarrow> inc_fresh s' = inc_fresh s \<Longrightarrow>
    inc_panicked s' = inc_panicked s \<Longrightarrow> inc_step s s'"

definition inc_ok :: "('l, 'f, 'w) Server \<Rightarrow> bool" where
  "inc_ok s \<longleftrightarrow> \<not> inc_panicked s \<and> distinct (incomingTaskSubs s)
     \<and> (\<forall>ch\<in>set (incomingTaskSubs s). inc_chans s ch \<noteq> None)
     \<and> (\<forall>ch q. inc_chans s ch = Some q \<longrightarrow> ch < inc_fresh s \<and> length q \<le> 16)"

lemma inc_offer_frame [simp]:
  "incomingTaskSubs (inc_offer evt ch s) = incomingTaskSubs s" "inc_fresh (inc_offer evt ch s) = inc_fresh s"
  "background (inc_offer evt ch s) = background s" "srv_router (inc_offer evt ch s) = srv_router s"
  by (simp_all add: inc_offer_def split: option.splits)

lemma fan_out_gen:
  assumes "distinct chs" "\<forall>ch\<in>set chs. inc_chans s ch \<noteq> None"
  shows "inc_panicked (fold (inc_offer evt) chs s) = inc_panicked s
    \<and> inc_chans (fold (inc_offer evt) chs s) = (\<lambda>ch. if ch \<in> set chs then map_option (try_send 16 evt) (inc_chans s ch) else inc_chans s ch)
    \<and> incomingTaskSubs (fold (inc_offer evt) chs s) = incomingTaskSubs s \<and> inc_fresh (fold (inc_offer evt) chs s) = inc_fresh s
    \<and> background (fold (inc_offer evt) chs s) = background s \<and> srv_router (fold (inc_offer evt) chs s) = srv_router s"
  using assms
proof (induction chs arbitrary: s)
  case (Cons c chs)
  then obtain q where q: "inc_chans s c = Some q" by auto
  let ?s = "inc_offer evt c s"
  have chans: "inc_chans ?s = (inc_chans s)(c \<mapsto> try_send 16 evt q)" "inc_panicked ?s = inc_panicked s"
    using q by (simp_all add: inc_offer_def)
  have "\<forall>ch\<in>set chs. inc_chans ?s ch \<noteq> None" using Cons.prems chans by auto
  with Cons.IH [of ?s] Cons.prems chans q show ?case by (auto simp: fun_eq_iff)
qed simp

lemma forward_effect:
  assumes "inc_ok s" "incomingCh (srv_router s) = evt # rest"
  shows "inc_panicked (forward_one s) = inc_panicked s \<and> incomingCh (srv_router (forward_one s)) = rest
    \<and> incomingTaskSubs (forward_one s) = incomingTaskSubs s \<and> inc_fresh (forward_one s) = inc_fresh s
    \<and> background (forward_one s) = background s @ (if proxied evt s then [BgProxyTask evt] else [])
    \<and> inc_chans (forward_one s) = (\<lambda>ch. if \<not> proxied evt s \<and> ch \<in> set (incomingTaskSubs s)
        then map_option (try_send 16 evt) (inc_chans s ch) else inc_chans s ch)"
  using assms fan_out_gen [of "incomingTaskSubs s" "s\<lparr>srv_router := (srv_router s)\<lparr>incomingCh := rest\<rparr>\<rparr>" evt]
  by (auto simp: forward_one_def fan_out_def proxied_def inc_ok_def Let_def)

lemma inc_step_ok: "inc_step s s' \<Longrightarrow> inc_ok s \<Longrightarrow> inc_ok s'"
proof (induction rule: inc_step.induct)
  case (opened s ch s')
  then have "inc_fresh s \<notin> set (incomingTaskSubs s)" by (fastforce simp: inc_ok_def)
  with opened show ?case by (auto simp: incoming_open_def inc_ok_def Let_def less_Suc_eq split: if_splits)
next
  case (forwarded s)
  show ?case
  proof (cases "incomingCh (srv_router s)")
    case (Cons evt rest)
    from forward_effect [OF forwarded this] forwarded try_send_length [of _ 16 evt] show ?thesis
      by (auto simp: inc_ok_def split: if_splits)
  qed (use forwarded in \<open>simp add: forward_one_def\<close>)
next
  case (delivered ch s ev s')
  then have "length q \<le> 16" if "inc_chans s ch = Some (e # q)" for e q
    using that by (fastforce simp: inc_ok_def)
  with delivered show ?case
    by (auto simp: incoming_next_def inc_ok_def split: option.splits list.splits if_splits)
next
  case (removed ch s)
  then show ?case by (auto simp: incoming_remove_def inc_ok_def)
next
  case (closed ch s)
  then show ?case by (auto simp: incoming_close_chan_def inc_ok_def split: if_splits)
next
  case (other s' s)
  then show ?case by (simp add: inc_ok_def)
qed


section \<open>The node's own card\<close>

text \<open>
  The node's card survives a restart. A card that was set carries the node's peer identifier, and its
  \<open>did:key\<close> when there is one; it is what the card protocol serves, one exchange is started with every
  connected peer, and a server constructed after a restart on the same store has the same card.
\<close>

theorem agent_card_persists:
  assumes "bolt_db (lib_bolt (sl_router L))" and "\<And>v d. fst (SetMetadataBytes (lib_bolt (sl_router L)) ''card:self'' v d) = None"
    and "\<And>d. bolt_view_err (lib_bolt (sl_router L)) d = None"
    and "host_store (srv_host s)" and "sl_MarshalCard L (c\<lparr>P2PExtension := Some (own_extension L (P2PExtension c))\<rparr>) = Some raw"
    and "pb_UnmarshalCard (lib_pb (sl_router L)) raw = Some (c\<lparr>P2PExtension := Some (own_extension L (P2PExtension c))\<rparr>)" and "raw \<noteq> []"
    and "SetAgentCard L (Some c) s d w = (res, s', d')"
  shows "res = Inr () \<and> GetLocalCardBytes s' = Some raw
    \<and> background s' = background s @ map (\<lambda>p. BgExchangeCard p raw) (sl_ConnectedPeers L w)
    \<and> (\<exists>ext. P2PExtension (the (GetLocalCard s')) = Some ext \<and> ext_PeerId ext = sl_self L
        \<and> (\<forall>did. PeerIDToDIDKey (sl_did L) (sl_self L) = Inr did \<longrightarrow> DidKey ext = did))
    \<and> GetLocalCard (server_New L r (srv_host s) ar ob sm d') = GetLocalCard s'
    \<and> GetLocalCardBytes (server_New L r (srv_host s) ar ob sm d') = GetLocalCardBytes s'"
proof -
  let ?c = "c\<lparr>P2PExtension := Some (own_extension L (P2PExtension c))\<rparr>" and ?B = "lib_bolt (sl_router L)"
  have set: "res = Inr ()" "srv_card s' = Some ?c" "cardRaw s' = Some raw" "d' = SetSelfCard ?B raw (srv_host s) d"
      "background s' = background s @ map (\<lambda>p. BgExchangeCard p raw) (sl_ConnectedPeers L w)"
    using assms(5,8) by (auto simp: SetAgentCard_def Let_def)
  obtain d1 where put: "bolt_put ?B metadataBucket ''card:self'' raw d = (None, d1)"
    using assms(2) [of raw d] by (cases "bolt_put ?B metadataBucket ''card:self'' raw d") (simp add: SetMetadataBytes_def)
  with assms(4) set(4) have "d' = d1" by (simp add: SetSelfCard_def SetMetadataBytes_def)
  then have "bolt_get ?B metadataBucket ''card:self'' d' = Some raw"
    using bolt_db.get_put [OF assms(1) put] by simp
  then have "GetSelfCard ?B (srv_host s) d' = Inr raw"
    using assms(3,4) by (simp add: GetSelfCard_def GetMetadataBytes_def view_def)
  then have "srv_card (server_New L r (srv_host s) ar ob sm d') = Some ?c \<and> cardRaw (server_New L r (srv_host s) ar ob sm d') = Some raw"
    using assms(6,7) by (simp add: server_New_def Let_def)
  with set show ?thesis
    by (auto simp: GetLocalCard_def GetLocalCardBytes_def own_extension_def Let_def split: sum.splits)
qed

section \<open>Two nodes for evaluation\<close>

text \<open>Node B has the task \<open>k\<close> of node A; the wire carries one status update and one other report.\<close>

definition demo_status_env :: A2AEnvelope where
  "demo_status_env = mk_envelope ''u'' ENVELOPE_TYPE_TASK_STATUS_UPDATE 0
     (PTaskStatusUpdate \<lparr>su_TaskId = ''k'', su_Status = TASK_STATUS_WORKING, su_Message = None\<rparr>)"

definition demo_done_env :: A2AEnvelope where
  "demo_done_env = mk_envelope ''v'' ENVELOPE_TYPE_TASK_COMPLETE 0
     (PTaskComplete \<lparr>tc_TaskId = ''k'', tc_Artifacts = [], tc_Message = None\<rparr>)"

definition demo_fail_env :: A2AEnvelope where
  "demo_fail_env = mk_envelope ''u'' ENVELOPE_TYPE_TASK_FAIL 0
     (PTaskFail \<lparr>tf_TaskId = ''k'', tf_ErrorMessage = ''canceled by local node'', tf_Message = None\<rparr>)"

definition demo_proxy_env :: A2AEnvelope where
  "demo_proxy_env = mk_envelope ''u'' ENVELOPE_TYPE_TASK_COMPLETE 0
     (PTaskComplete \<lparr>tc_TaskId = ''k'', tc_Artifacts = [\<lparr>ArtifactId = [], art_Name = [], art_Parts = [TextPart ''ok'']\<rparr>], tc_Message = None\<rparr>)"

lemmas demo_env_defs = demo_status_env_def demo_done_env_def demo_fail_env_def demo_proxy_env_def mk_envelope_def

definition demo_server_libs :: "pb_codec \<Rightarrow> (mem_db, bucket, AuditEvent list, outbox, byte) server_libs" where
  "demo_server_libs P = \<lparr>sl_router = demo_router_libs P, sl_core = demo_libs, sl_did = demo_did,
     sl_peer_Decode = plain_peer_Decode, sl_self = ''B'', sl_MarshalCard = (\<lambda>_. Some [1]), sl_MarshalMessage = (\<lambda>_. Some [0]),
     sl_json = demo_json, sl_http = \<lparr>http_NewRequest = (\<lambda>_. None), http_Do = (\<lambda>_ _ w. (Inl ''refused'', w))\<rparr>,
     sl_Addrs = (\<lambda>_. []), sl_ConnectedPeers = (\<lambda>_. [''A'']), sl_ConnAddr = (\<lambda>_ _. None), sl_NewMultiaddr = (\<lambda>_. True),
     sl_Connect = (\<lambda>_ _ w. (None, w)), sl_stream = (\<lambda>_ _. Inl ''unreachable''), sl_incoming = (\<lambda>_ _. [])\<rparr>"

definition demo_server_inputs :: "string \<Rightarrow> server_inputs" where
  "demo_server_inputs u = \<lparr>si_router = \<lparr>ri_clock = (\<lambda>_. 0), ri_uuid = ''k'', ri_uuid2 = u, ri_trace = []\<rparr>,
     si_core = demo_inputs, si_uuid = ''e'', si_now = 0, si_msg_uuid = (\<lambda>_. ''m''), si_msg_now = (\<lambda>_. 0)\<rparr>"

definition demo_server :: "pb_codec \<Rightarrow> (bucket, AuditEvent list, outbox) Server" where
  "demo_server P = server_New (demo_server_libs P)
     (NewRouter \<lparr>tasks = [''k'' \<mapsto> demo_task\<lparr>OriginatorPeerID := ''A''\<rparr>], has_store = False, onTaskUpdate = None\<rparr> (0, core_New))
     \<lparr>peerCards = Map.empty, host_store = False\<rparr> None False None mem_empty"

lemma demo_server_facts:
  "srv_tasks (demo_server P) ''k'' = Some (demo_task\<lparr>OriginatorPeerID := ''A''\<rparr>)" "background (demo_server P) = []"
  "connectionCore (demo_server P) = False" "anycastRouter (demo_server P) = None"
  "report_to (demo_server_libs P) (demo_task\<lparr>OriginatorPeerID := ''A''\<rparr>) = Some ''A''"
  "linked (sl_router (demo_server_libs P))" "lib_pb (sl_router (demo_server_libs P)) = P"
  by (simp_all add: demo_server_def server_New_def NewRouter_def SetOnTaskUpdate_def GetSelfCard_def report_to_def
      demo_server_libs_def plain_peer_Decode_def linked_def demo_router_libs_def Let_def)

lemma demo_task_facts: "Status demo_task = StatusSubmitted" "task_ID demo_task = ''k''"
  by (simp_all add: demo_task_def)

text \<open>A fresh router of node A admits any message that it has not seen.\<close>

lemma demo_admits:
  "inboundPolicy r = None \<Longrightarrow> dedupCache r \<subseteq> {u} \<Longrightarrow> EnvelopeId env \<noteq> u \<Longrightarrow> admitted p env r"
  by (auto simp: admitted_def policy_check_def dedup_check_def isDuplicate_def Let_def)

lemma demo_router_fresh: "inboundPolicy demo_router = None" "dedupCache demo_router = {}"
  by (simp_all add: demo_router_def NewRouter_def)

lemma after_checks_seen:
  "inboundPolicy r = None \<Longrightarrow> dedupCache r = {} \<Longrightarrow> dedupOrder r = [] \<Longrightarrow>
   inboundPolicy (after_checks p env r) = None \<and> dedupCache (after_checks p env r) \<subseteq> {EnvelopeId env}"
  by (auto simp: after_checks_def policy_check_def dedup_check_def isDuplicate_def dedupCacheSize_def Let_def)

lemma move_task_window:
  "inboundPolicy (fst (move_task L i k s ps m arts r d)) = inboundPolicy r \<and> dedupCache (fst (move_task L i k s ps m arts r d)) = dedupCache r"
  by (auto simp: move_task_def notifyUpdate_def split: prod.splits option.splits)

lemma report_window:
  assumes "env_Type env \<in> {ENVELOPE_TYPE_TASK_STATUS_UPDATE, ENVELOPE_TYPE_TASK_COMPLETE}" "dispatch L i p env r d = (ack, r', d')"
  shows "inboundPolicy r' = inboundPolicy r \<and> dedupCache r' = dedupCache r"
proof -
  have "r' = r \<or> (\<exists>k s ps m arts. r' = fst (move_task L i k s ps m arts r d))"
    using assms by (auto simp: dispatch_def handleTaskStatusUpdate_def handleTaskComplete_def split: option.splits) (metis fst_conv)+
  then show ?thesis using move_task_window by metis
qed

lemma demo_second_admitted:
  assumes "HandleMessage L i p dat (demo_router, d, w) = (r, d', w')" "pb_Unmarshal (lib_pb L) dat = Some env"
    and "env_Type env \<in> {ENVELOPE_TYPE_TASK_STATUS_UPDATE, ENVELOPE_TYPE_TASK_COMPLETE}" "EnvelopeId env \<noteq> EnvelopeId env2"
  shows "admitted q env2 r"
proof -
  have a: "admitted p env demo_router"
    by (rule demo_admits [of _ "EnvelopeId env @ ''x''"]) (simp_all add: demo_router_fresh)
  obtain ack r1 d1 where dsp: "dispatch L i p env (after_checks p env demo_router) d = (ack, r1, d1)" by (metis prod_cases3)
  with assms(1) a have "r1 = r" by (simp add: HandleMessage_admitted [OF assms(2)])
  moreover have "dedupOrder demo_router = []" by (simp add: demo_router_def NewRouter_def)
  with after_checks_seen [of demo_router p env] demo_router_fresh
  have w: "inboundPolicy (after_checks p env demo_router) = None" "dedupCache (after_checks p env demo_router) \<subseteq> {EnvelopeId env}"
    by simp_all
  ultimately have "inboundPolicy r = None \<and> dedupCache r \<subseteq> {EnvelopeId env}"
    using report_window [OF assms(3) dsp] by simp
  with assms(4) show ?thesis by (metis demo_admits)
qed

lemma demo_pair:
  assumes "EnvelopeId a \<noteq> EnvelopeId b"
  shows "pb_codec_ok (pair_codec a b)" "pb_Unmarshal (pair_codec a b) [0] = Some a" "pb_Unmarshal (pair_codec a b) [1] = Some b"
proof -
  have "a \<noteq> b" using assms by auto
  then show "pb_codec_ok (pair_codec a b)" by (rule pair_codec_ok)
qed (simp_all add: pair_codec_def)

lemma demo_runs:
  assumes "P = pair_codec demo_status_env demo_done_env" "n < length (background s)"
  shows "background s ! n = BgStatusUpdate ''A'' ''k'' TASK_STATUS_WORKING None \<Longrightarrow>
      \<exists>s' d'. run_background (demo_server_libs P) (demo_server_inputs ''u'') handler n s d [] = (s', d', [(''A'', [0])])"
    and "background s ! n = BgComplete ''A'' ''k'' [] None \<Longrightarrow>
      \<exists>s' d'. run_background (demo_server_libs P) (demo_server_inputs ''v'') handler n s d [] = (s', d', [(''A'', [1])])"
proof -
  have m: "pb_Marshal P demo_status_env = Some [0]" "pb_Marshal P demo_done_env = Some [1]"
    by (simp_all add: assms(1) pair_codec_def demo_env_defs)
  show "background s ! n = BgStatusUpdate ''A'' ''k'' TASK_STATUS_WORKING None \<Longrightarrow>
      \<exists>s' d'. run_background (demo_server_libs P) (demo_server_inputs ''u'') handler n s d [] = (s', d', [(''A'', [0])])"
    using m(1) by (simp add: run_background_nth [OF assms(2)] SendStatusUpdate_def send_tracked_def demo_server_libs_def
        demo_router_libs_def demo_server_inputs_def flip: demo_status_env_def)
  show "background s ! n = BgComplete ''A'' ''k'' [] None \<Longrightarrow>
      \<exists>s' d'. run_background (demo_server_libs P) (demo_server_inputs ''v'') handler n s d [] = (s', d', [(''A'', [1])])"
    using m(2) by (simp add: run_background_nth [OF assms(2)] SendComplete_def send_tracked_def demo_server_libs_def
        demo_router_libs_def demo_server_inputs_def flip: demo_done_env_def)
qed

definition demo_handler_err :: "string \<Rightarrow> string \<Rightarrow> outbox \<Rightarrow> (string + string) \<times> outbox" where
  "demo_handler_err skill input w = (Inl ''no handler'', w)"

lemma demo_update:
  assumes "UpdateTaskStatus (demo_server_libs P) 1 ''k'' TASK_STATUS_WORKING None (demo_server P) mem_empty = (res, s, d)"
  shows "background s = [BgStatusUpdate ''A'' ''k'' TASK_STATUS_WORKING None]"
    and "srv_tasks s ''k'' = Some (demo_task\<lparr>OriginatorPeerID := ''A'', Status := StatusWorking, UpdatedAt := 1\<rparr>)"
  using call_accepted [OF assms [unfolded UpdateTaskStatus_def] demo_server_facts(1)]
  by (simp_all add: demo_task_facts demo_server_facts)

lemma demo_complete:
  assumes "CompleteTask (demo_server_libs P) 2 ''k'' [] None s d = (res, s', d')"
    and "srv_tasks s ''k'' = Some (demo_task\<lparr>OriginatorPeerID := ''A'', Status := StatusWorking, UpdatedAt := 1\<rparr>)"
  shows "background s' = background s @ [BgComplete ''A'' ''k'' [] None]"
  using call_accepted [OF assms(1) [unfolded CompleteTask_def] assms(2), of "''A''"] demo_server_facts(5) [of P]
  by (simp add: report_to_def demo_task_facts)


theorem racing_reports_witness:
  "map_option Status (tasks (engine (fst (HandleMessage (demo_router_libs (pair_codec demo_status_env demo_done_env)) demo_router_inputs ''B'' [0]
      (HandleMessage (demo_router_libs (pair_codec demo_status_env demo_done_env)) demo_router_inputs ''B'' [1] (demo_router, mem_empty, []))))) ''k'')
    = Some StatusWorking"
proof -
  define P where "P = pair_codec demo_status_env demo_done_env"
  let ?L = "demo_server_libs P" and ?LA = "demo_router_libs P" and ?h = demo_handler_err
  have ids: "EnvelopeId demo_status_env \<noteq> EnvelopeId demo_done_env" by (simp add: demo_env_defs)
  note P = demo_pair [OF ids, folded P_def]
  obtain res1 s1 d1 where u: "UpdateTaskStatus ?L 1 ''k'' TASK_STATUS_WORKING None (demo_server P) mem_empty = (res1, s1, d1)" by (metis prod_cases3)
  note b1 = demo_update [OF u]
  obtain res2 s2 d2 where c: "CompleteTask ?L 2 ''k'' [] None s1 d1 = (res2, s2, d2)" by (metis prod_cases3)
  have b2: "background s2 = [BgStatusUpdate ''A'' ''k'' TASK_STATUS_WORKING None, BgComplete ''A'' ''k'' [] None]"
    using demo_complete [OF c b1(2)] b1(1) by simp
  then obtain s3 d3 where r1: "run_background ?L (demo_server_inputs ''v'') ?h 1 s2 d2 [] = (s3, d3, [(''A'', [1])])"
    using demo_runs(2) [OF P_def, of 1 s2 ?h d2] by auto
  have j1: "run_job ?L (demo_server_inputs ''v'') ?h (BgComplete ''A'' ''k'' [] None)
      (s2\<lparr>background := [BgStatusUpdate ''A'' ''k'' TASK_STATUS_WORKING None]\<rparr>) d2 [] = (s3, d3, [(''A'', [1])])"
    using r1 b2 by (simp add: run_background_nth del: run_job.simps)
  have b3: "background s3 = [BgStatusUpdate ''A'' ''k'' TASK_STATUS_WORKING None]"
    using run_report [OF _ demo_server_facts(6) _ j1, of "''k''" "''A''" StatusCompleted] P(1) by (simp add: demo_server_facts)
  then obtain s4 d4 where r2: "run_background ?L (demo_server_inputs ''u'') ?h 0 s3 d3 [] = (s4, d4, [(''A'', [0])])"
    using demo_runs(1) [OF P_def, of 0 s3 ?h d3] by auto
  obtain rA1 dA1 wA1 where h1: "HandleMessage ?LA demo_router_inputs ''B'' [1] (demo_router, mem_empty, []) = (rA1, dA1, wA1)" by (metis prod_cases3)
  obtain rA2 dA2 wA2 where h2: "HandleMessage ?LA demo_router_inputs ''B'' [0] (rA1, dA1, wA1) = (rA2, dA2, wA2)" by (metis prod_cases3)
  have ad1: "admits ?LA ''B'' [1] demo_router" using P(3) by (simp add: admits_def demo_linked demo_admitted)
  have "admitted ''B'' demo_status_env rA1"
    by (rule demo_second_admitted [OF h1, where env = demo_done_env]) (simp_all add: demo_linked P(3) demo_env_defs)
  then have ad2: "admits ?LA ''B'' [0] rA1" using P(2) by (simp add: admits_def demo_linked)
  from racing_reports [OF demo_server_facts(6) _ _ _ demo_server_facts(1) _ demo_server_facts(5,2) demo_router_task _ u c r1 r2 ad1 h1 ad2 h2]
  have "map_option Status (tasks (engine rA2) ''k'') = Some StatusWorking"
    by (simp add: demo_server_facts demo_linked demo_task_facts P(1))
  with h1 h2 show ?thesis by (simp add: P_def)
qed

theorem cancel_is_reported_as_failure_witness:
  "\<exists>s1 d1 s2 d2 pt. CancelTask (demo_server_libs (pair_codec demo_fail_env demo_done_env)) 1 ''k''
        (demo_server (pair_codec demo_fail_env demo_done_env)) mem_empty = (Inr pt, s1, d1)
     \<and> run_background (demo_server_libs (pair_codec demo_fail_env demo_done_env)) (demo_server_inputs ''u'') demo_handler_err 0 s1 d1 [] =
        (s2, d2, [(''A'', [0])])
     \<and> map_option Status (srv_tasks s2 ''k'') = Some StatusCanceled
     \<and> map_option Status (tasks (engine (fst (HandleMessage (demo_router_libs (pair_codec demo_fail_env demo_done_env)) demo_router_inputs ''B'' [0]
          (demo_router, mem_empty, [])))) ''k'') = Some StatusSubmitted"
proof -
  define P where "P = pair_codec demo_fail_env demo_done_env"
  let ?L = "demo_server_libs P" and ?LA = "demo_router_libs P" and ?h = demo_handler_err
  have ids: "EnvelopeId demo_fail_env \<noteq> EnvelopeId demo_done_env" by (simp add: demo_env_defs)
  note P = demo_pair [OF ids, folded P_def]
  obtain res s1 d1 where c: "CancelTask ?L 1 ''k'' (demo_server P) mem_empty = (res, s1, d1)" by (metis prod_cases3)
  have b: "background s1 = [BgFail ''A'' ''k'' ''canceled by local node'']"
    using CancelTask_effect [OF _ demo_server_facts(1) _ demo_server_facts(5) c] by (simp add: demo_task_facts demo_server_facts)
  have m: "pb_Marshal P demo_fail_env = Some [0]" by (simp add: P_def pair_codec_def)
  obtain s2 d2 where r: "run_background ?L (demo_server_inputs ''u'') ?h 0 s1 d1 [] = (s2, d2, [(''A'', [0])])"
    using b m by (simp add: run_background_nth SendFail_def send_tracked_def demo_server_libs_def
        demo_router_libs_def demo_server_inputs_def flip: demo_fail_env_def)
  obtain rA' dA' wA' where h: "HandleMessage ?LA demo_router_inputs ''B'' [0] (demo_router, mem_empty, []) = (rA', dA', wA')" by (metis prod_cases3)
  have ad: "admits ?LA ''B'' [0] demo_router" using P(2) by (simp add: admits_def demo_linked demo_admitted)
  from cancel_is_reported_as_failure [OF demo_server_facts(6) _ _ _ demo_server_facts(1) _ demo_server_facts(5,2) c r demo_router_task ad h]
  have "map_option Status (srv_tasks s2 ''k'') = Some StatusCanceled" "\<exists>pt. res = Inr pt" "map_option Status (tasks (engine rA') ''k'') = Some StatusSubmitted"
    by (auto simp: demo_server_facts demo_linked demo_task_facts P(1))
  with c r h show ?thesis unfolding P_def by auto
qed

definition demo_proxy_event :: IncomingTaskEvent where
  "demo_proxy_event = \<lparr>inc_Task = \<lparr>pbt_TaskId = ''k'', pbt_ContextId = [], pbt_Status = TASK_STATUS_SUBMITTED, pbt_TargetSkillId = ''s'',
     pbt_OriginatorPeerId = ''A'', pbt_Messages = [], pbt_Artifacts = [], pbt_CreatedAt = None, pbt_UpdatedAt = None\<rparr>,
     inc_SenderCard = None, inc_SenderPeer = ''A''\<rparr>"

definition demo_handler_ok :: "string \<Rightarrow> string \<Rightarrow> outbox \<Rightarrow> (string + string) \<times> outbox" where
  "demo_handler_ok skill input w = (Inr ''ok'', w)"

theorem proxy_result_refused_witness:
  "\<exists>s' d'. handleMCPProxyTask (demo_server_libs (pair_codec demo_proxy_env demo_done_env)) (demo_server_inputs ''u'') demo_handler_ok demo_proxy_event
        (demo_server (pair_codec demo_proxy_env demo_done_env)) mem_empty [] = (s', d', [(''A'', [0])])
     \<and> map_option Status (srv_tasks s' ''k'') = Some StatusCompleted
     \<and> tasks (engine (fst (HandleMessage (demo_router_libs (pair_codec demo_proxy_env demo_done_env)) demo_router_inputs ''B'' [0]
          (demo_router, mem_empty, [])))) ''k'' = Some demo_task"
proof -
  define P where "P = pair_codec demo_proxy_env demo_done_env"
  let ?L = "demo_server_libs P" and ?LA = "demo_router_libs P" and ?i = "demo_server_inputs ''u''"
  have ids: "EnvelopeId demo_proxy_env \<noteq> EnvelopeId demo_done_env" by (simp add: demo_env_defs)
  note P = demo_pair [OF ids, folded P_def]
  have m: "pb_Marshal P demo_proxy_env = Some [0]" by (simp add: P_def pair_codec_def)
  have send: "\<exists>r'. SendComplete (sl_router ?L) (si_router ?i) ''A'' ''k'' [\<lparr>ArtifactId = [], art_Name = [], art_Parts = [TextPart ''ok'']\<rparr>] None r [] = (None, r', [(''A'', [0])])" for r
    using m by (simp add: SendComplete_def send_tracked_def demo_server_libs_def demo_router_libs_def demo_server_inputs_def flip: demo_proxy_env_def)
  have orig: "remote_originator ?L (inc_Task demo_proxy_event) = Some ''A''"
    by (simp add: remote_originator_def demo_proxy_event_def demo_server_libs_def plain_peer_Decode_def)
  obtain e1 s1 d1 where t1: "srv_transition ?L (ri_clock (si_router ?i) 5) ''k'' StatusWorking (demo_server P) mem_empty = (e1, s1, d1)"
    by (metis prod_cases3)
  obtain e2 s2 d2 where t2: "srv_transition ?L (ri_clock (si_router ?i) 6) ''k'' StatusCompleted s1 d1 = (e2, s2, d2)"
    by (metis prod_cases3)
  from send [of "srv_router s2"] obtain s' d' where p: "handleMCPProxyTask ?L ?i demo_handler_ok demo_proxy_event (demo_server P) mem_empty [] = (s', d', [(''A'', [0])])"
    using orig t1 t2 by (auto simp: handleMCPProxyTask_def demo_handler_ok_def demo_proxy_event_def Let_def)
  obtain rA' dA' wA' where h: "HandleMessage ?LA demo_router_inputs ''B'' [0] (demo_router, mem_empty, []) = (rA', dA', wA')" by (metis prod_cases3)
  have ad: "admits ?LA ''B'' [0] demo_router" using P(2) by (simp add: admits_def demo_linked demo_admitted)
  have ev: "pbt_TaskId (inc_Task demo_proxy_event) = ''k''" by (simp add: demo_proxy_event_def)
  have "demo_handler_ok (pbt_TargetSkillId (inc_Task demo_proxy_event)) (proxy_input (inc_Task demo_proxy_event)) [] = (Inr ''ok'', [])"
    by (simp add: demo_handler_ok_def)
  from proxy_result_refused [OF demo_server_facts(6) _ _ ev orig demo_server_facts(1) _ this p demo_router_task _ ad h] P(1) p h show ?thesis
    by (simp add: demo_server_facts demo_linked demo_task_facts P_def)
qed

definition demo_http_req :: SendTaskRequest where
  "demo_http_req = \<lparr>sr_Message = Some demo_http_msg, sr_Target = Some (TargetUrl ''https://x/''), sr_Metadata = Map.empty\<rparr>"

definition no_nats :: "outbox nats_lib" where
  "no_nats = \<lparr>nats_Connect = (\<lambda>_ _ w. (None, w)), nats_Subscribe = (\<lambda>_ w. (None, w)), nats_Publish = (\<lambda>_ _ w. (None, w)),
     nats_Unsubscribe = id, nats_Close = id, nats_ConnectedUrl = (\<lambda>_. []), LoadX509KeyPair = (\<lambda>_ _. None)\<rparr>"

theorem http_url_never_sent_witness:
  "\<exists>e s' d'. server_SendTask (demo_server_libs demo_wire) (demo_server_inputs ''u'') demo_http_req
      (SetConnectionCore (RegisterTransport (http_Transport None) core_New) (demo_server demo_wire)) mem_empty [] = (Inl (Internal, e), s', d', [])"
proof -
  let ?s = "SetConnectionCore (RegisterTransport (http_Transport None) core_New) (demo_server demo_wire)"
  obtain res s' d' w' where r: "server_SendTask (demo_server_libs demo_wire) (demo_server_inputs ''u'') demo_http_req ?s mem_empty [] = (res, s', d', w')"
    by (metis prod_cases4)
  have "set (transports (snd (policy_state (srv_router ?s)))) \<subseteq> set (daemon_transports plain_peer_Decode no_streams demo_wire None no_nats)"
    by (simp add: SetConnectionCore_def RegisterTransport_def core_New_def daemon_transports_def)
  moreover have "connectionCore ?s" by (simp add: SetConnectionCore_def)
  ultimately show ?thesis
    using http_url_never_sent [OF plain_peer_Decode_colon _ _ _ _ _ r, where url = "''https://x/''" and msg = demo_http_msg] r
    by (auto simp: demo_http_req_def HasPrefix_def)
qed

definition demo_skill_server :: "(bucket, AuditEvent list, unit) Server" where
  "demo_skill_server = \<lparr>srv_router = NewRouter NewEngine (0, core_New), srv_host = \<lparr>peerCards = Map.empty, host_store = False\<rparr>,
     anycastRouter = Some (anycast_NewRouter (\<lambda>n w. (0, w)) (fixed_provider (Inr [demo_endpoint ''p''])) None Second),
     outboundBridge = False, streamMgr = None, srv_card = None, cardRaw = None, incomingTaskSubs = [], inc_chans = Map.empty, inc_fresh = 0,
     inc_panicked = False, mcpProxySkills = None, connectionCore = False, background = []\<rparr>"

definition demo_skill_libs :: "(mem_db, bucket, AuditEvent list, unit, byte) server_libs" where
  "demo_skill_libs = \<lparr>sl_router = self_dial_libs, sl_core = demo_libs, sl_did = demo_did,
     sl_peer_Decode = plain_peer_Decode, sl_self = ''B'', sl_MarshalCard = (\<lambda>_. Some [1]), sl_MarshalMessage = (\<lambda>_. Some [0]),
     sl_json = demo_json, sl_http = \<lparr>http_NewRequest = (\<lambda>_. None), http_Do = (\<lambda>_ _ w. (Inl ''refused'', w))\<rparr>,
     sl_Addrs = (\<lambda>_. []), sl_ConnectedPeers = (\<lambda>_. []), sl_ConnAddr = (\<lambda>_ _. None), sl_NewMultiaddr = (\<lambda>_. True),
     sl_Connect = (\<lambda>_ _ w. (None, w)), sl_stream = (\<lambda>_ _. Inl ''unreachable''), sl_incoming = (\<lambda>_ _. [])\<rparr>"

definition demo_skill_req :: SendTaskRequest where
  "demo_skill_req = \<lparr>sr_Message = Some demo_http_msg, sr_Target = Some (TargetSkillId ''s''), sr_Metadata = Map.empty\<rparr>"

theorem failed_skill_send_forgets_route_witness:
  "\<exists>e s' d' w' ar'. server_SendTask demo_skill_libs (demo_server_inputs ''u'') demo_skill_req demo_skill_server mem_empty () = (Inl (Internal, e), s', d', w')
     \<and> anycastRouter s' = Some ar' \<and> Resolve 0 0 ''s'' ar' () = resolve_query 0 ''s'' ar' ()"
proof -
  obtain res s' d' w' where r: "server_SendTask demo_skill_libs (demo_server_inputs ''u'') demo_skill_req demo_skill_server mem_empty () = (res, s', d', w')"
    by (metis prod_cases4)
  have "\<And>dat w. fst (sendFn (sl_router demo_skill_libs) ''p'' dat w) \<noteq> None" by (simp add: demo_skill_libs_def self_dial_libs_def)
  note fails = SendTask_unreachable [OF this, of "si_router (demo_server_inputs ''u'')" "Some demo_http_msg" "''s''" "[]" "srv_router demo_skill_server" mem_empty "()"]
  then have "\<exists>e. res = Inl (Internal, e)"
    using r by (auto simp: server_SendTask_def demo_skill_req_def resolveConnectionCoreTarget_def sendTaskBySkill_def demo_skill_server_def
        Resolve_def anycast_NewRouter_def NewRouteCache_def cache_Get_def resolve_query_def fixed_provider_def RandomStrategy_def
        demo_endpoint_def router_send_def split: prod.splits)
  then obtain e where e: "res = Inl (Internal, e)" by blast
  obtain ar where ar: "anycastRouter demo_skill_server = Some ar" by (simp add: demo_skill_server_def)
  from failed_skill_send_forgets_route [OF _ _ _ ar r [unfolded e], of "''s''" demo_http_msg 0 0 "()"] e r show ?thesis
    by (auto simp: demo_skill_req_def)
qed

definition demo_incoming_server :: "(bucket, AuditEvent list, outbox) Server" where
  "demo_incoming_server = server_New (demo_server_libs demo_wire)
     ((NewRouter NewEngine (0, core_New))\<lparr>incomingCh := [demo_proxy_event]\<rparr>) \<lparr>peerCards = Map.empty, host_store = False\<rparr> None False None mem_empty"


definition demo_card_libs :: "(mem_db, bucket, AuditEvent list, unit, byte) server_libs" where
  "demo_card_libs = demo_skill_libs\<lparr>sl_router := self_dial_libs\<lparr>lib_pb := (lib_pb self_dial_libs)\<lparr>pb_UnmarshalCard :=
     (\<lambda>_. Some (proxy_card\<lparr>P2PExtension := Some (own_extension demo_skill_libs None)\<rparr>))\<rparr>\<rparr>\<rparr>"

theorem agent_card_persists_witness:
  "\<exists>s' d'. SetAgentCard demo_card_libs (Some proxy_card) (demo_skill_server\<lparr>srv_host := \<lparr>peerCards = Map.empty, host_store = True\<rparr>\<rparr>) mem_empty () = (Inr (), s', d')
     \<and> GetLocalCardBytes (server_New demo_card_libs (srv_router demo_skill_server) \<lparr>peerCards = Map.empty, host_store = True\<rparr> None False None d') = Some [1]"
proof -
  let ?s = "demo_skill_server\<lparr>srv_host := \<lparr>peerCards = Map.empty, host_store = True\<rparr>\<rparr>"
  obtain res s' d' where c: "SetAgentCard demo_card_libs (Some proxy_card) ?s mem_empty () = (res, s', d')" by (metis prod_cases3)
  have B: "lib_bolt (sl_router demo_card_libs) = mem_bolt" by (simp add: demo_card_libs_def self_dial_libs_def)
  have ok: "fst (SetMetadataBytes mem_bolt ''card:self'' v d) = None" "bolt_view_err mem_bolt d = None" for v d
    by (simp_all add: SetMetadataBytes_def mem_bolt_def)
  have ext: "own_extension demo_card_libs x = own_extension demo_skill_libs x" for x
    by (simp add: own_extension_def demo_card_libs_def)
  have "res = Inr () \<and> GetLocalCardBytes s' = Some [1]
      \<and> GetLocalCardBytes (server_New demo_card_libs (srv_router demo_skill_server) (srv_host ?s) None False None d') = GetLocalCardBytes s'"
    using agent_card_persists [where L = demo_card_libs and c = proxy_card and s = ?s and raw = "[1]" and r = "srv_router demo_skill_server"
        and ar = None and ob = False and sm = None, unfolded B ext, OF mem.bolt_db_axioms ok _ _ _ _ c]
    by (simp add: demo_card_libs_def demo_skill_libs_def proxy_card_def)
  with c show ?thesis by auto
qed

end
