(* ===== verification/Anp.thy ===== *)
theory Anp
  imports Bridge
begin

text \<open>
  The ANP bridge, \<^verbatim>\<open>internal/anp/\<close>, and its consumer in \<^verbatim>\<open>cmd/agentanycastd/main.go\<close>: translation between agent
  cards and ANP descriptions (\<^verbatim>\<open>translator.go\<close>), the HTTP endpoints (\<^verbatim>\<open>handler.go\<close>), the client (\<^verbatim>\<open>client.go\<close>).

  JSON and HTTP are arguments, as in the theory \<open>Bridge\<close>; \<open>aj_sprint\<close> is \<open>fmt.Sprintf("%v")\<close> of a decoded
  value and \<open>status_name\<close> the name of a protobuf status. The keys of a decoded object are distinct. A nil
  value of type \<open>any\<close> is \<open>JNull\<close>.
\<close>

section \<open>Data\<close>

record InterfaceEntry =
  ie_Type :: string
  ie_Protocol :: string
  ie_URL :: string

record AgentDescription =
  ad_Context :: "string \<rightharpoonup> string"
  ad_Type :: string
  ad_ID :: string
  ad_DID :: string
  ad_Name :: string
  ad_Description :: string
  ad_Version :: string
  ad_Interfaces :: "InterfaceEntry list"

record RPCParam =
  rp_Name :: string
  rp_Description :: string
  rp_Schema :: json
  rp_Required :: bool

record RPCResult =
  rr_Name :: string
  rr_Description :: string
  rr_Schema :: json

record RPCMethod =
  rm_Name :: string
  rm_Description :: string
  rm_Params :: "RPCParam list"
  rm_Result :: "RPCResult option"

record OpenRPCSpec =
  os_OpenRPC :: string
  os_Title :: string
  os_Version :: string
  os_Methods :: "RPCMethod list"

record JSONRPCRequest =
  jq_JSONRPC :: string
  jq_Method :: string
  jq_Params :: json
  jq_ID :: json

record JSONRPCError =
  je_Code :: int
  je_Message :: string
  je_Data :: json

record JSONRPCResponse =
  jp_JSONRPC :: string
  jp_Result :: json
  jp_Error :: "JSONRPCError option"
  jp_ID :: json

record anp_json =
  aj_get_request :: "bytes \<Rightarrow> string + JSONRPCRequest"
  aj_put_request :: "JSONRPCRequest \<Rightarrow> string + bytes"
  aj_get_response :: "bytes \<Rightarrow> string + JSONRPCResponse"
  aj_put_response :: "JSONRPCResponse \<Rightarrow> string + bytes"
  aj_get_desc :: "bytes \<Rightarrow> string + AgentDescription"
  aj_put_desc :: "AgentDescription \<Rightarrow> bytes option"
  aj_get_spec :: "bytes \<Rightarrow> string + OpenRPCSpec"
  aj_put_spec :: "OpenRPCSpec \<Rightarrow> bytes option"
  aj_get_any :: "string \<Rightarrow> json option"
  aj_put_any :: "json \<Rightarrow> string option"
  aj_sprint :: "json \<Rightarrow> string"

section \<open>Translation\<close>

definition AgentCardToDescription :: "pb_AgentCard \<Rightarrow> string \<Rightarrow> AgentDescription" where
  "AgentCardToDescription c baseURL =
     \<lparr>ad_Context = [''@vocab'' \<mapsto> ''https://schema.org/'', ''anp'' \<mapsto> ''https://agentnetworkprotocol.com/ns/''],
      ad_Type = ''anp:AgentDescription'', ad_ID = baseURL @ ''/agent/ad.json'',
      ad_DID = (case P2PExtension c of
          None \<Rightarrow> []
        | Some ext \<Rightarrow> if DidWeb ext \<noteq> [] then DidWeb ext else if DidKey ext \<noteq> [] then DidKey ext else []),
      ad_Name = card_Name c, ad_Description = card_Description c, ad_Version = card_Version c,
      ad_Interfaces = [\<lparr>ie_Type = ''anp:OpenRPCInterface'', ie_Protocol = ''openrpc'', ie_URL = baseURL @ ''/agent/interface.json''\<rparr>]\<rparr>"

definition no_ext :: pb_P2PExtension where
  "no_ext = \<lparr>ext_PeerId = [], DidKey = [], DidWeb = [], SupportedTransports = [], RelayAddresses = []\<rparr>"

definition DescriptionToAgentCard :: "AgentDescription \<Rightarrow> pb_AgentCard" where
  "DescriptionToAgentCard desc =
     \<lparr>card_Name = ad_Name desc, card_Description = ad_Description desc, card_Version = ad_Version desc, ProtocolVersion = [],
      card_Skills = [],
      P2PExtension =
        (let did = ad_DID desc in
         if did \<noteq> [] then
           Some (if length did > 8 \<and> take 8 did = ''did:web:'' then no_ext\<lparr>DidWeb := did\<rparr>
                 else if length did > 8 \<and> take 8 did = ''did:key:'' then no_ext\<lparr>DidKey := did\<rparr>
                 else no_ext)
         else None)\<rparr>"

definition skill_method :: "anp_json \<Rightarrow> pb_Skill \<Rightarrow> RPCMethod" where
  "skill_method J s =
     \<lparr>rm_Name = skill_Id s, rm_Description = skill_Description s,
      rm_Params = (if InputSchema s \<noteq> [] then
          (case aj_get_any J (InputSchema s) of
             None \<Rightarrow> []
           | Some schema \<Rightarrow> [\<lparr>rp_Name = ''input'', rp_Description = [], rp_Schema = schema, rp_Required = True\<rparr>])
        else []),
      rm_Result = (if OutputSchema s \<noteq> [] then
          (case aj_get_any J (OutputSchema s) of
             None \<Rightarrow> None
           | Some schema \<Rightarrow> Some \<lparr>rr_Name = ''result'', rr_Description = [], rr_Schema = schema\<rparr>)
        else None)\<rparr>"

definition SkillsToOpenRPC :: "anp_json \<Rightarrow> pb_Skill list \<Rightarrow> string \<Rightarrow> string \<Rightarrow> OpenRPCSpec" where
  "SkillsToOpenRPC J skills agentName version =
     \<lparr>os_OpenRPC = ''1.3.2'', os_Title = agentName, os_Version = version, os_Methods = map (skill_method J) skills\<rparr>"

definition method_skill :: "anp_json \<Rightarrow> RPCMethod \<Rightarrow> pb_Skill" where
  "method_skill J m =
     \<lparr>skill_Id = rm_Name m, skill_Description = rm_Description m,
      InputSchema = (case rm_Params m of
          [] \<Rightarrow> []
        | p # _ \<Rightarrow> (case aj_put_any J (rp_Schema p) of None \<Rightarrow> [] | Some b \<Rightarrow> b)),
      OutputSchema = (case rm_Result m of
          None \<Rightarrow> []
        | Some r \<Rightarrow> (case aj_put_any J (rr_Schema r) of None \<Rightarrow> [] | Some b \<Rightarrow> b))\<rparr>"

definition OpenRPCToSkills :: "anp_json \<Rightarrow> OpenRPCSpec \<Rightarrow> pb_Skill list" where
  "OpenRPCToSkills J spec = map (method_skill J) (os_Methods spec)"

definition task_params_json :: "string \<Rightarrow> string \<Rightarrow> json" where
  "task_params_json messageText taskID = JObject [(''input'', JString messageText), (''task_id'', JString taskID)]"

definition TaskToJSONRPCRequest :: "string \<Rightarrow> string \<Rightarrow> string \<Rightarrow> JSONRPCRequest" where
  "TaskToJSONRPCRequest skillID messageText taskID =
     \<lparr>jq_JSONRPC = ''2.0'', jq_Method = skillID, jq_Params = task_params_json messageText taskID, jq_ID = JString taskID\<rparr>"

definition marshal_text :: "anp_json \<Rightarrow> json \<Rightarrow> string" where
  "marshal_text J v = (case aj_put_any J v of None \<Rightarrow> [] | Some b \<Rightarrow> b)"

fun extractTextFromResult :: "anp_json \<Rightarrow> json \<Rightarrow> string" where
  "extractTextFromResult J (JString v) = v"
| "extractTextFromResult J (JObject kvs) =
     (case map_of kvs ''text'' of Some t \<Rightarrow> aj_sprint J t | None \<Rightarrow> marshal_text J (JObject kvs))"
| "extractTextFromResult J v = marshal_text J v"

definition JSONRPCResultToArtifact :: "anp_json \<Rightarrow> string \<Rightarrow> json \<Rightarrow> pb_Artifact" where
  "JSONRPCResultToArtifact J uuid result =
     \<lparr>ArtifactId = uuid, art_Name = ''anp-result'', art_Parts = [TextPart (extractTextFromResult J result)]\<rparr>"

fun ExtractInputText :: "anp_json \<Rightarrow> json \<Rightarrow> string" where
  "ExtractInputText J (JObject kvs) =
     (case map_of kvs ''input'' of
        Some v \<Rightarrow> aj_sprint J v
      | None \<Rightarrow> (case map_of kvs ''message'' of Some v \<Rightarrow> aj_sprint J v | None \<Rightarrow> marshal_text J (JObject kvs)))"
| "ExtractInputText J (JString v) = v"
| "ExtractInputText J JNull = []"
| "ExtractInputText J v = marshal_text J v"

text \<open>The first text part of the last message.\<close>

fun first_text_part :: "pb_Part list \<Rightarrow> string option" where
  "first_text_part [] = None"
| "first_text_part (TextPart t # ps) = Some t"
| "first_text_part (_ # ps) = first_text_part ps"

definition ProtoTaskToResult :: "(pb_TaskStatus \<Rightarrow> string) \<Rightarrow> pb_Task \<Rightarrow> json" where
  "ProtoTaskToResult status_name t =
     JObject ([(''task_id'', JString (pbt_TaskId t)), (''status'', JString (status_name (pbt_Status t)))] @
       (if pbt_Messages t = [] then []
        else case first_text_part (Parts (last (pbt_Messages t))) of None \<Rightarrow> [] | Some txt \<Rightarrow> [(''text'', JString txt)]))"

section \<open>The endpoints\<close>

record IncomingANPTask =
  at_Method :: string
  at_Params :: json

text \<open>
  What becomes of a call that \<open>serveRPC\<close> routes through the task channel within its 30 seconds: the channel
  stays full, no answer comes in time, or it is answered.
\<close>

datatype anp_outcome = QueueFull | TimedOut | Answered JSONRPCResponse

definition anp_writeError :: "anp_json \<Rightarrow> json \<Rightarrow> int \<Rightarrow> string \<Rightarrow> http_response \<Rightarrow> http_response" where
  "anp_writeError J i scode message rw =
     http_Write (case aj_put_response J \<lparr>jp_JSONRPC = ''2.0'', jp_Result = JNull,
           jp_Error = Some \<lparr>je_Code = scode, je_Message = message, je_Data = JNull\<rparr>, jp_ID = i\<rparr> of Inl _ \<Rightarrow> [] | Inr b \<Rightarrow> b)
       ((SetHeader ''Content-Type'' ''application/json'' rw)\<lparr>hw_Code := 200\<rparr>)"

definition serveDescription :: "anp_json \<Rightarrow> pb_AgentCard option \<Rightarrow> string \<Rightarrow> bool \<Rightarrow> http_response \<Rightarrow> http_response" where
  "serveDescription J getCard reqHost useTLS rw =
     (case getCard of
        None \<Rightarrow> http_Error ''no agent card configured'' 404 rw
      | Some c \<Rightarrow>
          (let baseURL = (if useTLS then ''https'' else ''http'') @ ''://'' @ reqHost;
               rw1 = SetHeader ''Content-Type'' ''application/json'' rw
           in case aj_put_desc J (AgentCardToDescription c baseURL) of None \<Rightarrow> rw1 | Some b \<Rightarrow> http_Write b rw1))"

definition serveInterface :: "anp_json \<Rightarrow> pb_AgentCard option \<Rightarrow> http_response \<Rightarrow> http_response" where
  "serveInterface J getCard rw =
     (case getCard of
        None \<Rightarrow> http_Error ''no agent card configured'' 404 rw
      | Some c \<Rightarrow>
          (let rw1 = SetHeader ''Content-Type'' ''application/json'' rw in
           case aj_put_spec J (SkillsToOpenRPC J (card_Skills c) (card_Name c) (card_Version c)) of
             None \<Rightarrow> rw1
           | Some b \<Rightarrow> http_Write b rw1))"

definition serveRPC ::
  "anp_json \<Rightarrow> (IncomingANPTask \<Rightarrow> 'w \<Rightarrow> anp_outcome \<times> 'w) option \<Rightarrow> 'w http_handler" where
  "serveRPC J taskChan r rw w =
     (case hr_Body r of
        Inl err \<Rightarrow> (anp_writeError J JNull (-32700) ''failed to read request body'' rw, w)
      | Inr content \<Rightarrow>
          (case aj_get_request J (take max_body content) of
             Inl err \<Rightarrow> (anp_writeError J JNull (-32700) ''invalid JSON'' rw, w)
           | Inr req \<Rightarrow>
               (case taskChan of
                  None \<Rightarrow> (anp_writeError J (jq_ID req) (-32000) ''ANP task handler is not configured'' rw, w)
                | Some route \<Rightarrow>
                    (case route \<lparr>at_Method = jq_Method req, at_Params = jq_Params req\<rparr> w of
                       (QueueFull, w') \<Rightarrow> (anp_writeError J (jq_ID req) (-32000) ''server busy: task queue full'' rw, w')
                     | (TimedOut, w') \<Rightarrow> (anp_writeError J (jq_ID req) (-32000) ''request timed out waiting for result'' rw, w')
                     | (Answered result, w') \<Rightarrow>
                         (case aj_put_response J result of
                            Inl err \<Rightarrow> (anp_writeError J (jq_ID req) (-32000) ''failed to marshal response'' rw, w')
                          | Inr respBytes \<Rightarrow> (http_Write respBytes (SetHeader ''Content-Type'' ''application/json'' rw), w'))))))"

text \<open>The multiplexer of \<open>NewHandler\<close>: a pattern for GET also takes HEAD; a known path with another method is
  refused with 405, another path with 404.\<close>

definition method_not_allowed :: "string \<Rightarrow> http_response \<Rightarrow> http_response" where
  "method_not_allowed allowed rw = http_Error ''Method Not Allowed'' 405 (SetHeader ''Allow'' allowed rw)"

definition anp_ServeHTTP ::
  "anp_json \<Rightarrow> pb_AgentCard option \<Rightarrow> string \<Rightarrow> bool \<Rightarrow> (IncomingANPTask \<Rightarrow> 'w \<Rightarrow> anp_outcome \<times> 'w) option \<Rightarrow> 'w http_handler" where
  "anp_ServeHTTP J getCard reqHost useTLS taskChan r rw w =
     (let isGet = hr_Method r \<in> {''GET'', ''HEAD''} in
      if hr_Path r = ''/agent/ad.json'' then
        (if isGet then serveDescription J getCard reqHost useTLS rw else method_not_allowed ''GET, HEAD'' rw, w)
      else if hr_Path r = ''/agent/interface.json'' then
        (if isGet then serveInterface J getCard rw else method_not_allowed ''GET, HEAD'' rw, w)
      else if hr_Path r = ''/agent/rpc'' then
        (if hr_Method r = ''POST'' then serveRPC J taskChan r rw w else (method_not_allowed ''POST'' rw, w))
      else (http_Error ''404 page not found'' 404 rw, w))"

section \<open>The consumer in the daemon\<close>

definition anp_task :: "anp_json \<Rightarrow> IncomingANPTask \<Rightarrow> pb_Task" where
  "anp_task J t =
     \<lparr>pbt_TaskId = [], pbt_ContextId = [], pbt_Status = TASK_STATUS_SUBMITTED, pbt_TargetSkillId = at_Method t,
      pbt_OriginatorPeerId = [],
      pbt_Messages = [\<lparr>MessageId = [], Role = MESSAGE_ROLE_USER, Parts = [TextPart (ExtractInputText J (at_Params t))], msg_CreatedAt = None\<rparr>],
      pbt_Artifacts = [], pbt_CreatedAt = None, pbt_UpdatedAt = None\<rparr>"

definition anp_consume ::
  "anp_json \<Rightarrow> (pb_TaskStatus \<Rightarrow> string) \<Rightarrow> 'w task_sender \<Rightarrow> IncomingANPTask \<Rightarrow> 'w \<Rightarrow> JSONRPCResponse \<times> 'w" where
  "anp_consume J status_name handleInbound t w =
     (case handleInbound (anp_task J t) w of
        (Inl err, w') \<Rightarrow>
          (\<lparr>jp_JSONRPC = ''2.0'', jp_Result = JNull,
            jp_Error = Some \<lparr>je_Code = -32603, je_Message = err, je_Data = JNull\<rparr>, jp_ID = JString (at_Method t)\<rparr>, w')
      | (Inr result, w') \<Rightarrow>
          (\<lparr>jp_JSONRPC = ''2.0'', jp_Result = ProtoTaskToResult status_name result, jp_Error = None,
            jp_ID = JString (at_Method t)\<rparr>, w'))"

text \<open>
  The task channel of 64 slots with its consumer. How long a call waits is up to the schedule: the channel may be
  full for the whole time, and the answer may come too late, after the task was handled.
\<close>

datatype anp_schedule = StaysFull | AnswersLate | AnswersInTime

definition anp_route ::
  "anp_json \<Rightarrow> (pb_TaskStatus \<Rightarrow> string) \<Rightarrow> 'w task_sender \<Rightarrow> anp_schedule \<Rightarrow> IncomingANPTask \<Rightarrow> 'w \<Rightarrow> anp_outcome \<times> 'w" where
  "anp_route J status_name handleInbound sched t w =
     (case sched of
        StaysFull \<Rightarrow> (QueueFull, w)
      | AnswersLate \<Rightarrow> (TimedOut, snd (anp_consume J status_name handleInbound t w))
      | AnswersInTime \<Rightarrow> (case anp_consume J status_name handleInbound t w of (resp, w') \<Rightarrow> (Answered resp, w')))"

section \<open>The client\<close>

datatype anp_error =
    AnpCreateRequest string
  | AnpFetch string string
  | AnpStatus nat string bytes
  | AnpDecode string
  | AnpMarshal string
  | AnpCall string string anp_error
  | AnpRemote int string

definition anp_fetch ::
  "'w http_client \<Rightarrow> (bytes \<Rightarrow> string + 'a) \<Rightarrow> string \<Rightarrow> 'w \<Rightarrow> (anp_error + 'a) \<times> 'w" where
  "anp_fetch C decode url w =
     (case http_NewRequest C url of
        Some err \<Rightarrow> (Inl (AnpCreateRequest err), w)
      | None \<Rightarrow>
          (case http_Do C url None w of
             (Inl err, w1) \<Rightarrow> (Inl (AnpFetch url err), w1)
           | (Inr (scode, content), w1) \<Rightarrow>
               if scode \<noteq> 200 then (Inl (AnpStatus scode url []), w1)
               else (case content of
                 Inl err \<Rightarrow> (Inl (AnpDecode err), w1)
               | Inr b \<Rightarrow> (case decode (take (2 ^ 20) b) of
                   Inl err \<Rightarrow> (Inl (AnpDecode err), w1)
                 | Inr x \<Rightarrow> (Inr x, w1)))))"

definition FetchDescription :: "anp_json \<Rightarrow> 'w http_client \<Rightarrow> string \<Rightarrow> 'w \<Rightarrow> (anp_error + AgentDescription) \<times> 'w" where
  "FetchDescription J C baseURL w = anp_fetch C (aj_get_desc J) (baseURL @ ''/agent/ad.json'') w"

definition FetchInterface :: "anp_json \<Rightarrow> 'w http_client \<Rightarrow> string \<Rightarrow> 'w \<Rightarrow> (anp_error + OpenRPCSpec) \<times> 'w" where
  "FetchInterface J C baseURL w = anp_fetch C (aj_get_spec J) (baseURL @ ''/agent/interface.json'') w"

definition CallMethod ::
  "anp_json \<Rightarrow> 'w http_client \<Rightarrow> string \<Rightarrow> string \<Rightarrow> string \<Rightarrow> json \<Rightarrow> 'w \<Rightarrow> (anp_error + JSONRPCResponse) \<times> 'w" where
  "CallMethod J C uuid baseURL rpc_method params w =
     (let url = baseURL @ ''/agent/rpc'' in
      case aj_put_request J \<lparr>jq_JSONRPC = ''2.0'', jq_Method = rpc_method, jq_Params = params, jq_ID = JString uuid\<rparr> of
        Inl err \<Rightarrow> (Inl (AnpMarshal err), w)
      | Inr body \<Rightarrow>
          (case http_NewRequest C url of
             Some err \<Rightarrow> (Inl (AnpCreateRequest err), w)
           | None \<Rightarrow>
               (case http_Do C url (Some body) w of
                  (Inl err, w1) \<Rightarrow> (Inl (AnpFetch url err), w1)
                | (Inr (scode, content), w1) \<Rightarrow>
                    if scode \<noteq> 200 then
                      (Inl (AnpStatus scode url (case content of Inl _ \<Rightarrow> [] | Inr b \<Rightarrow> take (2 ^ 10) b)), w1)
                    else (case content of
                      Inl err \<Rightarrow> (Inl (AnpDecode err), w1)
                    | Inr b \<Rightarrow> (case aj_get_response J (take max_body b) of
                        Inl err \<Rightarrow> (Inl (AnpDecode err), w1)
                      | Inr resp \<Rightarrow> (Inr resp, w1))))))"

definition anp_SendTask ::
  "anp_json \<Rightarrow> 'w http_client \<Rightarrow> string \<Rightarrow> string \<Rightarrow> string \<Rightarrow> string \<Rightarrow> string \<Rightarrow> 'w \<Rightarrow> (anp_error + string) \<times> 'w" where
  "anp_SendTask J C taskID callID targetURL skillID messageText w =
     (case CallMethod J C callID targetURL skillID (task_params_json messageText taskID) w of
        (Inl err, w') \<Rightarrow> (Inl (AnpCall targetURL skillID err), w')
      | (Inr resp, w') \<Rightarrow>
          (case jp_Error resp of
             Some e \<Rightarrow> (Inl (AnpRemote (je_Code e) (je_Message e)), w')
           | None \<Rightarrow> (Inr (extractTextFromResult J (jp_Result resp)), w')))"

section \<open>Translation there and back\<close>

text \<open>A schema that is absent, or JSON text that the encoder would write in the same way.\<close>

definition schema_ok :: "anp_json \<Rightarrow> string \<Rightarrow> bool" where
  "schema_ok J s \<longleftrightarrow> s = [] \<or> (\<exists>v. aj_get_any J s = Some v \<and> aj_put_any J v = Some s)"

definition did_ok :: "string \<Rightarrow> bool" where
  "did_ok did \<longleftrightarrow> did = [] \<or> (length did > 8 \<and> (take 8 did = ''did:web:'' \<or> take 8 did = ''did:key:''))"

lemma method_skill_inverse:
  "schema_ok J (InputSchema s) \<Longrightarrow> schema_ok J (OutputSchema s) \<Longrightarrow> method_skill J (skill_method J s) = s"
  by (auto simp: method_skill_def skill_method_def schema_ok_def)

lemma described_did: "did_ok (ad_DID desc) \<Longrightarrow> ad_DID (AgentCardToDescription (DescriptionToAgentCard desc) u) = ad_DID desc"
  by (auto simp: AgentCardToDescription_def DescriptionToAgentCard_def did_ok_def no_ext_def Let_def)

text \<open>
  Skills and cards survive the translation to ANP. The OpenRPC methods of a list of skills translate
  back to the same skills, when their schemas are absent or in the form that the encoder writes; and
  translating the description of a card to a card and back gives the same description, identity
  included.
\<close>

theorem anp_translation_roundtrip:
  assumes "\<forall>s\<in>set (card_Skills c). schema_ok J (InputSchema s) \<and> schema_ok J (OutputSchema s)"
    and "did_ok (ad_DID (AgentCardToDescription c baseURL))"
  shows "OpenRPCToSkills J (SkillsToOpenRPC J (card_Skills c) (card_Name c) (card_Version c)) = card_Skills c
    \<and> AgentCardToDescription (DescriptionToAgentCard (AgentCardToDescription c baseURL)) baseURL = AgentCardToDescription c baseURL"
proof
  have "map (method_skill J \<circ> skill_method J) (card_Skills c) = card_Skills c"
    by (rule map_idI) (use assms(1) method_skill_inverse in auto)
  then show "OpenRPCToSkills J (SkillsToOpenRPC J (card_Skills c) (card_Name c) (card_Version c)) = card_Skills c"
    by (simp add: OpenRPCToSkills_def SkillsToOpenRPC_def)
  have "ad_DID (AgentCardToDescription (DescriptionToAgentCard (AgentCardToDescription c baseURL)) baseURL)
      = ad_DID (AgentCardToDescription c baseURL)"
    by (rule described_did [OF assms(2)])
  then show "AgentCardToDescription (DescriptionToAgentCard (AgentCardToDescription c baseURL)) baseURL = AgentCardToDescription c baseURL"
    by (simp add: AgentCardToDescription_def DescriptionToAgentCard_def)
qed

section \<open>Calls\<close>

text \<open>A client whose requests below \<open>base\<close> are answered by the handler \<open>srv\<close>.\<close>

definition anp_talks_to :: "'w http_client \<Rightarrow> string \<Rightarrow> 'w http_handler \<Rightarrow> bool" where
  "anp_talks_to C base srv \<longleftrightarrow> http_NewRequest C (base @ ''/agent/rpc'') = None \<and>
     (\<forall>b w. http_Do C (base @ ''/agent/rpc'') (Some b) w =
        (case srv \<lparr>hr_Method = ''POST'', hr_Path = ''/agent/rpc'', hr_Origin = [], hr_Body = Inr b\<rparr> http_new w of
           (rw, w') \<Rightarrow> (Inr (hw_Code rw, Inr (hw_Body rw)), w')))"

definition anp_request :: "string \<Rightarrow> string \<Rightarrow> string \<Rightarrow> string \<Rightarrow> JSONRPCRequest" where
  "anp_request callID skill txt taskID = \<lparr>jq_JSONRPC = ''2.0'', jq_Method = skill, jq_Params = task_params_json txt taskID, jq_ID = JString callID\<rparr>"

lemma anp_input: "aj_sprint J (JString txt) = txt \<Longrightarrow>
    anp_task J \<lparr>at_Method = skill, at_Params = task_params_json txt taskID\<rparr> =
      \<lparr>pbt_TaskId = [], pbt_ContextId = [], pbt_Status = TASK_STATUS_SUBMITTED, pbt_TargetSkillId = skill, pbt_OriginatorPeerId = [],
       pbt_Messages = [\<lparr>MessageId = [], Role = MESSAGE_ROLE_USER, Parts = [TextPart txt], msg_CreatedAt = None\<rparr>],
       pbt_Artifacts = [], pbt_CreatedAt = None, pbt_UpdatedAt = None\<rparr>"
  by (simp add: anp_task_def task_params_json_def)


lemma SendTask_creates:
  assumes "SendTask L i p msg sk cx r d w = (res, r', d', w')"
  shows "(\<exists>t. tasks (engine r') (ri_uuid i) = Some t \<and> Status t = StatusSubmitted \<and> TargetSkillID t = sk \<and> OriginatorPeerID t = ''local'')
    \<and> policy_state r' = policy_state r"
  using assms by (auto simp: SendTask_def CreateTask_def send_tracked_def Let_def split: option.splits prod.splits)

text \<open>
  C37. ANP calls are not subject to the inbound policy. Whatever policy the router has, every well-formed
  call that reaches the consumer creates a task for the named skill in the engine, whether or not the
  client still waits for the answer; the policy is not consulted, so its state, with the rate limits and
  the audit log, is as before.
\<close>

theorem anp_bypasses_policy:
  assumes "hr_Body r = Inr content" and "aj_get_request J (take max_body content) = Inr req"
    and "sched \<noteq> StaysFull"
    and "serveRPC J (Some (anp_route J status_name (HandleInboundTask L ri err_text self) sched)) r rw (ro, d, w) = (rw', (ro', d', w'))"
  shows "(\<exists>t. tasks (engine ro') (ri_uuid ri) = Some t \<and> Status t = StatusSubmitted \<and> TargetSkillID t = jq_Method req)
    \<and> policy_state ro' = policy_state ro"
proof -
  let ?t = "\<lparr>at_Method = jq_Method req, at_Params = jq_Params req\<rparr>"
  obtain res r1 d1 w1 where s: "SendTask L ri self (Some (hd (pbt_Messages (anp_task J ?t)))) (jq_Method req) [] ro d w = (res, r1, d1, w1)"
    by (metis prod_cases4)
  then have "snd (HandleInboundTask L ri err_text self (anp_task J ?t) (ro, d, w)) = (r1, d1, w1)"
    by (cases res) (simp_all add: HandleInboundTask_def anp_task_def)
  then have "snd (anp_consume J status_name (HandleInboundTask L ri err_text self) ?t (ro, d, w)) = (r1, d1, w1)"
    by (auto simp: anp_consume_def split: prod.splits sum.splits)
  then have "snd (anp_route J status_name (HandleInboundTask L ri err_text self) sched ?t (ro, d, w)) = (r1, d1, w1)"
    using assms(3) by (cases sched) (auto simp: anp_route_def split: prod.splits)
  then have "ro' = r1"
    using assms(1,2,4) by (auto simp: serveRPC_def split: prod.splits anp_outcome.splits sum.splits)
  with SendTask_creates [OF s] show ?thesis by auto
qed

section \<open>A call\<close>

definition demo_anp_task :: pb_Task where
  "demo_anp_task = \<lparr>pbt_TaskId = ''t'', pbt_ContextId = [], pbt_Status = TASK_STATUS_SUBMITTED, pbt_TargetSkillId = ''sk'', pbt_OriginatorPeerId = [],
     pbt_Messages = [demo_http_msg], pbt_Artifacts = [], pbt_CreatedAt = None, pbt_UpdatedAt = None\<rparr>"

definition demo_anp_answer :: JSONRPCResponse where
  "demo_anp_answer = \<lparr>jp_JSONRPC = ''2.0'', jp_Result = ProtoTaskToResult (\<lambda>_. ''TASK_STATUS_SUBMITTED'') demo_anp_task, jp_Error = None, jp_ID = JString ''sk''\<rparr>"

definition demo_anp_json :: anp_json where
  "demo_anp_json = \<lparr>aj_get_request = one_get (anp_request ''c'' ''sk'' ''hi'' ''t'') [1], aj_put_request = one_put (anp_request ''c'' ''sk'' ''hi'' ''t'') [1],
     aj_get_response = one_get demo_anp_answer [2], aj_put_response = one_put demo_anp_answer [2],
     aj_get_desc = (\<lambda>_. Inl ''unsupported''), aj_put_desc = (\<lambda>_. None), aj_get_spec = (\<lambda>_. Inl ''unsupported''), aj_put_spec = (\<lambda>_. None),
     aj_get_any = (\<lambda>s. if s = ''null'' then Some JNull else None), aj_put_any = (\<lambda>v. if v = JNull then Some ''null'' else None),
     aj_sprint = (\<lambda>v. case v of JString s \<Rightarrow> s | _ \<Rightarrow> [])\<rparr>"

definition demo_anp_client :: "pb_Task list http_client" where
  "demo_anp_client = \<lparr>http_NewRequest = (\<lambda>_. None),
     http_Do = (\<lambda>url b w. case anp_ServeHTTP demo_anp_json None [] False
           (Some (anp_route demo_anp_json (\<lambda>_. ''TASK_STATUS_SUBMITTED'') (\<lambda>t w. (Inr demo_anp_task, w @ [t])) AnswersInTime))
        \<lparr>hr_Method = ''POST'', hr_Path = ''/agent/rpc'', hr_Origin = [], hr_Body = Inr (case b of None \<Rightarrow> [] | Some x \<Rightarrow> x)\<rparr> http_new w of
           (rw, w') \<Rightarrow> (Inr (hw_Code rw, Inr (hw_Body rw)), w'))\<rparr>"


theorem anp_bypasses_policy_witness:
  "\<exists>rw' ro' d' w'. serveRPC demo_anp_json (Some (anp_route demo_anp_json (\<lambda>_. []) (HandleInboundTask self_dial_libs demo_router_inputs (\<lambda>_. []) ''self'') AnswersLate))
      \<lparr>hr_Method = ''POST'', hr_Path = ''/agent/rpc'', hr_Origin = [], hr_Body = Inr [1]\<rparr> http_new (demo_router, mem_empty, ()) = (rw', (ro', d', w'))
     \<and> (\<exists>t. tasks (engine ro') ''k'' = Some t \<and> TargetSkillID t = ''sk'')"
proof -
  let ?r = "\<lparr>hr_Method = ''POST'', hr_Path = ''/agent/rpc'', hr_Origin = [], hr_Body = Inr [1]\<rparr>"
  obtain rw' ro' d' w' where e: "serveRPC demo_anp_json (Some (anp_route demo_anp_json (\<lambda>_. []) (HandleInboundTask self_dial_libs demo_router_inputs (\<lambda>_. []) ''self'') AnswersLate))
      ?r http_new (demo_router, mem_empty, ()) = (rw', (ro', d', w'))"
    by (metis prod_cases4)
  from anp_bypasses_policy [OF _ _ _ e, of "[1]" "anp_request ''c'' ''sk'' ''hi'' ''t''"] e show ?thesis
    by (auto simp: demo_anp_json_def one_get_def max_body_def anp_request_def demo_router_inputs_def)
qed

theorem anp_translation_roundtrip_witness:
  "OpenRPCToSkills demo_anp_json (SkillsToOpenRPC demo_anp_json [\<lparr>skill_Id = ''s'', skill_Description = ''d'', InputSchema = ''null'', OutputSchema = []\<rparr>] ''n'' ''v'')
     = [\<lparr>skill_Id = ''s'', skill_Description = ''d'', InputSchema = ''null'', OutputSchema = []\<rparr>]"
  using anp_translation_roundtrip [of "\<lparr>card_Name = ''n'', card_Description = [], card_Version = ''v'', ProtocolVersion = [],
      card_Skills = [\<lparr>skill_Id = ''s'', skill_Description = ''d'', InputSchema = ''null'', OutputSchema = []\<rparr>], P2PExtension = None\<rparr>" demo_anp_json "[]"]
  by (simp add: schema_ok_def demo_anp_json_def did_ok_def AgentCardToDescription_def)

end
