(* ===== verification/McpProxy.thy ===== *)
theory McpProxy
  imports GrpcServer "HOL-Library.AList"
begin

text \<open>
  The MCP proxy of \<^verbatim>\<open>internal/mcpproxy\<close>: a subprocess that speaks JSON-RPC over its standard input and
  output (\<^verbatim>\<open>process.go\<close>), the discovery of its tools (\<^verbatim>\<open>discovery.go\<close>), the calls that tasks cause
  (\<^verbatim>\<open>proxy.go\<close>) and what \<^verbatim>\<open>main.go\<close> does with a proxy.

  A process is a state machine. Each call of \<open>Call\<close> is an entry of \<open>calls\<close>, with the channel that it made
  at the same index of \<open>chans\<close> and a phase that says how far it has come; the reader goroutine has a phase
  of its own. An action is one atomic step of one goroutine: what is done between taking and
  releasing a mutex, one operation on a channel, one choice of a \<open>select\<close>. \<open>proc_step\<close> says whether the
  action is possible (it is \<open>Blocked\<close> otherwise), whether it panics, and the state after it. The
  subprocess is not constrained: it may write any line at any time.
\<close>

section \<open>Messages and state\<close>

record mcp_request =
  mq_JSONRPC :: string
  mq_ID :: "64 word"
  mq_Method :: string
  mq_Params :: json

record mcp_response =
  mr_JSONRPC :: string
  mr_ID :: "64 word"
  mr_Result :: string
  mr_Error :: "(int \<times> string) option"

text \<open>The zero value, which a receive from a closed channel yields.\<close>

definition zero_response :: mcp_response where
  "zero_response = \<lparr>mr_JSONRPC = [], mr_ID = 0, mr_Result = [], mr_Error = None\<rparr>"

text \<open>\<open>mj_request\<close> is \<open>json.Marshal\<close> of a request, \<open>mj_response\<close> is \<open>json.Unmarshal\<close> of a line.\<close>

record mcp_json =
  mj_request :: "mcp_request \<Rightarrow> string + bytes"
  mj_response :: "bytes \<Rightarrow> mcp_response option"

datatype call_error =
    MarshalFailed string
  | WriteFailed string
  | CallCanceled string string
  | SubprocessExited string
  | RPCFailed int string

text \<open>\<open>Leaving\<close>: the result is known and the deferred removal of the pending entry is still to come.\<close>

datatype call_phase =
    Numbered
  | Registered
  | Selecting
  | Leaving "call_error + string"
  | Returned "call_error + string"

record mcp_call =
  mc_ID :: "64 word"
  mc_Method :: string
  mc_Params :: json
  mc_Phase :: call_phase

record mcp_chan =
  ch_Buffer :: "mcp_response list"
  ch_Closed :: bool

datatype reader_phase =
    Reading
  | Sending nat mcp_response
  | Exiting
  | Gone

datatype closer_phase =
    NotClosing
  | Waiting
  | Waited "string option"
  | CloseReturned "string option"

record Process =
  nextID :: "64 word"
  calls :: "mcp_call list"
  chans :: "mcp_chan list"
  pending :: "(64 word \<times> nat) list"
  stdin :: bytes
  stdinClosed :: bool
  reader :: reader_phase
  done_closed :: bool
  closer :: closer_phase

definition new_process :: Process where
  "new_process = \<lparr>nextID = 0, calls = [], chans = [], pending = [], stdin = [], stdinClosed = False,
     reader = Reading, done_closed = False, closer = NotClosing\<rparr>"

text \<open>\<open>NewProcess\<close>: the errors of the two pipes and of the start of the command come from the outside.\<close>

datatype new_error = StdinPipe string | StdoutPipe string | StartFailed string

definition NewProcess :: "string option \<Rightarrow> string option \<Rightarrow> string option \<Rightarrow> new_error + Process" where
  "NewProcess stdinErr stdoutErr startErr =
     (case stdinErr of Some e \<Rightarrow> Inl (StdinPipe e) | None \<Rightarrow>
      case stdoutErr of Some e \<Rightarrow> Inl (StdoutPipe e) | None \<Rightarrow>
      case startErr of Some e \<Rightarrow> Inl (StartFailed e) | None \<Rightarrow> Inr new_process)"

section \<open>Actions\<close>

text \<open>
  The outcome of a write is the number of bytes that went into the pipe and an error.
\<close>

datatype mcp_action =
    Number string json
  | Register nat
  | Write nat "nat \<times> string option"
  | CtxDone nat string
  | ProcDone nat
  | Receive nat
  | Unregister nat
  | Notify string json "nat \<times> string option"
  | ReadLine bytes
  | Deliver
  | ReadFails
  | CloseDone
  | CloseStdin
  | Wait "string option"
  | FinishClose

datatype step_result = Blocked | Panics | Goes Process

definition set_phase :: "nat \<Rightarrow> call_phase \<Rightarrow> Process \<Rightarrow> Process" where
  "set_phase k ph p = p\<lparr>calls := (calls p)[k := (calls p ! k)\<lparr>mc_Phase := ph\<rparr>]\<rparr>"

text \<open>\<open>writeRequest\<close>. A write to the closed pipe fails; a write that succeeds takes all the bytes.\<close>

definition writeRequest :: "mcp_json \<Rightarrow> mcp_request \<Rightarrow> nat \<times> string option \<Rightarrow> Process \<Rightarrow> ((call_error option) \<times> Process) option" where
  "writeRequest J req wr p =
     (case mj_request J req of
        Inl err \<Rightarrow> Some (Some (MarshalFailed err), p)
      | Inr body \<Rightarrow>
          (case wr of
             (_, None) \<Rightarrow> if stdinClosed p then None else Some (None, p\<lparr>stdin := stdin p @ body @ [10]\<rparr>)
           | (n, Some err) \<Rightarrow> Some (Some (WriteFailed err),
               if stdinClosed p then p else p\<lparr>stdin := stdin p @ take n (body @ [10])\<rparr>)))"

definition call_request :: "mcp_call \<Rightarrow> mcp_request" where
  "call_request c = \<lparr>mq_JSONRPC = ''2.0'', mq_ID = mc_ID c, mq_Method = mc_Method c, mq_Params = mc_Params c\<rparr>"

definition response_result :: "mcp_response \<Rightarrow> call_error + string" where
  "response_result resp = (case mr_Error resp of Some (num, msg) \<Rightarrow> Inl (RPCFailed num msg) | None \<Rightarrow> Inr (mr_Result resp))"

section \<open>The steps of a call\<close>

definition call_number :: "string \<Rightarrow> json \<Rightarrow> Process \<Rightarrow> step_result" where
  "call_number meth params p =
     (let i = nextID p + 1 in
      Goes (p\<lparr>nextID := i, calls := calls p @ [\<lparr>mc_ID = i, mc_Method = meth, mc_Params = params, mc_Phase = Numbered\<rparr>],
              chans := chans p @ [\<lparr>ch_Buffer = [], ch_Closed = False\<rparr>]\<rparr>))"

definition call_register :: "nat \<Rightarrow> Process \<Rightarrow> step_result" where
  "call_register k p =
     (if k < length (calls p) \<and> mc_Phase (calls p ! k) = Numbered
      then Goes (set_phase k Registered (p\<lparr>pending := AList.update (mc_ID (calls p ! k)) k (pending p)\<rparr>))
      else Blocked)"

definition call_write :: "mcp_json \<Rightarrow> nat \<Rightarrow> nat \<times> string option \<Rightarrow> Process \<Rightarrow> step_result" where
  "call_write J k wr p =
     (if k < length (calls p) \<and> mc_Phase (calls p ! k) = Registered
      then case writeRequest J (call_request (calls p ! k)) wr p of
             None \<Rightarrow> Blocked
           | Some (None, p') \<Rightarrow> Goes (set_phase k Selecting p')
           | Some (Some err, p') \<Rightarrow> Goes (set_phase k (Leaving (Inl err)) p')
      else Blocked)"

definition selecting :: "nat \<Rightarrow> Process \<Rightarrow> bool" where
  "selecting k p \<longleftrightarrow> k < length (calls p) \<and> mc_Phase (calls p ! k) = Selecting"

definition call_canceled :: "nat \<Rightarrow> string \<Rightarrow> Process \<Rightarrow> step_result" where
  "call_canceled k err p =
     (if selecting k p then Goes (set_phase k (Leaving (Inl (CallCanceled (mc_Method (calls p ! k)) err))) p) else Blocked)"

definition call_exited :: "nat \<Rightarrow> Process \<Rightarrow> step_result" where
  "call_exited k p =
     (if selecting k p \<and> done_closed p
      then Goes (set_phase k (Leaving (Inl (SubprocessExited (mc_Method (calls p ! k))))) p) else Blocked)"

definition call_receive :: "nat \<Rightarrow> Process \<Rightarrow> step_result" where
  "call_receive k p =
     (if selecting k p then
        (case ch_Buffer (chans p ! k) of
           resp # rest \<Rightarrow> Goes (set_phase k (Leaving (response_result resp))
               (p\<lparr>chans := (chans p)[k := (chans p ! k)\<lparr>ch_Buffer := rest\<rparr>]\<rparr>))
         | [] \<Rightarrow> if ch_Closed (chans p ! k) then Goes (set_phase k (Leaving (response_result zero_response)) p) else Blocked)
      else Blocked)"

definition call_leave :: "nat \<Rightarrow> Process \<Rightarrow> step_result" where
  "call_leave k p =
     (if k < length (calls p) then
        (case mc_Phase (calls p ! k) of
           Leaving r \<Rightarrow> Goes (set_phase k (Returned r) (p\<lparr>pending := AList.delete (mc_ID (calls p ! k)) (pending p)\<rparr>))
         | _ \<Rightarrow> Blocked)
      else Blocked)"

section \<open>The reader\<close>

definition read_line :: "mcp_json \<Rightarrow> bytes \<Rightarrow> Process \<Rightarrow> step_result" where
  "read_line J line p =
     (if reader p = Reading then
        (case mj_response J line of
           None \<Rightarrow> Goes p
         | Some resp \<Rightarrow>
             if mr_ID resp = 0 then Goes p
             else case map_of (pending p) (mr_ID resp) of
                    Some ch \<Rightarrow> Goes (p\<lparr>reader := Sending ch resp\<rparr>)
                  | None \<Rightarrow> Goes p)
      else Blocked)"

definition deliver :: "Process \<Rightarrow> step_result" where
  "deliver p =
     (case reader p of
        Sending ch resp \<Rightarrow>
          if ch_Closed (chans p ! ch) then Panics
          else if length (ch_Buffer (chans p ! ch)) < 1
          then Goes (p\<lparr>chans := (chans p)[ch := (chans p ! ch)\<lparr>ch_Buffer := ch_Buffer (chans p ! ch) @ [resp]\<rparr>], reader := Reading\<rparr>)
          else Blocked
      | _ \<Rightarrow> Blocked)"

text \<open>The loop over the pending entries when reading fails; closing a closed channel panics.\<close>

fun close_pending :: "nat list \<Rightarrow> mcp_chan list \<Rightarrow> mcp_chan list option" where
  "close_pending [] cs = Some cs"
| "close_pending (ch # chs) cs = (if ch_Closed (cs ! ch) then None else close_pending chs (cs[ch := (cs ! ch)\<lparr>ch_Closed := True\<rparr>]))"

definition read_fails :: "Process \<Rightarrow> step_result" where
  "read_fails p =
     (if reader p = Reading then
        (case close_pending (map snd (pending p)) (chans p) of
           None \<Rightarrow> Panics
         | Some cs \<Rightarrow> Goes (p\<lparr>chans := cs, pending := [], reader := Exiting\<rparr>))
      else Blocked)"

definition close_done :: "Process \<Rightarrow> step_result" where
  "close_done p =
     (if reader p = Exiting then if done_closed p then Panics else Goes (p\<lparr>done_closed := True, reader := Gone\<rparr>) else Blocked)"

section \<open>Close and notifications\<close>

definition close_stdin :: "Process \<Rightarrow> step_result" where
  "close_stdin p = (if closer p = NotClosing then Goes (p\<lparr>stdinClosed := True, closer := Waiting\<rparr>) else Blocked)"

definition wait_process :: "string option \<Rightarrow> Process \<Rightarrow> step_result" where
  "wait_process err p = (if closer p = Waiting then Goes (p\<lparr>closer := Waited err\<rparr>) else Blocked)"

definition finish_close :: "Process \<Rightarrow> step_result" where
  "finish_close p =
     (case closer p of Waited err \<Rightarrow> if done_closed p then Goes (p\<lparr>closer := CloseReturned err\<rparr>) else Blocked | _ \<Rightarrow> Blocked)"

definition notify :: "mcp_json \<Rightarrow> string \<Rightarrow> json \<Rightarrow> nat \<times> string option \<Rightarrow> Process \<Rightarrow> (call_error option \<times> Process) option" where
  "notify J meth params wr p = writeRequest J \<lparr>mq_JSONRPC = ''2.0'', mq_ID = 0, mq_Method = meth, mq_Params = params\<rparr> wr p"

section \<open>Runs\<close>

fun proc_step :: "mcp_json \<Rightarrow> mcp_action \<Rightarrow> Process \<Rightarrow> step_result" where
  "proc_step J (Number meth params) p = call_number meth params p"
| "proc_step J (Register k) p = call_register k p"
| "proc_step J (Write k wr) p = call_write J k wr p"
| "proc_step J (CtxDone k err) p = call_canceled k err p"
| "proc_step J (ProcDone k) p = call_exited k p"
| "proc_step J (Receive k) p = call_receive k p"
| "proc_step J (Unregister k) p = call_leave k p"
| "proc_step J (Notify meth params wr) p = (case notify J meth params wr p of None \<Rightarrow> Blocked | Some (_, p') \<Rightarrow> Goes p')"
| "proc_step J (ReadLine line) p = read_line J line p"
| "proc_step J Deliver p = deliver p"
| "proc_step J ReadFails p = read_fails p"
| "proc_step J CloseDone p = close_done p"
| "proc_step J CloseStdin p = close_stdin p"
| "proc_step J (Wait err) p = wait_process err p"
| "proc_step J FinishClose p = finish_close p"

inductive proc_steps :: "mcp_json \<Rightarrow> Process \<Rightarrow> mcp_action list \<Rightarrow> Process \<Rightarrow> bool" for J p where
  steps_refl: "proc_steps J p [] p"
| steps_snoc: "proc_steps J p as q \<Longrightarrow> proc_step J a q = Goes q' \<Longrightarrow> proc_steps J p (as @ [a]) q'"

text \<open>A run of given actions; \<open>None\<close> when one of them is not possible or panics.\<close>

fun run_proc :: "mcp_json \<Rightarrow> mcp_action list \<Rightarrow> Process \<Rightarrow> Process option" where
  "run_proc J [] p = Some p"
| "run_proc J (a # as) p = (case proc_step J a p of Goes q \<Rightarrow> run_proc J as q | _ \<Rightarrow> None)"

text \<open>\<open>Call\<close> as its caller sees it: the schedule says what this and the other goroutines do until it returns.\<close>

definition call_result :: "Process \<Rightarrow> nat \<Rightarrow> (call_error + string) option" where
  "call_result p k = (if k < length (calls p) then (case mc_Phase (calls p ! k) of Returned r \<Rightarrow> Some r | _ \<Rightarrow> None) else None)"

definition Call :: "mcp_json \<Rightarrow> mcp_action list \<Rightarrow> string \<Rightarrow> json \<Rightarrow> Process \<Rightarrow> ((call_error + string) \<times> Process) option" where
  "Call J sched meth params p =
     (case run_proc J (Number meth params # sched) p of
        None \<Rightarrow> None
      | Some q \<Rightarrow> map_option (\<lambda>r. (r, q)) (call_result q (length (calls p))))"

section \<open>Discovery of tools\<close>

record MCPTool =
  mt_Name :: string
  mt_Description :: string
  mt_InputSchema :: string

record initializeResult =
  ir_ProtocolVersion :: string
  ir_ServerName :: string
  ir_ServerVersion :: string

text \<open>\<open>json.Unmarshal\<close> into the types of the results and into \<open>any\<close>.\<close>

record tools_json =
  tj_initialize :: "string \<Rightarrow> string + initializeResult"
  tj_tools :: "string \<Rightarrow> string + MCPTool list"
  tj_any :: "string \<Rightarrow> string + json"

datatype discover_error =
    InitializeFailed call_error
  | ParseInitialize string
  | InitializedFailed call_error
  | ToolsListFailed call_error
  | ParseToolsList string

definition init_params :: json where
  "init_params = JObject [(''protocolVersion'', JString ''2025-03-26''), (''capabilities'', JObject []),
     (''clientInfo'', JObject [(''name'', JString ''agentanycast-mcp-proxy''), (''version'', JString ''0.7.0'')])]"

text \<open>The schedules of the two calls and the outcome of the write of the notification come from the outside.\<close>

definition DiscoverTools ::
  "mcp_json \<Rightarrow> tools_json \<Rightarrow> mcp_action list \<Rightarrow> nat \<times> string option \<Rightarrow> mcp_action list \<Rightarrow> Process \<Rightarrow>
   ((discover_error + MCPTool list) \<times> Process) option" where
  "DiscoverTools J D sched1 wr sched2 p =
     (case Call J sched1 ''initialize'' init_params p of
        None \<Rightarrow> None
      | Some (Inl err, p1) \<Rightarrow> Some (Inl (InitializeFailed err), p1)
      | Some (Inr initResult, p1) \<Rightarrow>
     (case tj_initialize D initResult of
        Inl err \<Rightarrow> Some (Inl (ParseInitialize err), p1)
      | Inr initResp \<Rightarrow>
     (case notify J ''notifications/initialized'' JNull wr p1 of
        None \<Rightarrow> None
      | Some (Some err, p2) \<Rightarrow> Some (Inl (InitializedFailed err), p2)
      | Some (None, p2) \<Rightarrow>
     (case Call J sched2 ''tools/list'' JNull p2 of
        None \<Rightarrow> None
      | Some (Inl err, p3) \<Rightarrow> Some (Inl (ToolsListFailed err), p3)
      | Some (Inr toolsResult, p3) \<Rightarrow>
     (case tj_tools D toolsResult of
        Inl err \<Rightarrow> Some (Inl (ParseToolsList err), p3)
      | Inr tools \<Rightarrow> Some (Inr tools, p3))))))"

definition ToolsToSkills :: "MCPTool list \<Rightarrow> pb_Skill list" where
  "ToolsToSkills tools =
     map (\<lambda>t. \<lparr>skill_Id = mt_Name t, skill_Description = mt_Description t,
               InputSchema = (if length (mt_InputSchema t) > 0 then mt_InputSchema t else []), OutputSchema = []\<rparr>) tools"

section \<open>The proxy\<close>

record Proxy =
  px_process :: Process
  px_tools :: "MCPTool list"

datatype proxy_error =
    SpawnFailed new_error
  | DiscoverFailed discover_error
  | InvalidArguments string
  | ToolsCallFailed string call_error

text \<open>\<open>New\<close>. After a failed discovery the process is closed; \<open>closing\<close> is what happens until \<open>Close\<close> returns.\<close>

definition proxy_New ::
  "mcp_json \<Rightarrow> tools_json \<Rightarrow> new_error + Process \<Rightarrow> mcp_action list \<Rightarrow> nat \<times> string option \<Rightarrow> mcp_action list \<Rightarrow> mcp_action list \<Rightarrow>
   ((proxy_error + Proxy) \<times> Process option) option" where
  "proxy_New J D spawned sched1 wr sched2 closing =
     (case spawned of
        Inl err \<Rightarrow> Some (Inl (SpawnFailed err), None)
      | Inr proc \<Rightarrow>
          (case DiscoverTools J D sched1 wr sched2 proc of
             None \<Rightarrow> None
           | Some (Inl err, p) \<Rightarrow>
               (case run_proc J (CloseStdin # closing) p of
                  None \<Rightarrow> None
                | Some q \<Rightarrow> (case closer q of CloseReturned _ \<Rightarrow> Some (Inl (DiscoverFailed err), Some q) | _ \<Rightarrow> None))
           | Some (Inr tools, p) \<Rightarrow> Some (Inr \<lparr>px_process = p, px_tools = tools\<rparr>, Some p)))"

definition proxy_Tools :: "Proxy \<Rightarrow> MCPTool list" where
  "proxy_Tools x = px_tools x"

definition proxy_Skills :: "Proxy \<Rightarrow> pb_Skill list" where
  "proxy_Skills x = ToolsToSkills (px_tools x)"

definition HandleTask ::
  "mcp_json \<Rightarrow> tools_json \<Rightarrow> mcp_action list \<Rightarrow> string \<Rightarrow> string \<Rightarrow> Process \<Rightarrow> ((proxy_error + string) \<times> Process) option" where
  "HandleTask J D sched toolName arguments p =
     (case (if length arguments = 0 \<or> arguments = ''null'' then Inr (JObject []) else tj_any D arguments) of
        Inl err \<Rightarrow> Some (Inl (InvalidArguments err), p)
      | Inr args \<Rightarrow>
          (case Call J sched ''tools/call'' (JObject [(''name'', JString toolName), (''arguments'', args)]) p of
             None \<Rightarrow> None
           | Some (Inl err, q) \<Rightarrow> Some (Inl (ToolsCallFailed toolName err), q)
           | Some (Inr result, q) \<Rightarrow> Some (Inr result, q)))"

text \<open>The part of \<^verbatim>\<open>main.go\<close> that puts the tools of a proxy on the agent card and routes their tasks to it.\<close>

definition wire_proxy ::
  "('db, 'l, 'f, 'w, 'pub) server_libs \<Rightarrow> Proxy \<Rightarrow> ('l, 'f, 'w) Server \<Rightarrow> 'db \<Rightarrow> ('l, 'f, 'w) Server \<times> 'db" where
  "wire_proxy L x s d =
     (case fold (RegisterProxySkill L) (proxy_Skills x) (s, d) of
        (s1, d1) \<Rightarrow> (RegisterMCPProxyHandler (map mt_Name (proxy_Tools x)) s1, d1))"

section \<open>The invariant of a process\<close>

definition pending_ok :: "Process \<Rightarrow> bool" where
  "pending_ok p \<longleftrightarrow> distinct (map fst (pending p)) \<and>
     (\<forall>i k. map_of (pending p) i = Some k \<longrightarrow> k < length (calls p) \<and> i = mc_ID (calls p ! k) \<and> \<not> ch_Closed (chans p ! k) \<and>
        mc_Phase (calls p ! k) \<noteq> Numbered)"

definition chans_ok :: "Process \<Rightarrow> bool" where
  "chans_ok p \<longleftrightarrow> length (chans p) = length (calls p) \<and>
     (\<forall>k<length (calls p). (mc_Phase (calls p ! k) = Numbered \<longrightarrow> \<not> ch_Closed (chans p ! k)) \<and>
        (\<forall>resp\<in>set (ch_Buffer (chans p ! k)). mr_ID resp = mc_ID (calls p ! k)))"

definition reader_ok :: "Process \<Rightarrow> bool" where
  "reader_ok p \<longleftrightarrow> (done_closed p \<longleftrightarrow> reader p = Gone) \<and>
     (\<forall>k resp. reader p = Sending k resp \<longrightarrow> k < length (calls p) \<and> mr_ID resp = mc_ID (calls p ! k) \<and> \<not> ch_Closed (chans p ! k))"

definition call_id :: "nat \<Rightarrow> 64 word" where
  "call_id k = word_of_nat (Suc k)"

definition ids_ok :: "Process \<Rightarrow> bool" where
  "ids_ok p \<longleftrightarrow> nextID p = word_of_nat (length (calls p)) \<and> (\<forall>k<length (calls p). mc_ID (calls p ! k) = call_id k)"

definition proc_inv :: "Process \<Rightarrow> bool" where
  "proc_inv p \<longleftrightarrow> ids_ok p \<and> chans_ok p \<and> pending_ok p \<and> reader_ok p"

lemma pending_okI:
  "distinct (map fst (pending p)) \<Longrightarrow>
   (\<And>i k. map_of (pending p) i = Some k \<Longrightarrow> k < length (calls p) \<and> mc_ID (calls p ! k) = i \<and> \<not> ch_Closed (chans p ! k) \<and>
      mc_Phase (calls p ! k) \<noteq> Numbered) \<Longrightarrow> pending_ok p"
  by (fastforce simp: pending_ok_def)

lemma pending_okD:
  "map_of (pending p) i = Some k \<Longrightarrow> pending_ok p \<Longrightarrow> k < length (calls p) \<and> mc_ID (calls p ! k) = i \<and> \<not> ch_Closed (chans p ! k) \<and>
      mc_Phase (calls p ! k) \<noteq> Numbered"
  by (metis pending_ok_def)

lemma pending_setD:
  "(i, k) \<in> set (pending p) \<Longrightarrow> pending_ok p \<Longrightarrow> k < length (calls p) \<and> mc_ID (calls p ! k) = i \<and> \<not> ch_Closed (chans p ! k) \<and>
      mc_Phase (calls p ! k) \<noteq> Numbered"
  using pending_okD [of p i k] by (simp add: pending_ok_def)

lemma pending_distinct: "pending_ok p \<Longrightarrow> distinct (map fst (pending p))"
  by (simp add: pending_ok_def)

lemma set_phase_sel [simp]:
  "nextID (set_phase k ph p) = nextID p" "chans (set_phase k ph p) = chans p" "pending (set_phase k ph p) = pending p"
  "reader (set_phase k ph p) = reader p" "done_closed (set_phase k ph p) = done_closed p" "stdin (set_phase k ph p) = stdin p"
  "length (calls (set_phase k ph p)) = length (calls p)" "closer (set_phase k ph p) = closer p" "stdinClosed (set_phase k ph p) = stdinClosed p"
  by (simp_all add: set_phase_def)

lemma set_phase_calls [simp]:
  "j < length (calls p) \<Longrightarrow> calls (set_phase k ph p) ! j = (if j = k then (calls p ! k)\<lparr>mc_Phase := ph\<rparr> else calls p ! j)"
  by (simp add: set_phase_def nth_list_update)

lemma inv_frame_pending [simp]:
  "ids_ok (p\<lparr>pending := x\<rparr>) = ids_ok p" "chans_ok (p\<lparr>pending := x\<rparr>) = chans_ok p" "reader_ok (p\<lparr>pending := x\<rparr>) = reader_ok p"
  by (simp_all add: ids_ok_def chans_ok_def reader_ok_def)

lemma inv_frame [simp]:
  "proc_inv (p\<lparr>stdin := b\<rparr>) = proc_inv p" "proc_inv (p\<lparr>stdinClosed := c\<rparr>) = proc_inv p" "proc_inv (p\<lparr>closer := ph\<rparr>) = proc_inv p"
  by (simp_all add: proc_inv_def ids_ok_def chans_ok_def pending_ok_def reader_ok_def)

text \<open>Moving the phase of a call forward.\<close>

lemma inv_set_phase:
  assumes "proc_inv p" and "ph \<noteq> Numbered"
  shows "proc_inv (set_phase k ph p)"
proof -
  have "ids_ok (set_phase k ph p)" using assms(1) by (simp add: proc_inv_def ids_ok_def)
  moreover have "chans_ok (set_phase k ph p)" using assms by (simp add: proc_inv_def chans_ok_def)
  moreover have "pending_ok (set_phase k ph p)" using assms by (simp add: proc_inv_def pending_ok_def)
  moreover have "reader_ok (set_phase k ph p)" using assms(1) by (simp add: proc_inv_def reader_ok_def)
  ultimately show ?thesis by (simp add: proc_inv_def)
qed

lemma inv_unregister:
  assumes "proc_inv p" shows "proc_inv (p\<lparr>pending := AList.delete i (pending p)\<rparr>)"
proof -
  have "pending_ok (p\<lparr>pending := AList.delete i (pending p)\<rparr>)"
  proof (rule pending_okI)
    show "distinct (map fst (pending (p\<lparr>pending := AList.delete i (pending p)\<rparr>)))"
      using assms by (simp add: proc_inv_def pending_ok_def distinct_delete)
  next
    fix i' k assume "map_of (pending (p\<lparr>pending := AList.delete i (pending p)\<rparr>)) i' = Some k"
    then have "map_of (pending p) i' = Some k" by (simp add: delete_conv' split: if_splits)
    then show "k < length (calls (p\<lparr>pending := AList.delete i (pending p)\<rparr>)) \<and> mc_ID (calls (p\<lparr>pending := AList.delete i (pending p)\<rparr>) ! k) = i' \<and>
        \<not> ch_Closed (chans (p\<lparr>pending := AList.delete i (pending p)\<rparr>) ! k) \<and> mc_Phase (calls (p\<lparr>pending := AList.delete i (pending p)\<rparr>) ! k) \<noteq> Numbered"
      using assms pending_okD [of p i' k] by (simp add: proc_inv_def)
  qed
  then show ?thesis using assms by (simp add: proc_inv_def)
qed

lemma inv_register:
  assumes "proc_inv p" and "k < length (calls p)" and "mc_Phase (calls p ! k) = Numbered"
  shows "proc_inv (set_phase k Registered (p\<lparr>pending := AList.update (mc_ID (calls p ! k)) k (pending p)\<rparr>))"
    (is "proc_inv ?q")
proof -
  have "pending_ok ?q"
  proof (rule pending_okI)
    show "distinct (map fst (pending ?q))"
      using assms(1) by (simp add: proc_inv_def pending_ok_def distinct_update)
  next
    fix i j assume "map_of (pending ?q) i = Some j"
    then have "i = mc_ID (calls p ! k) \<and> j = k \<or> map_of (pending p) i = Some j"
      by (simp add: update_conv' split: if_splits)
    then show "j < length (calls ?q) \<and> mc_ID (calls ?q ! j) = i \<and> \<not> ch_Closed (chans ?q ! j) \<and> mc_Phase (calls ?q ! j) \<noteq> Numbered"
      using assms pending_okD [of p i j] by (auto simp: proc_inv_def chans_ok_def split: if_splits)
  qed
  moreover have "chans_ok ?q" using assms by (simp add: proc_inv_def chans_ok_def)
  moreover have "ids_ok ?q" using assms by (simp add: proc_inv_def ids_ok_def)
  moreover have "reader_ok ?q" using assms by (simp add: proc_inv_def reader_ok_def)
  ultimately show ?thesis by (simp add: proc_inv_def)
qed

text \<open>A new call, with its channel, after the calls there are.\<close>

lemma inv_number:
  assumes "proc_inv p" and "call_number meth params p = Goes q" shows "proc_inv q"
proof -
  have len: "length (chans p) = length (calls p)" using assms(1) by (simp add: proc_inv_def chans_ok_def)
  have q: "q = p\<lparr>nextID := nextID p + 1, calls := calls p @ [\<lparr>mc_ID = nextID p + 1, mc_Method = meth, mc_Params = params, mc_Phase = Numbered\<rparr>],
      chans := chans p @ [\<lparr>ch_Buffer = [], ch_Closed = False\<rparr>]\<rparr>"
    using assms(2) by (simp add: call_number_def Let_def)
  have old: "k < length (calls p) \<Longrightarrow> calls q ! k = calls p ! k \<and> chans q ! k = chans p ! k" for k
    using len by (simp add: q nth_append)
  have new: "calls q ! length (calls p) = \<lparr>mc_ID = nextID p + 1, mc_Method = meth, mc_Params = params, mc_Phase = Numbered\<rparr>"
    "chans q ! length (calls p) = \<lparr>ch_Buffer = [], ch_Closed = False\<rparr>"
    using len by (simp_all add: q nth_append)
  have lens: "length (calls q) = Suc (length (calls p))" "length (chans q) = Suc (length (calls p))" using len by (simp_all add: q)
  have same: "pending q = pending p" "reader q = reader p" "done_closed q = done_closed p" by (simp_all add: q)
  have "ids_ok q" using assms(1) old new lens
    by (simp add: proc_inv_def ids_ok_def call_id_def less_Suc_eq all_conj_distrib imp_conjR) (simp add: q)
  moreover have "chans_ok q" using assms(1) old new lens by (simp add: proc_inv_def chans_ok_def less_Suc_eq)
  moreover have "pending_ok q"
    using assms(1) old lens by (intro pending_okI) (auto simp: proc_inv_def same pending_distinct dest!: pending_setD)
  moreover have "reader_ok q" using assms(1) old lens by (auto simp: proc_inv_def reader_ok_def same)
  ultimately show ?thesis by (simp add: proc_inv_def)
qed

lemma inv_writeRequest: "proc_inv p \<Longrightarrow> writeRequest J req wr p = Some (e, q) \<Longrightarrow> proc_inv q"
  by (auto simp: writeRequest_def split: sum.splits prod.splits option.splits if_splits)

lemma inv_write: "proc_inv p \<Longrightarrow> call_write J k wr p = Goes q \<Longrightarrow> proc_inv q"
  by (auto simp: call_write_def intro!: inv_set_phase split: option.splits prod.splits if_splits dest: inv_writeRequest)

lemma inv_chan:
  assumes "proc_inv p" and "set (ch_Buffer h) \<subseteq> {resp. k < length (calls p) \<longrightarrow> mr_ID resp = mc_ID (calls p ! k)}"
    and "ch_Closed h = ch_Closed (chans p ! k)"
  shows "proc_inv (p\<lparr>chans := (chans p)[k := h]\<rparr>)"
proof -
  let ?q = "p\<lparr>chans := (chans p)[k := h]\<rparr>"
  have c: "ch_Closed (chans ?q ! j) = ch_Closed (chans p ! j)" if "j < length (calls p)" for j
    using that assms(1,3) by (cases "j = k") (auto simp: proc_inv_def chans_ok_def)
  have "ids_ok ?q" using assms(1) by (simp add: proc_inv_def ids_ok_def)
  moreover have "\<forall>resp\<in>set (ch_Buffer (chans ?q ! j)). mr_ID resp = mc_ID (calls p ! j)" if "j < length (calls p)" for j
    using that assms(1,2) by (cases "j = k") (auto simp: proc_inv_def chans_ok_def)
  then have "chans_ok ?q" using assms c by (auto simp: proc_inv_def chans_ok_def)
  moreover have "pending_ok ?q"
  proof (rule pending_okI)
    show "distinct (map fst (pending ?q))" using assms(1) by (simp add: proc_inv_def pending_ok_def)
    fix i j assume "map_of (pending ?q) i = Some j"
    then show "j < length (calls ?q) \<and> mc_ID (calls ?q ! j) = i \<and> \<not> ch_Closed (chans ?q ! j) \<and> mc_Phase (calls ?q ! j) \<noteq> Numbered"
      using pending_okD [of p i j] c [of j] assms(1) by (simp add: proc_inv_def)
  qed
  moreover have "reader_ok ?q" using assms(1) c by (auto simp: proc_inv_def reader_ok_def)
  ultimately show ?thesis by (simp add: proc_inv_def)
qed

lemma inv_reader:
  assumes "proc_inv p" and "ph \<noteq> Gone" and "reader p \<noteq> Gone"
    and "\<And>k resp. ph = Sending k resp \<Longrightarrow> k < length (calls p) \<and> mr_ID resp = mc_ID (calls p ! k) \<and> \<not> ch_Closed (chans p ! k)"
  shows "proc_inv (p\<lparr>reader := ph\<rparr>)"
proof -
  have "reader_ok (p\<lparr>reader := ph\<rparr>)" using assms by (auto simp: proc_inv_def reader_ok_def)
  moreover have "ids_ok (p\<lparr>reader := ph\<rparr>) = ids_ok p" "chans_ok (p\<lparr>reader := ph\<rparr>) = chans_ok p" "pending_ok (p\<lparr>reader := ph\<rparr>) = pending_ok p"
    by (simp_all add: ids_ok_def chans_ok_def pending_ok_def)
  ultimately show ?thesis using assms(1) by (simp add: proc_inv_def)
qed

lemma inv_read_line:
  assumes "proc_inv p" and "read_line J line p = Goes q" shows "proc_inv q"
proof -
  have "q = p \<or> (\<exists>k resp. q = p\<lparr>reader := Sending k resp\<rparr> \<and> reader p = Reading \<and> map_of (pending p) (mr_ID resp) = Some k)"
    using assms(2) by (auto simp: read_line_def split: if_splits option.splits)
  then show ?thesis
  proof (elim disjE exE conjE)
    fix k resp assume q: "q = p\<lparr>reader := Sending k resp\<rparr>" and r: "reader p = Reading" "map_of (pending p) (mr_ID resp) = Some k"
    have "k < length (calls p) \<and> mc_ID (calls p ! k) = mr_ID resp \<and> \<not> ch_Closed (chans p ! k)"
      using pending_okD [OF r(2)] assms(1) by (simp add: proc_inv_def)
    then show ?thesis unfolding q by (intro inv_reader [OF assms(1)]) (use r in auto)
  qed (use assms(1) in simp)
qed

lemma inv_deliver:
  assumes "proc_inv p" and "deliver p = Goes q" shows "proc_inv q"
proof -
  obtain k resp where r: "reader p = Sending k resp"
    and q: "q = p\<lparr>chans := (chans p)[k := (chans p ! k)\<lparr>ch_Buffer := ch_Buffer (chans p ! k) @ [resp]\<rparr>]\<rparr>\<lparr>reader := Reading\<rparr>"
    using assms(2) by (auto simp: deliver_def split: reader_phase.splits if_splits)
  have "k < length (calls p) \<and> mr_ID resp = mc_ID (calls p ! k)" using assms(1) r by (simp add: proc_inv_def reader_ok_def)
  moreover have "\<forall>x\<in>set (ch_Buffer (chans p ! k)). k < length (calls p) \<longrightarrow> mr_ID x = mc_ID (calls p ! k)"
    using assms(1) by (auto simp: proc_inv_def chans_ok_def)
  ultimately have "proc_inv (p\<lparr>chans := (chans p)[k := (chans p ! k)\<lparr>ch_Buffer := ch_Buffer (chans p ! k) @ [resp]\<rparr>]\<rparr>)"
    by (intro inv_chan [OF assms(1)]) auto
  then show ?thesis unfolding q by (rule inv_reader) (use r in auto)
qed

lemma inv_receive:
  assumes "proc_inv p" and "call_receive k p = Goes q" shows "proc_inv q"
proof -
  have "selecting k p" using assms(2) by (auto simp: call_receive_def split: if_splits)
  moreover have "proc_inv (p\<lparr>chans := (chans p)[k := (chans p ! k)\<lparr>ch_Buffer := rest\<rparr>]\<rparr>)" if "ch_Buffer (chans p ! k) = resp # rest" for resp rest
    using assms(1) that by (intro inv_chan) (auto simp: proc_inv_def chans_ok_def)
  ultimately show ?thesis
    using assms by (auto simp: call_receive_def intro!: inv_set_phase split: if_splits list.splits)
qed

lemma close_pending_ok:
  assumes "distinct ks" and "\<forall>k\<in>set ks. k < length cs \<and> \<not> ch_Closed (cs ! k)"
  shows "\<exists>cs'. close_pending ks cs = Some cs' \<and> length cs' = length cs
    \<and> (\<forall>j<length cs. cs' ! j = (if j \<in> set ks then (cs ! j)\<lparr>ch_Closed := True\<rparr> else cs ! j))"
  using assms
proof (induction ks arbitrary: cs)
  case (Cons k ks)
  from Cons.prems have "\<forall>j\<in>set ks. j < length (cs[k := (cs ! k)\<lparr>ch_Closed := True\<rparr>]) \<and> \<not> ch_Closed (cs[k := (cs ! k)\<lparr>ch_Closed := True\<rparr>] ! j)"
    by (auto simp: nth_list_update)
  from Cons.IH [OF _ this] Cons.prems show ?case by (auto simp: nth_list_update)
qed simp

lemma pending_chans:
  assumes "proc_inv p"
  shows "distinct (map snd (pending p))"
    and "\<forall>k\<in>set (map snd (pending p)). k < length (chans p) \<and> \<not> ch_Closed (chans p ! k) \<and> mc_Phase (calls p ! k) \<noteq> Numbered"
proof -
  have ok: "pending_ok p" using assms by (simp add: proc_inv_def)
  have "inj_on snd (set (pending p))"
  proof (rule inj_onI)
    fix x y assume "x \<in> set (pending p)" "y \<in> set (pending p)" "snd x = snd y"
    then show "x = y" using pending_setD [of "fst x" "snd x" p] pending_setD [of "fst y" "snd y" p] ok
      by (metis prod.collapse)
  qed
  then show "distinct (map snd (pending p))"
    using pending_distinct [OF ok] by (simp add: distinct_map)
  show "\<forall>k\<in>set (map snd (pending p)). k < length (chans p) \<and> \<not> ch_Closed (chans p ! k) \<and> mc_Phase (calls p ! k) \<noteq> Numbered"
    using ok assms pending_setD by (fastforce simp: proc_inv_def chans_ok_def)
qed

lemma read_fails_goes:
  assumes "proc_inv p" and "reader p = Reading"
  obtains cs where "read_fails p = Goes (p\<lparr>chans := cs, pending := [], reader := Exiting\<rparr>)" "length cs = length (chans p)"
    "\<And>j. j < length (chans p) \<Longrightarrow> cs ! j = (if j \<in> set (map snd (pending p)) then (chans p ! j)\<lparr>ch_Closed := True\<rparr> else chans p ! j)"
proof -
  have "\<forall>k\<in>set (map snd (pending p)). k < length (chans p) \<and> \<not> ch_Closed (chans p ! k)" using pending_chans(2) [OF assms(1)] by blast
  from close_pending_ok [OF pending_chans(1) [OF assms(1)] this] obtain cs where "close_pending (map snd (pending p)) (chans p) = Some cs"
    "length cs = length (chans p)"
    "\<forall>j<length (chans p). cs ! j = (if j \<in> set (map snd (pending p)) then (chans p ! j)\<lparr>ch_Closed := True\<rparr> else chans p ! j)" by blast
  with that [of cs] assms(2) show ?thesis by (auto simp: read_fails_def)
qed

lemma inv_read_fails:
  assumes "proc_inv p" and "read_fails p = Goes q" shows "proc_inv q"
proof -
  have "reader p = Reading" using assms(2) by (simp add: read_fails_def split: if_splits)
  then obtain cs where g: "read_fails p = Goes (p\<lparr>chans := cs, pending := [], reader := Exiting\<rparr>)" and len: "length cs = length (chans p)"
    and cs: "\<And>j. j < length (chans p) \<Longrightarrow> cs ! j = (if j \<in> set (map snd (pending p)) then (chans p ! j)\<lparr>ch_Closed := True\<rparr> else chans p ! j)"
    using read_fails_goes [OF assms(1)] by blast
  from g assms(2) have q: "q = p\<lparr>chans := cs, pending := [], reader := Exiting\<rparr>" by simp
  have eq: "length (chans p) = length (calls p)" using assms(1) by (simp add: proc_inv_def chans_ok_def)
  have buf: "ch_Buffer (cs ! j) = ch_Buffer (chans p ! j)" if "j < length (calls p)" for j using cs [of j] that eq by simp
  have closed: "ch_Closed (cs ! j) = ch_Closed (chans p ! j)" if "j < length (calls p)" "mc_Phase (calls p ! j) = Numbered" for j
    using cs [of j] that eq pending_chans(2) [OF assms(1)] by auto
  have "ids_ok q" using assms(1) by (simp add: q proc_inv_def ids_ok_def)
  moreover have "chans_ok q" using assms(1) len buf closed by (simp add: q proc_inv_def chans_ok_def)
  moreover have "pending_ok q" by (simp add: q pending_ok_def)
  moreover have "reader_ok q" using assms(1) \<open>reader p = Reading\<close> by (simp add: q proc_inv_def reader_ok_def)
  ultimately show ?thesis by (simp add: proc_inv_def)
qed

lemma inv_close_done:
  assumes "proc_inv p" and "close_done p = Goes q" shows "proc_inv q"
proof -
  have q: "q = p\<lparr>done_closed := True, reader := Gone\<rparr>" using assms(2) by (simp add: close_done_def split: if_splits)
  have "ids_ok q = ids_ok p" "chans_ok q = chans_ok p" "pending_ok q = pending_ok p" "reader_ok q"
    by (simp_all add: q ids_ok_def chans_ok_def pending_ok_def reader_ok_def)
  then show ?thesis using assms(1) by (simp add: proc_inv_def)
qed

lemma inv_leave: "proc_inv p \<Longrightarrow> call_leave k p = Goes q \<Longrightarrow> proc_inv q"
  by (auto simp: call_leave_def intro!: inv_set_phase inv_unregister split: if_splits call_phase.splits)

lemma inv_call_register: "proc_inv p \<Longrightarrow> call_register k p = Goes q \<Longrightarrow> proc_inv q"
  by (auto simp: call_register_def intro!: inv_register split: if_splits)

lemma inv_others:
  "proc_inv p \<Longrightarrow> call_canceled k err p = Goes q \<Longrightarrow> proc_inv q"
  "proc_inv p \<Longrightarrow> call_exited k p = Goes q \<Longrightarrow> proc_inv q"
  "proc_inv p \<Longrightarrow> close_stdin p = Goes q \<Longrightarrow> proc_inv q"
  "proc_inv p \<Longrightarrow> wait_process w p = Goes q \<Longrightarrow> proc_inv q"
  "proc_inv p \<Longrightarrow> finish_close p = Goes q \<Longrightarrow> proc_inv q"
  by (auto simp: call_canceled_def call_exited_def close_stdin_def wait_process_def finish_close_def
      intro!: inv_set_phase split: if_splits closer_phase.splits)

lemma inv_notify: "proc_inv p \<Longrightarrow> notify J meth params wr p = Some (e, q) \<Longrightarrow> proc_inv q"
  unfolding notify_def by (rule inv_writeRequest)

theorem proc_inv_step: "proc_inv p \<Longrightarrow> proc_step J a p = Goes q \<Longrightarrow> proc_inv q"
  by (cases a) (auto intro: inv_number inv_write inv_receive inv_leave inv_read_line inv_deliver inv_read_fails inv_close_done inv_others inv_notify inv_call_register
      split: option.splits prod.splits)

lemma inv_new: "proc_inv new_process"
  by (simp add: new_process_def proc_inv_def ids_ok_def chans_ok_def pending_ok_def reader_ok_def)

lemma inv_reachable: "proc_steps J new_process as p \<Longrightarrow> proc_inv p"
  by (induction rule: proc_steps.induct) (auto simp: inv_new dest: proc_inv_step)

section \<open>Where results come from\<close>

text \<open>\<open>S\<close> is the set of the actions so far.\<close>

definition was_read :: "mcp_json \<Rightarrow> mcp_action set \<Rightarrow> mcp_response \<Rightarrow> bool" where
  "was_read J S resp \<longleftrightarrow> (\<exists>line. ReadLine line \<in> S \<and> mj_response J line = Some resp)"

definition explained :: "mcp_json \<Rightarrow> mcp_action set \<Rightarrow> 64 word \<Rightarrow> call_error + string \<Rightarrow> bool" where
  "explained J S i r \<longleftrightarrow>
     (\<exists>resp. was_read J S resp \<and> mr_ID resp = i \<and> r = response_result resp)
     \<or> (ReadFails \<in> S \<and> (r = Inr [] \<or> (\<exists>m. r = Inl (SubprocessExited m))))
     \<or> (\<exists>e. r = Inl e \<and> (case e of RPCFailed _ _ \<Rightarrow> False | SubprocessExited _ \<Rightarrow> False | _ \<Rightarrow> True))"

definition phase_result :: "call_phase \<Rightarrow> (call_error + string) option" where
  "phase_result ph = (case ph of Leaving r \<Rightarrow> Some r | Returned r \<Rightarrow> Some r | _ \<Rightarrow> None)"

definition traced :: "mcp_json \<Rightarrow> mcp_action set \<Rightarrow> Process \<Rightarrow> bool" where
  "traced J S p \<longleftrightarrow>
     (\<forall>h\<in>set (chans p). (\<forall>resp\<in>set (ch_Buffer h). was_read J S resp) \<and> (ch_Closed h \<longrightarrow> ReadFails \<in> S)) \<and>
     (\<forall>k resp. reader p = Sending k resp \<longrightarrow> was_read J S resp) \<and>
     (reader p \<in> {Exiting, Gone} \<longrightarrow> ReadFails \<in> S) \<and>
     (\<forall>c\<in>set (calls p). \<forall>r. phase_result (mc_Phase c) = Some r \<longrightarrow> explained J S (mc_ID c) r)"

lemma traced_buffer: "traced J S p \<Longrightarrow> h \<in> set (chans p) \<Longrightarrow> resp \<in> set (ch_Buffer h) \<Longrightarrow> was_read J S resp"
  by (simp add: traced_def)

lemma traced_sending: "traced J S p \<Longrightarrow> reader p = Sending k resp \<Longrightarrow> was_read J S resp"
  by (simp add: traced_def)

lemma traced_result: "traced J S p \<Longrightarrow> k < length (calls p) \<Longrightarrow> phase_result (mc_Phase (calls p ! k)) = Some r \<Longrightarrow>
    explained J S (mc_ID (calls p ! k)) r"
  by (simp add: traced_def)

lemma was_read_mono: "was_read J S resp \<Longrightarrow> S \<subseteq> T \<Longrightarrow> was_read J T resp"
  by (auto simp: was_read_def)

lemma explained_mono: "explained J S i r \<Longrightarrow> S \<subseteq> T \<Longrightarrow> explained J T i r"
  unfolding explained_def using was_read_mono by blast

lemma traced_mono: "traced J S p \<Longrightarrow> S \<subseteq> T \<Longrightarrow> traced J T p"
  unfolding traced_def using was_read_mono explained_mono by blast

lemma set_updateI: "y \<in> set (xs[k := x]) \<Longrightarrow> y = x \<or> y \<in> set xs"
  using set_update_subset_insert [of xs k x] by auto

lemma traced_phase:
  assumes "traced J S p" and "k < length (calls p)"
    and "\<And>r. phase_result ph = Some r \<Longrightarrow> explained J S (mc_ID (calls p ! k)) r"
  shows "traced J S (set_phase k ph p)"
proof -
  have "\<forall>c\<in>set (calls (set_phase k ph p)). \<forall>r. phase_result (mc_Phase c) = Some r \<longrightarrow> explained J S (mc_ID c) r"
    using assms unfolding set_phase_def traced_def by (auto dest!: set_updateI)
  then show ?thesis using assms(1) unfolding traced_def by simp
qed

lemma traced_frame [simp]:
  "traced J S (p\<lparr>stdin := b\<rparr>) = traced J S p" "traced J S (p\<lparr>stdinClosed := c\<rparr>) = traced J S p"
  "traced J S (p\<lparr>closer := ph\<rparr>) = traced J S p" "traced J S (p\<lparr>pending := al\<rparr>) = traced J S p"
  by (simp_all add: traced_def)

lemma traced_writeRequest: "traced J S p \<Longrightarrow> writeRequest J req wr p = Some (e, q) \<Longrightarrow> traced J S q \<and> calls q = calls p"
  by (auto simp: writeRequest_def split: sum.splits prod.splits option.splits if_splits)

lemma writeRequest_error: "writeRequest J req wr p = Some (Some e, q) \<Longrightarrow> explained J S i (Inl e)"
  by (auto simp: writeRequest_def explained_def split: sum.splits prod.splits option.splits if_splits)

lemma traced_write: "traced J S p \<Longrightarrow> call_write J k wr p = Goes q \<Longrightarrow> traced J S q"
  by (auto simp: call_write_def phase_result_def intro!: traced_phase split: option.splits prod.splits if_splits
      dest: traced_writeRequest intro: writeRequest_error)

lemma traced_receive:
  assumes "proc_inv p" and "traced J S p" and "call_receive k p = Goes q" shows "traced J S q"
proof -
  have k: "k < length (calls p)" "k < length (chans p)"
    using assms(1,3) by (auto simp: call_receive_def selecting_def proc_inv_def chans_ok_def split: if_splits)
  have h: "chans p ! k \<in> set (chans p)" using k by simp
  show ?thesis
  proof (cases "ch_Buffer (chans p ! k)")
    case Nil
    then have q: "q = set_phase k (Leaving (Inr [])) p" and "ch_Closed (chans p ! k)"
      using assms(3) by (auto simp: call_receive_def response_result_def zero_response_def split: if_splits)
    then have "ReadFails \<in> S" using assms(2) h by (auto simp: traced_def)
    then show ?thesis unfolding q using assms(2) k by (intro traced_phase) (auto simp: phase_result_def explained_def)
  next
    case (Cons resp rest)
    let ?p = "p\<lparr>chans := (chans p)[k := (chans p ! k)\<lparr>ch_Buffer := rest\<rparr>]\<rparr>"
    have q: "q = set_phase k (Leaving (response_result resp)) ?p" using assms(3) Cons by (auto simp: call_receive_def split: if_splits)
    have "was_read J S resp" using traced_buffer [OF assms(2) h] Cons by simp
    moreover have "mr_ID resp = mc_ID (calls p ! k)" using assms(1) k Cons by (auto simp: proc_inv_def chans_ok_def)
    ultimately have "explained J S (mc_ID (calls p ! k)) (response_result resp)" by (auto simp: explained_def)
    moreover have "traced J S ?p" using assms(2) h Cons unfolding traced_def by (auto dest!: set_updateI)
    ultimately show ?thesis unfolding q using k by (intro traced_phase) (auto simp: phase_result_def)
  qed
qed

lemma traced_number: "traced J S p \<Longrightarrow> call_number meth params p = Goes q \<Longrightarrow> traced J S q"
  by (auto simp: call_number_def Let_def traced_def phase_result_def)

lemma traced_leave:
  assumes "traced J S p" and "call_leave k p = Goes q" shows "traced J S q"
proof -
  obtain r where k: "k < length (calls p)" "mc_Phase (calls p ! k) = Leaving r"
    and q: "q = set_phase k (Returned r) (p\<lparr>pending := AList.delete (mc_ID (calls p ! k)) (pending p)\<rparr>)"
    using assms(2) by (auto simp: call_leave_def split: if_splits call_phase.splits)
  have "explained J S (mc_ID (calls p ! k)) r"
    using traced_result [OF assms(1) k(1)] k(2) by (simp add: phase_result_def)
  then show ?thesis unfolding q using assms(1) k(1) by (intro traced_phase) (auto simp: phase_result_def)
qed

lemma traced_read_line: "traced J S p \<Longrightarrow> ReadLine line \<in> S \<Longrightarrow> read_line J line p = Goes q \<Longrightarrow> traced J S q"
  by (auto simp: read_line_def traced_def was_read_def split: if_splits option.splits)

lemma traced_deliver:
  assumes "proc_inv p" and "traced J S p" and "deliver p = Goes q" shows "traced J S q"
proof -
  obtain k resp where r: "reader p = Sending k resp"
    and q: "q = p\<lparr>chans := (chans p)[k := (chans p ! k)\<lparr>ch_Buffer := ch_Buffer (chans p ! k) @ [resp]\<rparr>], reader := Reading\<rparr>"
    using assms(3) by (auto simp: deliver_def split: reader_phase.splits if_splits)
  have h: "chans p ! k \<in> set (chans p)" using assms(1) r by (simp add: proc_inv_def reader_ok_def chans_ok_def)
  have "was_read J S resp" using traced_sending [OF assms(2) r] .
  then show ?thesis unfolding q using assms(2) h unfolding traced_def by (auto dest!: set_updateI)
qed

lemma traced_read_fails:
  assumes "proc_inv p" and "traced J S p" and "ReadFails \<in> S" and "read_fails p = Goes q" shows "traced J S q"
proof -
  have "reader p = Reading" using assms(4) by (simp add: read_fails_def split: if_splits)
  then obtain cs where g: "read_fails p = Goes (p\<lparr>chans := cs, pending := [], reader := Exiting\<rparr>)" and len: "length cs = length (chans p)"
    and cs: "\<And>j. j < length (chans p) \<Longrightarrow> cs ! j = (if j \<in> set (map snd (pending p)) then (chans p ! j)\<lparr>ch_Closed := True\<rparr> else chans p ! j)"
    using read_fails_goes [OF assms(1)] by blast
  have "\<forall>resp\<in>set (ch_Buffer h). was_read J S resp" if "h \<in> set cs" for h
  proof -
    obtain j where j: "j < length (chans p)" "h = cs ! j" using \<open>h \<in> set cs\<close> len by (metis in_set_conv_nth)
    then have "ch_Buffer h = ch_Buffer (chans p ! j)" using cs [of j] by simp
    then show ?thesis using traced_buffer [OF assms(2) nth_mem [OF j(1)]] by simp
  qed
  then show ?thesis using assms(2,3,4) g unfolding traced_def by auto
qed

lemma traced_others:
  "traced J S p \<Longrightarrow> call_canceled k err p = Goes q \<Longrightarrow> traced J S q"
  "traced J S p \<Longrightarrow> call_register k p = Goes q \<Longrightarrow> traced J S q"
  "traced J S p \<Longrightarrow> close_stdin p = Goes q \<Longrightarrow> traced J S q"
  "traced J S p \<Longrightarrow> wait_process w p = Goes q \<Longrightarrow> traced J S q"
  "traced J S p \<Longrightarrow> finish_close p = Goes q \<Longrightarrow> traced J S q"
  by (auto simp: call_canceled_def call_register_def close_stdin_def wait_process_def finish_close_def selecting_def
      phase_result_def explained_def intro!: traced_phase split: if_splits closer_phase.splits)

lemma traced_exit:
  "traced J S p \<Longrightarrow> close_done p = Goes q \<Longrightarrow> traced J S q"
  "proc_inv p \<Longrightarrow> traced J S p \<Longrightarrow> call_exited k p = Goes q \<Longrightarrow> traced J S q"
  subgoal by (auto simp: close_done_def traced_def split: if_splits)
  subgoal
    by (auto simp: call_exited_def selecting_def proc_inv_def reader_ok_def phase_result_def explained_def intro!: traced_phase split: if_splits)
      (auto simp: traced_def)
  done

lemma traced_step:
  assumes "proc_inv p" and "traced J S p" and "a \<in> S" and "proc_step J a p = Goes q" shows "traced J S q"
proof (cases a)
  case (Notify meth params wr)
  then show ?thesis
    using assms traced_writeRequest [OF assms(2)] by (auto simp: notify_def split: option.splits prod.splits)
next
  case (Number m ps)
  with assms(3,4) show ?thesis by (auto intro: traced_number [OF assms(2)])
next
  case (Register k)
  with assms(3,4) show ?thesis by (auto intro: traced_others(2) [OF assms(2)])
next
  case (Write k wr)
  with assms(3,4) show ?thesis by (auto intro: traced_write [OF assms(2)])
next
  case (CtxDone k err)
  with assms(3,4) show ?thesis by (auto intro: traced_others(1) [OF assms(2)])
next
  case (ProcDone k)
  with assms(3,4) show ?thesis by (auto intro: traced_exit(2) [OF assms(1,2)])
next
  case (Receive k)
  with assms(3,4) show ?thesis by (auto intro: traced_receive [OF assms(1,2)])
next
  case (Unregister k)
  with assms(3,4) show ?thesis by (auto intro: traced_leave [OF assms(2)])
next
  case (ReadLine l)
  with assms(3,4) show ?thesis by (auto intro: traced_read_line [OF assms(2)])
next
  case Deliver
  with assms(3,4) show ?thesis by (auto intro: traced_deliver [OF assms(1,2)])
next
  case ReadFails
  with assms(3,4) show ?thesis by (auto intro: traced_read_fails [OF assms(1,2)])
next
  case CloseDone
  with assms(3,4) show ?thesis by (auto intro: traced_exit(1) [OF assms(2)])
next
  case CloseStdin
  with assms(3,4) show ?thesis by (auto intro: traced_others(3) [OF assms(2)])
next
  case (Wait w)
  with assms(3,4) show ?thesis by (auto intro: traced_others(4) [OF assms(2)])
next
  case FinishClose
  with assms(3,4) show ?thesis by (auto intro: traced_others(5) [OF assms(2)])
qed

lemma traced_reachable: "proc_steps J new_process as p \<Longrightarrow> traced J (set as) p"
proof (induction rule: proc_steps.induct)
  case steps_refl
  then show ?case by (simp add: traced_def new_process_def)
next
  case (steps_snoc as q a q')
  have "traced J (set (as @ [a])) q" using steps_snoc.IH by (rule traced_mono) auto
  then show ?case by (rule traced_step [OF inv_reachable [OF steps_snoc.hyps(1)] _ _ steps_snoc.hyps(2)]) simp
qed

section \<open>Calls and responses\<close>

lemma unat_call_id: "k < 2 ^ 64 - 1 \<Longrightarrow> unat (call_id k) = Suc k"
  by (simp add: call_id_def unsigned_of_nat take_bit_nat_eq_self del: of_nat_Suc)

lemma call_id_inj: "call_id j = call_id k \<Longrightarrow> j < 2 ^ 64 - 1 \<Longrightarrow> k < 2 ^ 64 - 1 \<Longrightarrow> j = k"
  by (metis unat_call_id old.nat.inject)

lemma inv_id: "proc_inv p \<Longrightarrow> k < length (calls p) \<Longrightarrow> mc_ID (calls p ! k) = call_id k"
  by (simp add: proc_inv_def ids_ok_def)

text \<open>
  C28. Responses go to the calls that asked for them. In every run of a proxy process, with any number of
  concurrent calls and whatever the subprocess writes, a call that returns a result, or an error that the
  subprocess reported, returns that of a line which the reader read and which carries the number of this
  very call; the one exception is the empty result, which a call also returns when the output of the
  subprocess ended. Below \<open>2\<^sup>64 - 1\<close> calls no two of them have the same number, and none has the number 0,
  which marks notifications.
\<close>

theorem call_gets_its_response:
  assumes "proc_steps J new_process as p" and "call_result p k = Some r"
  shows "explained J (set as) (mc_ID (calls p ! k)) r
    \<and> (length (calls p) < 2 ^ 64 - 1 \<longrightarrow> mc_ID (calls p ! k) \<noteq> 0 \<and>
        (\<forall>j<length (calls p). mc_ID (calls p ! j) = mc_ID (calls p ! k) \<longrightarrow> j = k))"
proof -
  have k: "k < length (calls p)" "mc_Phase (calls p ! k) = Returned r"
    using assms(2) by (auto simp: call_result_def split: if_splits call_phase.splits)
  have inv: "proc_inv p" by (rule inv_reachable [OF assms(1)])
  have "mc_ID (calls p ! k) \<noteq> 0" if "length (calls p) < 2 ^ 64 - 1"
    using inv_id [OF inv k(1)] that k(1) unat_call_id [of k] by auto
  then show ?thesis
    using traced_result [OF traced_reachable [OF assms(1)] k(1)] k inv_id [OF inv] call_id_inj
    by (auto simp: phase_result_def)
qed

text \<open>
  C29. The proxy process never panics. In every run, no step of a goroutine sends on a closed channel or
  closes a channel twice: the reader is the only goroutine that closes the channels of calls, it closes
  each one once, and it sends to none afterwards.
\<close>

theorem process_never_panics:
  assumes "proc_steps J new_process as p"
  shows "proc_step J a p \<noteq> Panics"
proof -
  have inv: "proc_inv p" by (rule inv_reachable [OF assms])
  have r: "read_fails p \<noteq> Panics"
  proof (cases "reader p = Reading")
    case True
    show ?thesis by (rule read_fails_goes [OF inv True]) simp
  qed (simp add: read_fails_def)
  have d: "deliver p \<noteq> Panics" "close_done p \<noteq> Panics"
    using inv by (auto simp: deliver_def close_done_def proc_inv_def reader_ok_def split: reader_phase.splits)
  show ?thesis
    by (cases a) (auto simp: r d call_number_def Let_def call_register_def call_write_def call_canceled_def call_exited_def call_receive_def
        call_leave_def read_line_def close_stdin_def wait_process_def finish_close_def
        split: option.splits prod.splits list.splits call_phase.splits closer_phase.splits)
qed

section \<open>The end of the subprocess\<close>

definition call_rank :: "Process \<Rightarrow> nat \<Rightarrow> nat" where
  "call_rank p k = (case mc_Phase (calls p ! k) of Numbered \<Rightarrow> 4 | Registered \<Rightarrow> 3 | Selecting \<Rightarrow> 2 | Leaving _ \<Rightarrow> 1 | Returned _ \<Rightarrow> 0)"

text \<open>The steps of the goroutine of call \<open>k\<close>.\<close>

fun own_action :: "nat \<Rightarrow> mcp_action \<Rightarrow> bool" where
  "own_action k (Register j) = (j = k)"
| "own_action k (Write j _) = (j = k)"
| "own_action k (CtxDone j _) = (j = k)"
| "own_action k (ProcDone j) = (j = k)"
| "own_action k (Receive j) = (j = k)"
| "own_action k (Unregister j) = (j = k)"
| "own_action k _ = False"

lemma writeRequest_calls: "writeRequest J req wr p = Some (e, q) \<Longrightarrow> calls q = calls p \<and> done_closed q = done_closed p \<and> reader q = reader p \<and>
    chans q = chans p \<and> pending q = pending p \<and> closer q = closer p"
  by (auto simp: writeRequest_def split: sum.splits prod.splits option.splits if_splits)

lemma rank_set_phase:
  "k < length (calls p) \<Longrightarrow> call_rank (set_phase j ph p) k =
     (if j = k then (case ph of Numbered \<Rightarrow> 4 | Registered \<Rightarrow> 3 | Selecting \<Rightarrow> 2 | Leaving _ \<Rightarrow> 1 | Returned _ \<Rightarrow> 0) else call_rank p k)"
  by (simp add: call_rank_def)

lemma rank_calls: "calls q = calls p \<Longrightarrow> call_rank q k = call_rank p k"
  by (simp add: call_rank_def)

text \<open>A step of anyone keeps the calls that there are, moves none of them back, and leaves a closed \<open>done\<close> closed.\<close>

lemma step_forward:
  assumes "proc_step J a p = Goes q" and "k < length (calls p)"
  shows "k < length (calls q) \<and> call_rank q k \<le> call_rank p k \<and> (done_closed p \<longrightarrow> done_closed q)"
proof (cases a)
  case (Write j wr)
  with assms show ?thesis
    by (auto simp: call_write_def rank_set_phase call_rank_def split: option.splits prod.splits if_splits dest!: writeRequest_calls)
next
  case (Notify m ps wr)
  with assms show ?thesis
    by (auto simp: notify_def call_rank_def split: option.splits prod.splits dest!: writeRequest_calls)
next
  case (Number m ps)
  with assms show ?thesis by (auto simp: call_number_def Let_def nth_append call_rank_def)
next
  case (Register j)
  with assms show ?thesis by (auto simp: call_register_def rank_set_phase call_rank_def split: if_splits)
next
  case (CtxDone j e)
  with assms show ?thesis by (auto simp: call_canceled_def selecting_def rank_set_phase call_rank_def split: if_splits)
next
  case (ProcDone j)
  with assms show ?thesis by (auto simp: call_exited_def selecting_def rank_set_phase call_rank_def split: if_splits)
next
  case (Receive j)
  with assms show ?thesis by (auto simp: call_receive_def selecting_def rank_set_phase call_rank_def split: if_splits list.splits)
next
  case (Unregister j)
  with assms show ?thesis by (auto simp: call_leave_def rank_set_phase call_rank_def split: if_splits call_phase.splits)
next
  case (ReadLine l)
  with assms show ?thesis by (auto simp: read_line_def call_rank_def split: if_splits option.splits)
next
  case Deliver
  with assms show ?thesis by (auto simp: deliver_def call_rank_def split: if_splits reader_phase.splits)
next
  case ReadFails
  with assms show ?thesis by (auto simp: read_fails_def call_rank_def split: if_splits option.splits)
next
  case CloseDone
  with assms show ?thesis by (auto simp: close_done_def call_rank_def split: if_splits)
next
  case CloseStdin
  with assms show ?thesis by (auto simp: close_stdin_def call_rank_def split: if_splits)
next
  case (Wait e)
  with assms show ?thesis by (auto simp: wait_process_def call_rank_def split: if_splits)
next
  case FinishClose
  with assms show ?thesis by (auto simp: finish_close_def call_rank_def split: if_splits closer_phase.splits)
qed

lemma own_progress:
  assumes "done_closed p" and "k < length (calls p)" and "0 < call_rank p k"
  shows "\<exists>a q. own_action k a \<and> proc_step J a p = Goes q \<and> call_rank q k < call_rank p k"
proof (cases "mc_Phase (calls p ! k)")
  case Numbered
  then show ?thesis using assms
    by (intro exI [of _ "Register k"]) (simp add: call_register_def rank_set_phase call_rank_def)
next
  case Registered
  obtain e r where "writeRequest J (call_request (calls p ! k)) (0, Some []) p = Some (Some e, r)"
    by (cases "mj_request J (call_request (calls p ! k))") (auto simp: writeRequest_def)
  then show ?thesis using assms Registered writeRequest_calls [of J _ _ p "Some e" r]
    by (intro exI [of _ "Write k (0, Some [])"]) (simp add: call_write_def rank_set_phase call_rank_def)
next
  case Selecting
  then show ?thesis using assms
    by (intro exI [of _ "ProcDone k"]) (simp add: call_exited_def selecting_def rank_set_phase call_rank_def)
next
  case (Leaving r)
  then show ?thesis using assms
    by (intro exI [of _ "Unregister k"]) (simp add: call_leave_def rank_set_phase call_rank_def)
qed (use assms in \<open>simp add: call_rank_def\<close>)

lemma call_result_rank: "k < length (calls p) \<Longrightarrow> call_result p k \<noteq> None \<longleftrightarrow> call_rank p k = 0"
  by (auto simp: call_result_def call_rank_def split: call_phase.splits)

text \<open>
  C30. No call outlives the subprocess. Once the reader has noticed the end of the subprocess and closed
  \<open>done\<close>, every call that is still on its way, whether it has just got its number or waits for a
  response, can return by at most four steps of its own goroutine, without any help; and no step of
  another goroutine moves it back or takes the signal away.
\<close>

theorem calls_end_after_exit:
  assumes "done_closed p" and "k < length (calls p)"
  shows "(\<exists>sched q. length sched \<le> 4 \<and> (\<forall>a\<in>set sched. own_action k a) \<and> run_proc J sched p = Some q \<and> call_result q k \<noteq> None)
    \<and> (\<forall>a q. proc_step J a p = Goes q \<longrightarrow> done_closed q \<and> k < length (calls q) \<and> call_rank q k \<le> call_rank p k)"
proof
  have "\<exists>sched q. length sched \<le> call_rank p k \<and> (\<forall>a\<in>set sched. own_action k a) \<and> run_proc J sched p = Some q \<and> call_result q k \<noteq> None"
    using assms
  proof (induction "call_rank p k" arbitrary: p rule: less_induct)
    case less
    show ?case
    proof (cases "call_rank p k = 0")
      case True
      then show ?thesis using less.prems by (intro exI [of _ "[]"]) (use call_result_rank in simp)
    next
      case False
      then obtain a q where a: "own_action k a" "proc_step J a p = Goes q" "call_rank q k < call_rank p k"
        using own_progress [OF less.prems] by blast
      from step_forward [OF a(2) less.prems(2)] less.prems(1) have "done_closed q" "k < length (calls q)" by auto
      from less.hyps [OF a(3) this] obtain sched q' where
        "length sched \<le> call_rank q k" "\<forall>b\<in>set sched. own_action k b" "run_proc J sched q = Some q'" "call_result q' k \<noteq> None" by blast
      then show ?thesis using a by (intro exI [of _ "a # sched"]) auto
    qed
  qed
  moreover have "call_rank p k \<le> 4" by (simp add: call_rank_def split: call_phase.splits)
  ultimately show "\<exists>sched q. length sched \<le> 4 \<and> (\<forall>a\<in>set sched. own_action k a) \<and> run_proc J sched p = Some q \<and> call_result q k \<noteq> None"
    by (meson le_trans)
qed (use step_forward assms in blast)

end
