(* ===== verification/ProxyFacts.thy ===== *)
theory ProxyFacts
  imports McpProxy GrpcFacts
begin

text \<open>
  What the MCP proxy does when its subprocess misbehaves or ends, how discovery fares then, and how the
  tools of a proxy come to the agent card and get their tasks; with examples of runs.
\<close>

section \<open>Runs\<close>

lemma run_proc_append: "run_proc J (as @ bs) p = (case run_proc J as p of None \<Rightarrow> None | Some q \<Rightarrow> run_proc J bs q)"
  by (induction as arbitrary: p) (auto split: step_result.splits)

lemma run_proc_steps: "run_proc J as p = Some q \<Longrightarrow> proc_steps J p as q"
proof (induction as arbitrary: q rule: rev_induct)
  case Nil
  then show ?case by (simp add: steps_refl)
next
  case (snoc a as)
  then show ?case by (auto simp: run_proc_append split: option.splits step_result.splits intro: steps_snoc)
qed

lemma proc_steps_run: "proc_steps J p as q \<Longrightarrow> run_proc J as p = Some q"
  by (induction rule: proc_steps.induct) (auto simp: run_proc_append)

lemma proc_steps_trans: "proc_steps J p as q \<Longrightarrow> proc_steps J q bs r \<Longrightarrow> proc_steps J p (as @ bs) r"
  by (auto dest!: proc_steps_run intro!: run_proc_steps simp: run_proc_append)

section \<open>A reader that is stuck\<close>

text \<open>
  The reader is about to send to call \<open>ch\<close>, whose channel is full and which has returned. \<open>n\<close> counts the
  calls of the time when that happened.
\<close>

definition wedged :: "nat \<Rightarrow> nat \<Rightarrow> mcp_response \<Rightarrow> Process \<Rightarrow> bool" where
  "wedged n ch resp p \<longleftrightarrow> reader p = Sending ch resp \<and> ch < n \<and> n \<le> length (calls p) \<and> length (chans p) = length (calls p) \<and>
     ch_Buffer (chans p ! ch) \<noteq> [] \<and> \<not> ch_Closed (chans p ! ch) \<and> call_rank p ch = 0 \<and> \<not> done_closed p \<and>
     (\<forall>k. n \<le> k \<and> k < length (calls p) \<longrightarrow> chans p ! k = \<lparr>ch_Buffer = [], ch_Closed = False\<rparr> \<and>
        (\<forall>x. phase_result (mc_Phase (calls p ! k)) \<noteq> Some (Inr x)))"

lemma rank_zero: "call_rank p k = 0 \<longleftrightarrow> (\<exists>r. mc_Phase (calls p ! k) = Returned r)"
  by (auto simp: call_rank_def split: call_phase.splits)

lemma wedged_phase:
  assumes "wedged n ch resp p" and "j < length (calls p)" and "call_rank p j \<noteq> 0" and "\<And>x. phase_result ph \<noteq> Some (Inr x)"
  shows "wedged n ch resp (set_phase j ph p)"
proof -
  have "j \<noteq> ch" using assms(1,3) by (auto simp: wedged_def)
  then show ?thesis using assms by (auto simp: wedged_def rank_set_phase)
qed

lemma wedged_frame [simp]:
  "wedged n ch resp (p\<lparr>stdin := b\<rparr>) = wedged n ch resp p" "wedged n ch resp (p\<lparr>stdinClosed := c\<rparr>) = wedged n ch resp p"
  "wedged n ch resp (p\<lparr>closer := cp\<rparr>) = wedged n ch resp p" "wedged n ch resp (p\<lparr>pending := al\<rparr>) = wedged n ch resp p"
  by (simp_all add: wedged_def call_rank_def)

lemma wedged_writeRequest: "wedged n ch resp p \<Longrightarrow> writeRequest J req wr p = Some (e, q) \<Longrightarrow> wedged n ch resp q"
  by (auto simp: writeRequest_def split: sum.splits prod.splits option.splits if_splits)

lemma call_writeD:
  "call_write J k wr p = Goes q \<Longrightarrow> k < length (calls p) \<and> mc_Phase (calls p ! k) = Registered \<and>
   (\<exists>e r. writeRequest J (call_request (calls p ! k)) wr p = Some (e, r) \<and>
      q = set_phase k (case e of None \<Rightarrow> Selecting | Some x \<Rightarrow> Leaving (Inl x)) r)"
  by (cases "writeRequest J (call_request (calls p ! k)) wr p") (auto simp: call_write_def split: if_splits option.splits)

lemma wedged_step:
  assumes w: "wedged n ch resp p" and "proc_step J a p = Goes q"
  shows "wedged n ch resp q"
proof (cases a)
  case (Number m ps)
  with assms show ?thesis
    by (auto simp: call_number_def Let_def wedged_def nth_append less_Suc_eq call_rank_def phase_result_def)
next
  case (Register j)
  with assms show ?thesis
    by (auto simp: call_register_def call_rank_def phase_result_def intro!: wedged_phase split: if_splits)
next
  case (Write j wr)
  with assms(2) have "call_write J j wr p = Goes q" by simp
  from call_writeD [OF this] obtain e r where j: "j < length (calls p)" "mc_Phase (calls p ! j) = Registered"
    and wr: "writeRequest J (call_request (calls p ! j)) wr p = Some (e, r)"
    and q: "q = set_phase j (case e of None \<Rightarrow> Selecting | Some x \<Rightarrow> Leaving (Inl x)) r" by blast
  from j writeRequest_calls [OF wr] have "j < length (calls r)" "call_rank r j \<noteq> 0" by (simp_all add: call_rank_def)
  then show ?thesis unfolding q
    by (intro wedged_phase [OF wedged_writeRequest [OF w wr]]) (auto simp: phase_result_def split: option.splits)
next
  case (Notify m ps wr)
  with assms(2) obtain x where "writeRequest J \<lparr>mq_JSONRPC = ''2.0'', mq_ID = 0, mq_Method = m, mq_Params = ps\<rparr> wr p = Some (x, q)"
    by (auto simp: notify_def split: option.splits)
  then show ?thesis by (rule wedged_writeRequest [OF w])
next
  case (CtxDone j e)
  with assms show ?thesis
    by (auto simp: call_canceled_def selecting_def call_rank_def phase_result_def intro!: wedged_phase split: if_splits)
next
  case (ProcDone j)
  with assms show ?thesis by (auto simp: call_exited_def wedged_def split: if_splits)
next
  case (Receive j)
  with assms have j: "j < length (calls p)" "mc_Phase (calls p ! j) = Selecting"
    by (auto simp: call_receive_def selecting_def split: if_splits)
  then have "j < n" "j \<noteq> ch"
    using w assms(2) Receive by (auto simp: wedged_def call_receive_def rank_zero not_less split: if_splits list.splits)
  with j Receive assms show ?thesis
    by (auto simp: call_receive_def wedged_def rank_zero split: if_splits list.splits)
next
  case (Unregister j)
  with assms obtain r where j: "j < length (calls p)" "mc_Phase (calls p ! j) = Leaving r"
    and q: "q = set_phase j (Returned r) (p\<lparr>pending := AList.delete (mc_ID (calls p ! j)) (pending p)\<rparr>)"
    by (auto simp: call_leave_def split: if_splits call_phase.splits)
  then have "j \<noteq> ch" using w by (auto simp: wedged_def rank_zero)
  then show ?thesis using w j by (auto simp: q wedged_def rank_zero phase_result_def)
qed (use assms in \<open>auto simp: wedged_def read_line_def deliver_def read_fails_def close_done_def close_stdin_def wait_process_def finish_close_def
      call_rank_def split: if_splits closer_phase.splits\<close>)

lemma wedged_steps: "proc_steps J p as q \<Longrightarrow> wedged n ch resp p \<Longrightarrow> wedged n ch resp q"
  by (induction rule: proc_steps.induct) (auto intro: wedged_step)

text \<open>\<open>Close\<close> returns only after \<open>done\<close> is closed.\<close>

lemma step_closer:
  assumes "proc_step J a p = Goes q" and "closer q = CloseReturned e"
  shows "closer p = CloseReturned e \<or> done_closed p"
proof (cases a)
  case (Write j wr)
  with assms(1) have "call_write J j wr p = Goes q" by simp
  from call_writeD [OF this] assms(2) show ?thesis using writeRequest_calls by fastforce
next
  case (Notify m ps wr)
  with assms obtain x where "writeRequest J \<lparr>mq_JSONRPC = ''2.0'', mq_ID = 0, mq_Method = m, mq_Params = ps\<rparr> wr p = Some (x, q)"
    by (auto simp: notify_def split: option.splits)
  with assms(2) show ?thesis by (auto dest: writeRequest_calls)
qed (use assms in \<open>auto simp: call_number_def Let_def call_register_def call_canceled_def call_exited_def call_receive_def
        call_leave_def read_line_def deliver_def read_fails_def close_done_def close_stdin_def wait_process_def finish_close_def
        split: option.splits list.splits call_phase.splits closer_phase.splits reader_phase.splits if_splits\<close>)

lemma close_waits:
  assumes "proc_steps J p as q" and "\<forall>e. closer p \<noteq> CloseReturned e" and "wedged n ch resp p"
  shows "\<forall>e. closer q \<noteq> CloseReturned e"
  using assms
proof (induction rule: proc_steps.induct)
  case (steps_snoc as q a q')
  have "\<not> done_closed q" using wedged_steps [OF steps_snoc.hyps(1) steps_snoc.prems(2)] by (simp add: wedged_def)
  then show ?case using steps_snoc step_closer by blast
qed simp

text \<open>
  A subprocess that answers a call too often stops the proxy for good. When the reader has a response
  for a call that has returned in the meantime and whose channel still holds an earlier one, it waits for
  a receive that will never come: whatever happens from then on, the reader stays where it is, a call
  that starts later never returns a result, and \<open>Close\<close> does not return.
\<close>

theorem surplus_answer_blocks_proxy:
  assumes "proc_steps J new_process as p" and "wedged (length (calls p)) ch resp p" and "closer p = NotClosing"
    and "proc_steps J p bs q"
  shows "reader q = Sending ch resp \<and> \<not> done_closed q \<and> (\<forall>e. closer q \<noteq> CloseReturned e)
    \<and> (\<forall>k x. length (calls p) \<le> k \<longrightarrow> call_result q k \<noteq> Some (Inr x))"
proof -
  have "wedged (length (calls p)) ch resp q" by (rule wedged_steps [OF assms(4,2)])
  then show ?thesis using close_waits [OF assms(4) _ assms(2)] assms(3)
    by (auto simp: wedged_def call_result_def phase_result_def split: if_splits call_phase.splits)
qed

section \<open>Calls that are answered\<close>

text \<open>A call that no other goroutine disturbs: it registers and writes, and the reader finds the given line.\<close>

definition answered :: "nat \<Rightarrow> bytes \<Rightarrow> mcp_action list" where
  "answered k line = [Register k, Write k (0, None), ReadLine line, Deliver, Receive k, Unregister k]"

definition ready :: "Process \<Rightarrow> bool" where
  "ready p \<longleftrightarrow> length (chans p) = length (calls p) \<and> reader p = Reading \<and> \<not> stdinClosed p"

lemma call_answered:
  assumes "ready p"
    and "mj_request J \<lparr>mq_JSONRPC = ''2.0'', mq_ID = nextID p + 1, mq_Method = m, mq_Params = ps\<rparr> = Inr body"
    and "mj_response J line = Some resp" and "mr_ID resp = nextID p + 1" and "nextID p + 1 \<noteq> 0"
  shows "\<exists>q. Call J (answered (length (calls p)) line) m ps p = Some (response_result resp, q)
    \<and> ready q \<and> nextID q = nextID p + 1 \<and> length (calls q) = Suc (length (calls p)) \<and> stdin q = stdin p @ body @ [10]"
  using assms
  by (simp add: Call_def answered_def ready_def call_number_def Let_def call_register_def call_write_def writeRequest_def call_request_def
      read_line_def update_conv' deliver_def call_receive_def selecting_def call_leave_def call_result_def nth_append set_phase_def)

lemma new_ready: "ready new_process"
  by (simp add: ready_def new_process_def)

definition mcp_req :: "64 word \<Rightarrow> string \<Rightarrow> json \<Rightarrow> mcp_request" where
  "mcp_req i m ps = \<lparr>mq_JSONRPC = ''2.0'', mq_ID = i, mq_Method = m, mq_Params = ps\<rparr>"

definition answers :: "mcp_json \<Rightarrow> bytes \<Rightarrow> 64 word \<Rightarrow> string \<Rightarrow> bool" where
  "answers J line i result \<longleftrightarrow> (\<exists>v. mj_response J line = Some \<lparr>mr_JSONRPC = v, mr_ID = i, mr_Result = result, mr_Error = None\<rparr>)"

lemma call_answered_result:
  assumes "ready p" and "mj_request J (mcp_req (nextID p + 1) m ps) = Inr body" and "answers J line (nextID p + 1) result" and "nextID p + 1 \<noteq> 0"
  obtains q where "Call J (answered (length (calls p)) line) m ps p = Some (Inr result, q)" "ready q" "nextID q = nextID p + 1"
    "length (calls q) = Suc (length (calls p))" "stdin q = stdin p @ body @ [10]"
proof -
  obtain v where r: "mj_response J line = Some \<lparr>mr_JSONRPC = v, mr_ID = nextID p + 1, mr_Result = result, mr_Error = None\<rparr>" (is "_ = Some ?r")
    using assms(3) by (auto simp: answers_def)
  from call_answered [OF assms(1) assms(2) [unfolded mcp_req_def] r _ assms(4)] that show ?thesis
    by (auto simp: response_result_def)
qed

text \<open>
  A proxy starts. When the subprocess starts and answers the first request with the result of an
  initialization and the second one with a list of tools, the proxy comes up with exactly these tools;
  the subprocess has then read, line by line, the request \<open>initialize\<close> with the number 1, the notification
  that initialization is over and the request \<open>tools/list\<close> with the number 2.
\<close>

theorem proxy_starts:
  assumes "mj_request J (mcp_req 1 ''initialize'' init_params) = Inr b1" and "answers J l1 1 res1" and "tj_initialize D res1 = Inr ini"
    and "mj_request J (mcp_req 0 ''notifications/initialized'' JNull) = Inr b2"
    and "mj_request J (mcp_req 2 ''tools/list'' JNull) = Inr b3" and "answers J l2 2 res2" and "tj_tools D res2 = Inr tools"
  shows "\<exists>q. proxy_New J D (NewProcess None None None) (answered 0 l1) (0, None) (answered 1 l2) [] =
      Some (Inr \<lparr>px_process = q, px_tools = tools\<rparr>, Some q) \<and> ready q \<and> stdin q = b1 @ [10] @ b2 @ [10] @ b3 @ [10]"
proof -
  obtain p1 where p1: "Call J (answered 0 l1) ''initialize'' init_params new_process = Some (Inr res1, p1)" "ready p1" "nextID p1 = 1"
      "length (calls p1) = 1" "stdin p1 = b1 @ [10]"
    using call_answered_result [OF new_ready, of J "''initialize''" init_params b1 l1 res1] assms(1,2) by (auto simp: new_process_def)
  define p2 where "p2 = p1\<lparr>stdin := stdin p1 @ b2 @ [10]\<rparr>"
  have n: "notify J ''notifications/initialized'' JNull (0, None) p1 = Some (None, p2)"
    using assms(4) p1(2) by (simp add: notify_def writeRequest_def mcp_req_def p2_def ready_def)
  have p2: "ready p2" "nextID p2 + 1 = 2" "length (calls p2) = 1" using p1 by (simp_all add: p2_def ready_def)
  obtain p3 where p3: "Call J (answered 1 l2) ''tools/list'' JNull p2 = Some (Inr res2, p3)" "ready p3" "stdin p3 = stdin p2 @ b3 @ [10]"
    using call_answered_result [OF p2(1), of J "''tools/list''" JNull b3 l2 res2] assms(5,6) p2(2,3) by auto
  have "DiscoverTools J D (answered 0 l1) (0, None) (answered 1 l2) new_process = Some (Inr tools, p3)"
    using p1(1) n p3(1) assms(3,7) by (simp add: DiscoverTools_def)
  then show ?thesis using p1(5) p3(2,3) by (simp add: proxy_New_def NewProcess_def p2_def)
qed

text \<open>
  The end of the subprocess can look like success. From every state that a proxy process can reach while
  its reader runs, when the output of the subprocess ends after a task's request has been written, the
  reader closes the channel of the call before it closes \<open>done\<close>; the call then receives the zero response,
  and the task is answered with an empty result and without an error, although the code means to report
  that the subprocess exited.
\<close>

theorem exit_looks_like_success:
  assumes "proc_steps J new_process as p" and "reader p = Reading" and "\<not> stdinClosed p"
    and "(if length arguments = 0 \<or> arguments = ''null'' then Inr (JObject []) else tj_any D arguments) = Inr args"
    and "mj_request J (mcp_req (nextID p + 1) ''tools/call'' (JObject [(''name'', JString tool), (''arguments'', args)])) = Inr body"
  shows "\<exists>q. HandleTask J D [Register (length (calls p)), Write (length (calls p)) (0, None), ReadFails, Receive (length (calls p)),
      Unregister (length (calls p))] tool arguments p = Some (Inr [], q) \<and> reader q = Exiting \<and> \<not> done_closed q"
proof -
  let ?k = "length (calls p)" and ?m = "''tools/call''" and ?ps = "JObject [(''name'', JString tool), (''arguments'', args)]"
  have len: "length (chans p) = ?k" and nd: "\<not> done_closed p" using inv_reachable [OF assms(1)] assms(2)
    by (auto simp: proc_inv_def chans_ok_def reader_ok_def)
  obtain p3 where p3: "run_proc J [Number ?m ?ps, Register ?k, Write ?k (0, None)] p = Some p3" "reader p3 = Reading" "\<not> done_closed p3"
      "length (calls p3) = Suc ?k" "mc_Phase (calls p3 ! ?k) = Selecting" "chans p3 ! ?k = \<lparr>ch_Buffer = [], ch_Closed = False\<rparr>"
      "map_of (pending p3) (nextID p + 1) = Some ?k"
    using assms(2,3,5) len nd
    by (simp add: call_number_def Let_def call_register_def call_write_def writeRequest_def call_request_def mcp_req_def update_conv'
        nth_append set_phase_def)
  have inv: "proc_inv p3"
    by (rule inv_reachable [OF proc_steps_trans [OF assms(1) run_proc_steps [OF p3(1)]]])
  obtain cs where f: "read_fails p3 = Goes (p3\<lparr>chans := cs, pending := [], reader := Exiting\<rparr>)"
    and cs: "\<And>j. j < length (chans p3) \<Longrightarrow>
      cs ! j = (if j \<in> set (map snd (pending p3)) then (chans p3 ! j)\<lparr>ch_Closed := True\<rparr> else chans p3 ! j)"
    using read_fails_goes [OF inv p3(2)] by blast
  have "?k \<in> set (map snd (pending p3))" using p3(7) by (force dest: map_of_SomeD)
  then have c: "cs ! ?k = \<lparr>ch_Buffer = [], ch_Closed = True\<rparr>"
    using cs [of ?k] p3(4,6) inv by (simp add: proc_inv_def chans_ok_def)
  obtain q where q: "run_proc J [ReadFails, Receive ?k, Unregister ?k] p3 = Some q" "reader q = Exiting" "\<not> done_closed q"
      "call_result q ?k = Some (Inr [])"
    using f c p3(3,4,5)
    by (simp add: call_receive_def selecting_def response_result_def zero_response_def call_leave_def call_result_def)
  have "run_proc J ([Number ?m ?ps, Register ?k, Write ?k (0, None)] @ [ReadFails, Receive ?k, Unregister ?k]) p = Some q"
    using p3(1) q(1) by (simp only: run_proc_append option.case)
  then have "Call J [Register ?k, Write ?k (0, None), ReadFails, Receive ?k, Unregister ?k] ?m ?ps p = Some (Inr [], q)"
    using q(4) by (simp add: Call_def)
  then show ?thesis using q(2,3) assms(4) by (auto simp: HandleTask_def)
qed

section \<open>Tools on the network\<close>

definition card_or_new :: "('l, 'f, 'w) Server \<Rightarrow> pb_AgentCard" where
  "card_or_new s = (case srv_card s of None \<Rightarrow> proxy_card | Some c \<Rightarrow> c)"

lemma register_skill_effect:
  "RegisterProxySkill L sk (s, d) = (s', d') \<Longrightarrow>
     card_or_new s' = (card_or_new s)\<lparr>card_Skills := card_Skills (card_or_new s) @ [sk]\<rparr> \<and> srv_card s' \<noteq> None
     \<and> srv_router s' = srv_router s \<and> background s' = background s \<and> inc_chans s' = inc_chans s
     \<and> anycastRouter s' = anycastRouter s"
  by (auto simp: RegisterProxySkill_def Let_def card_or_new_def split: option.splits)

lemma register_skills_effect:
  "fold (RegisterProxySkill L) sks (s, d) = (s', d') \<Longrightarrow>
     card_or_new s' = (card_or_new s)\<lparr>card_Skills := card_Skills (card_or_new s) @ sks\<rparr> \<and> (sks \<noteq> [] \<longrightarrow> srv_card s' \<noteq> None)
     \<and> srv_router s' = srv_router s \<and> background s' = background s \<and> inc_chans s' = inc_chans s
     \<and> anycastRouter s' = anycastRouter s"
proof (induction sks arbitrary: s d)
  case (Cons sk sks)
  obtain s1 d1 where s1: "RegisterProxySkill L sk (s, d) = (s1, d1)" by fastforce
  note e1 = register_skill_effect [OF s1]
  from Cons.prems s1 have f: "fold (RegisterProxySkill L) sks (s1, d1) = (s', d')" by simp
  show ?case
  proof (cases sks)
    case Nil
    with f e1 show ?thesis by auto
  next
    case (Cons sk' sks')
    with Cons.IH [OF f] e1 show ?thesis by auto
  qed
qed auto

text \<open>
  The tools of a proxy are offered and served. After the start of a proxy the agent card lists, behind
  the skills it had, one skill for every tool, in the order of the tools, with the tool's name as its
  identifier; and an incoming task for one of these names is taken out of the router's queue and handed to
  the proxy and not to the subscribers of incoming tasks.
\<close>

theorem tools_offered_and_served:
  assumes "wire_proxy L x s d = (s', d')" and "incomingCh (srv_router s) = evt # rest"
    and "pbt_TargetSkillId (inc_Task evt) \<in> mt_Name ` set (px_tools x)"
  shows "(\<exists>c. srv_card s' = Some c \<and> card_Skills c = card_Skills (card_or_new s) @ ToolsToSkills (px_tools x)
      \<and> map skill_Id (ToolsToSkills (px_tools x)) = map mt_Name (px_tools x))
    \<and> incomingCh (srv_router (forward_one s')) = rest
    \<and> background (forward_one s') = background s @ [BgProxyTask evt] \<and> inc_chans (forward_one s') = inc_chans s"
proof -
  obtain s1 d1 where f: "fold (RegisterProxySkill L) (ToolsToSkills (px_tools x)) (s, d) = (s1, d1)" by fastforce
  have s': "s' = s1\<lparr>mcpProxySkills := Some (mt_Name ` set (px_tools x))\<rparr>"
    using assms(1) f by (simp add: wire_proxy_def proxy_Skills_def proxy_Tools_def RegisterMCPProxyHandler_def)
  note e = register_skills_effect [OF f]
  have "ToolsToSkills (px_tools x) \<noteq> []" using assms(3) by (auto simp: ToolsToSkills_def)
  with e obtain c where c: "srv_card s1 = Some c" by blast
  have "map skill_Id (ToolsToSkills (px_tools x)) = map mt_Name (px_tools x)" by (simp add: ToolsToSkills_def)
  then show ?thesis
    using e c assms(2,3) by (auto simp: s' forward_one_def proxied_def card_or_new_def)
qed

section \<open>Examples\<close>

definition demo_mcp :: mcp_json where
  "demo_mcp = \<lparr>mj_request = (\<lambda>_. Inr []),
     mj_response = (\<lambda>line. case line of [i] \<Rightarrow> Some \<lparr>mr_JSONRPC = ''2.0'', mr_ID = ucast i, mr_Result = ''ok'', mr_Error = None\<rparr> | _ \<Rightarrow> None)\<rparr>"

definition demo_tool :: MCPTool where
  "demo_tool = \<lparr>mt_Name = ''s'', mt_Description = [], mt_InputSchema = []\<rparr>"

definition demo_tools_json :: tools_json where
  "demo_tools_json = \<lparr>tj_initialize = (\<lambda>_. Inr \<lparr>ir_ProtocolVersion = [], ir_ServerName = [], ir_ServerVersion = []\<rparr>),
     tj_tools = (\<lambda>_. Inr [demo_tool]), tj_any = (\<lambda>_. Inr JNull)\<rparr>"

lemmas run_simps = call_number_def Let_def call_register_def call_write_def writeRequest_def call_request_def read_line_def deliver_def
  call_receive_def selecting_def call_leave_def call_result_def call_canceled_def call_exited_def read_fails_def close_done_def
  set_phase_def new_process_def demo_mcp_def response_result_def zero_response_def

definition demo_run :: "Process option" where
  "demo_run = run_proc demo_mcp (Number ''m'' JNull # answered 0 [1]) new_process"

theorem call_gets_its_response_witness:
  "\<exists>p. demo_run = Some p \<and> call_result p 0 = Some (Inr ''ok'') \<and>
     explained demo_mcp (set (Number ''m'' JNull # answered 0 [1])) (mc_ID (calls p ! 0)) (Inr ''ok'')"
proof -
  obtain p where p: "demo_run = Some p" and r: "call_result p 0 = Some (Inr ''ok'')"
    by (simp add: demo_run_def answered_def run_simps)
  from call_gets_its_response [OF run_proc_steps [OF p [unfolded demo_run_def]] r] p r show ?thesis by blast
qed

theorem process_never_panics_witness:
  "\<exists>p. demo_run = Some p \<and> proc_step demo_mcp ReadFails p \<noteq> Panics"
proof -
  obtain p where p: "demo_run = Some p" by (simp add: demo_run_def answered_def run_simps)
  from process_never_panics [OF run_proc_steps [OF p [unfolded demo_run_def]], of ReadFails] p show ?thesis by blast
qed

definition demo_gone :: Process where
  "demo_gone = new_process\<lparr>calls := [\<lparr>mc_ID = 1, mc_Method = ''m'', mc_Params = JNull, mc_Phase = Numbered\<rparr>],
     chans := [\<lparr>ch_Buffer = [], ch_Closed = False\<rparr>], reader := Gone, done_closed := True\<rparr>"

theorem calls_end_after_exit_witness:
  "run_proc demo_mcp [Number ''m'' JNull, ReadFails, CloseDone] new_process = Some (demo_gone\<lparr>nextID := 1\<rparr>)
   \<and> (\<exists>sched q. length sched \<le> 4 \<and> (\<forall>a\<in>set sched. own_action 0 a) \<and> run_proc demo_mcp sched (demo_gone\<lparr>nextID := 1\<rparr>) = Some q
        \<and> call_result q 0 \<noteq> None)"
proof
  show "run_proc demo_mcp [Number ''m'' JNull, ReadFails, CloseDone] new_process = Some (demo_gone\<lparr>nextID := 1\<rparr>)"
    by (simp add: run_simps demo_gone_def)
  show "\<exists>sched q. length sched \<le> 4 \<and> (\<forall>a\<in>set sched. own_action 0 a) \<and> run_proc demo_mcp sched (demo_gone\<lparr>nextID := 1\<rparr>) = Some q
        \<and> call_result q 0 \<noteq> None"
    using calls_end_after_exit [of "demo_gone\<lparr>nextID := 1\<rparr>" 0 demo_mcp] by (simp add: demo_gone_def)
qed

definition demo_surplus :: "mcp_action list" where
  "demo_surplus = [Number ''m'' JNull, Register 0, Write 0 (0, None), ReadLine [1], Deliver, ReadLine [1], CtxDone 0 ''deadline exceeded'', Unregister 0]"

theorem surplus_answer_blocks_proxy_witness:
  "\<exists>p q. run_proc demo_mcp demo_surplus new_process = Some p
     \<and> run_proc demo_mcp [CloseStdin, Wait None] p = Some q \<and> \<not> done_closed q \<and> proc_step demo_mcp FinishClose q = Blocked"
proof -
  let ?r = "\<lparr>mr_JSONRPC = ''2.0'', mr_ID = 1, mr_Result = ''ok'', mr_Error = None\<rparr>"
  obtain p where p: "run_proc demo_mcp demo_surplus new_process = Some p" and w: "wedged (length (calls p)) 0 ?r p" and c: "closer p = NotClosing"
    by (simp add: demo_surplus_def run_simps wedged_def call_rank_def)
  obtain q where q: "run_proc demo_mcp [CloseStdin, Wait None] p = Some q" using c by (simp add: close_stdin_def wait_process_def)
  from surplus_answer_blocks_proxy [OF run_proc_steps [OF p] w c run_proc_steps [OF q]] have "\<not> done_closed q" by blast
  with p q show ?thesis by (auto simp: finish_close_def split: closer_phase.splits)
qed

theorem proxy_starts_witness:
  "\<exists>q. proxy_New demo_mcp demo_tools_json (NewProcess None None None) (answered 0 [1]) (0, None) (answered 1 [2]) [] =
      Some (Inr \<lparr>px_process = q, px_tools = [demo_tool]\<rparr>, Some q) \<and> stdin q = [10, 10, 10]"
  using proxy_starts [of demo_mcp "[]" "[1]" "''ok''" demo_tools_json _ "[]" "[]" "[2]" "''ok''" "[demo_tool]"]
  by (simp add: demo_mcp_def demo_tools_json_def answers_def) blast

theorem exit_looks_like_success_witness:
  "\<exists>q. HandleTask demo_mcp demo_tools_json [Register 0, Write 0 (0, None), ReadFails, Receive 0, Unregister 0] ''sk'' [] new_process = Some (Inr [], q)"
  using exit_looks_like_success [OF steps_refl, of "[]" demo_tools_json "JObject []" demo_mcp "''sk''" "[]"]
  by (simp add: new_process_def demo_mcp_def) blast

theorem tools_offered_and_served_witness:
  "background (forward_one (fst (wire_proxy demo_card_libs \<lparr>px_process = new_process, px_tools = [demo_tool]\<rparr>
     (demo_skill_server\<lparr>srv_router := (srv_router demo_skill_server)\<lparr>incomingCh := [demo_proxy_event]\<rparr>\<rparr>) mem_empty)))
     = background demo_skill_server @ [BgProxyTask demo_proxy_event]"
proof -
  let ?s = "demo_skill_server\<lparr>srv_router := (srv_router demo_skill_server)\<lparr>incomingCh := [demo_proxy_event]\<rparr>\<rparr>"
  let ?x = "\<lparr>px_process = new_process, px_tools = [demo_tool]\<rparr>"
  obtain s' d' where w: "wire_proxy demo_card_libs ?x ?s mem_empty = (s', d')" by fastforce
  from tools_offered_and_served [OF w, of demo_proxy_event "[]"] w show ?thesis
    by (simp add: demo_tool_def demo_proxy_event_def)
qed

end
