(* ===== verification/Mcp.thy ===== *)
theory Mcp
  imports GrpcFacts
begin

text \<open>
  The MCP server of \<^verbatim>\<open>internal/mcp\<close>, by which an AI tool controls the node: the tools with their input
  schemas, their handlers and the helpers (\<^verbatim>\<open>tools.go\<close>), and their registration (\<^verbatim>\<open>server.go\<close>).

  The MCP server has pointers to the same host, engine, router, anycast router and HTTP bridge as the gRPC
  server, so its handlers work on the same state \<open>Server\<close>. The result of a handler is a text, the JSON
  rendering of a value, or an error; with it comes the label pair under which the call is counted in the
  metrics. The MCP protocol itself, over standard input and output or HTTP, is the library's.
\<close>

section \<open>Tools\<close>

record mcp_tool =
  tool_Name :: string
  tool_Properties :: "(string \<times> string) list"
  tool_Required :: "string list"

definition toolGetNodeInfo :: mcp_tool where
  "toolGetNodeInfo = \<lparr>tool_Name = ''get_node_info'', tool_Properties = [], tool_Required = []\<rparr>"

definition toolListConnectedPeers :: mcp_tool where
  "toolListConnectedPeers = \<lparr>tool_Name = ''list_connected_peers'', tool_Properties = [], tool_Required = []\<rparr>"

definition toolGetAgentCard :: mcp_tool where
  "toolGetAgentCard = \<lparr>tool_Name = ''get_agent_card'', tool_Properties = [(''peer_id'', ''string'')], tool_Required = []\<rparr>"

definition toolDiscoverAgents :: mcp_tool where
  "toolDiscoverAgents = \<lparr>tool_Name = ''discover_agents'', tool_Properties = [(''skill'', ''string'')], tool_Required = [''skill'']\<rparr>"

definition toolSendTask :: mcp_tool where
  "toolSendTask = \<lparr>tool_Name = ''send_task'',
     tool_Properties = [(''target'', ''string''), (''message'', ''string''), (''by_skill'', ''boolean'')],
     tool_Required = [''target'', ''message'']\<rparr>"

definition toolSendTaskBySkill :: mcp_tool where
  "toolSendTaskBySkill = \<lparr>tool_Name = ''send_task_by_skill'', tool_Properties = [(''skill'', ''string''), (''message'', ''string'')],
     tool_Required = [''skill'', ''message'']\<rparr>"

definition toolGetTaskStatus :: mcp_tool where
  "toolGetTaskStatus = \<lparr>tool_Name = ''get_task_status'', tool_Properties = [(''task_id'', ''string'')], tool_Required = [''task_id'']\<rparr>"

section \<open>Results\<close>

datatype tool_error =
    NoLocalCard
  | BadLocalCard
  | InvalidPeerId string
  | NoCardForPeer string
  | BadPeerCard
  | ParameterRequired "string list"
  | DiscoveryUnavailable
  | DiscoveryFailed anycast_error
  | TaskNotFoundError engine_error
  | SendFailed router_error
  | AnycastUnavailable
  | NoAgentsFound string anycast_error
  | BridgeUnavailable
  | BridgeFailed bridge_error
  | InternalError string

datatype tool_result = ToolText string | ToolError tool_error

type_synonym counted = "tool_result \<times> (string \<times> string)"

text \<open>\<open>ml_MarshalIndent\<close> is \<open>json.MarshalIndent\<close>, \<open>ml_Addrs\<close> reads the peer store, \<open>ml_status_name\<close> is the generated
  \<open>String\<close> of the wire status.\<close>

record 'w mcp_lib =
  ml_MarshalIndent :: "json \<Rightarrow> string + string"
  ml_Addrs :: "peer_id \<Rightarrow> 'w \<Rightarrow> string list"
  ml_status_name :: "pb_TaskStatus \<Rightarrow> string"

definition marshalToolResult :: "'w mcp_lib \<Rightarrow> json \<Rightarrow> tool_result" where
  "marshalToolResult M v = (case ml_MarshalIndent M v of Inl err \<Rightarrow> ToolError (InternalError err) | Inr txt \<Rightarrow> ToolText txt)"

definition parseArgs :: "json \<Rightarrow> (string \<rightharpoonup> json)" where
  "parseArgs arguments = (case arguments of JObject m \<Rightarrow> map_of (rev m) | _ \<Rightarrow> Map.empty)"

definition stringArg :: "(string \<rightharpoonup> json) \<Rightarrow> string \<Rightarrow> string" where
  "stringArg args key = (case args key of Some (JString s) \<Rightarrow> s | _ \<Rightarrow> [])"

definition boolArg :: "(string \<rightharpoonup> json) \<Rightarrow> string \<Rightarrow> bool" where
  "boolArg args key = (case args key of Some (JBool b) \<Rightarrow> b | _ \<Rightarrow> False)"

fun decimal :: "nat \<Rightarrow> string" where
  "decimal n = (if n < 10 then [char_of (48 + n)] else decimal (n div 10) @ [char_of (48 + n mod 10)])"

declare decimal.simps [simp del]

text \<open>A slice of strings as JSON; a nil slice, which is what an absent repeated field decodes to, is \<open>null\<close>.\<close>

definition json_strings :: "string list \<Rightarrow> json" where
  "json_strings xs = JArray (map JString xs)"

definition json_nil_strings :: "string list \<Rightarrow> json" where
  "json_nil_strings xs = (if xs = [] then JNull else json_strings xs)"

definition agentCardToMap :: "pb_AgentCard \<Rightarrow> json" where
  "agentCardToMap c =
     JObject
       ([(''name'', JString (card_Name c)), (''description'', JString (card_Description c)), (''version'', JString (card_Version c)),
         (''protocol_version'', JString (ProtocolVersion c)),
         (''skills'', JArray (map (\<lambda>sk. JObject [(''id'', JString (skill_Id sk)), (''description'', JString (skill_Description sk))]) (card_Skills c)))]
        @ (case P2PExtension c of
             None \<Rightarrow> []
           | Some p2p \<Rightarrow>
               [(''peer_id'', JString (ext_PeerId p2p)), (''did_key'', JString (DidKey p2p)),
                (''supported_transports'', json_nil_strings (SupportedTransports p2p)),
                (''relay_addresses'', json_nil_strings (RelayAddresses p2p))]))"

section \<open>Handlers that read\<close>

definition handleGetNodeInfo :: "'w mcp_lib \<Rightarrow> ('db, 'l, 'f, 'w, 'pub) server_libs \<Rightarrow> 'w \<Rightarrow> counted" where
  "handleGetNodeInfo M L w =
     (marshalToolResult M (JObject
        [(''peer_id'', JString (sl_self L)),
         (''did_key'', JString (case PeerIDToDIDKey (sl_did L) (sl_self L) of Inl _ \<Rightarrow> [] | Inr didKey \<Rightarrow> didKey)),
         (''listen_addresses'', json_strings (sl_Addrs L w)),
         (''connected_peers'', JNumber (decimal (length (sl_ConnectedPeers L w))))]),
      (''get_node_info'', ''ok''))"

definition handleListConnectedPeers :: "'w mcp_lib \<Rightarrow> ('db, 'l, 'f, 'w, 'pub) server_libs \<Rightarrow> 'w \<Rightarrow> counted" where
  "handleListConnectedPeers M L w =
     (let peerList = map (\<lambda>pid. JObject [(''peer_id'', JString pid), (''addresses'', json_strings (ml_Addrs M pid w))]) (sl_ConnectedPeers L w)
      in (marshalToolResult M (JObject [(''count'', JNumber (decimal (length peerList))), (''peers'', JArray peerList)]),
          (''list_connected_peers'', ''ok'')))"

definition handleGetAgentCard ::
  "'w mcp_lib \<Rightarrow> ('db, 'l, 'f, 'w, 'pub) server_libs \<Rightarrow> json \<Rightarrow> ('l, 'f, 'w) Server \<Rightarrow> counted" where
  "handleGetAgentCard M L req s =
     (let peerIDStr = stringArg (parseArgs req) ''peer_id''; tool = ''get_agent_card'' in
      if peerIDStr = [] \<or> peerIDStr = ''self'' then
        (case GetLocalCardBytes s of
           None \<Rightarrow> (ToolError NoLocalCard, (tool, ''error''))
         | Some cardBytes \<Rightarrow>
             (case pb_UnmarshalCard (lib_pb (sl_router L)) cardBytes of
                None \<Rightarrow> (ToolError BadLocalCard, (tool, ''error''))
              | Some c \<Rightarrow> (marshalToolResult M (agentCardToMap c), (tool, ''ok''))))
      else
        (case sl_peer_Decode L peerIDStr of
           None \<Rightarrow> (ToolError (InvalidPeerId peerIDStr), (tool, ''error''))
         | Some pid \<Rightarrow>
             (case host_GetPeerCard pid (srv_host s) of
                None \<Rightarrow> (ToolError (NoCardForPeer peerIDStr), (tool, ''error''))
              | Some cardBytes \<Rightarrow>
                  (case pb_UnmarshalCard (lib_pb (sl_router L)) cardBytes of
                     None \<Rightarrow> (ToolError BadPeerCard, (tool, ''error''))
                   | Some c \<Rightarrow> (marshalToolResult M (agentCardToMap c), (tool, ''ok''))))))"

definition handleGetTaskStatus :: "'w mcp_lib \<Rightarrow> json \<Rightarrow> ('l, 'f, 'w) Server \<Rightarrow> counted" where
  "handleGetTaskStatus M req s =
     (let taskID = stringArg (parseArgs req) ''task_id''; tool = ''get_task_status'' in
      if taskID = [] then (ToolError (ParameterRequired [''task_id'']), (tool, ''error''))
      else case GetTask taskID (engine (srv_router s)) of
        Inl err \<Rightarrow> (ToolError (TaskNotFoundError err), (tool, ''error''))
      | Inr task \<Rightarrow>
          (marshalToolResult M (JObject [(''task_id'', JString (task_ID task)), (''status'', JString (status_String (Status task)))]),
           (tool, ''ok'')))"

definition handleDiscoverAgents ::
  "'w mcp_lib \<Rightarrow> server_inputs \<Rightarrow> json \<Rightarrow> ('l, 'f, 'w) Server \<Rightarrow> 'w \<Rightarrow> counted \<times> ('l, 'f, 'w) Server \<times> 'w" where
  "handleDiscoverAgents M i req s w =
     (let skill = stringArg (parseArgs req) ''skill''; tool = ''discover_agents'' in
      if skill = [] then ((ToolError (ParameterRequired [''skill'']), (tool, ''error'')), s, w)
      else case anycastRouter s of
        None \<Rightarrow> ((ToolError DiscoveryUnavailable, (tool, ''error'')), s, w)
      | Some ar \<Rightarrow>
          (case anycast_Discover (si_now i) skill ar w of
             (Inl err, ar', w') \<Rightarrow> ((ToolError (DiscoveryFailed err), (tool, ''error'')), s\<lparr>anycastRouter := Some ar'\<rparr>, w')
           | (Inr eps, ar', w') \<Rightarrow>
               (let agents = map (\<lambda>ep. JObject
                      [(''peer_id'', JString (ep_PeerID ep)), (''agent_name'', JString (AgentName ep)),
                       (''skills'', JArray (map (\<lambda>sk. JObject [(''skill_id'', JString (SkillID sk)), (''description'', JString (si_Description sk))])
                          (ep_Skills ep)))]) eps
                in ((marshalToolResult M (JObject [(''skill'', JString skill), (''agent_count'', JNumber (decimal (length agents))), (''agents'', JArray agents)]),
                     (tool, ''ok'')), s\<lparr>anycastRouter := Some ar'\<rparr>, w'))))"

section \<open>Handlers that send\<close>

definition sendByPeerID ::
  "'w mcp_lib \<Rightarrow> ('db, 'l, 'f, 'w, 'pub) server_libs \<Rightarrow> server_inputs \<Rightarrow> string \<Rightarrow> pb_Message \<Rightarrow> ('l, 'f, 'w) Server \<Rightarrow> 'db \<Rightarrow> 'w \<Rightarrow>
   counted \<times> ('l, 'f, 'w) Server \<times> 'db \<times> 'w" where
  "sendByPeerID M L i peerIDStr msg s d w =
     (case sl_peer_Decode L peerIDStr of
        None \<Rightarrow> ((ToolError (InvalidPeerId peerIDStr), (''send_task'', ''error'')), s, d, w)
      | Some pid \<Rightarrow>
          (case router_send L i pid msg [] s d w of
             (Inl err, s', d', w') \<Rightarrow> ((ToolError (SendFailed err), (''send_task'', ''error'')), s', d', w')
           | (Inr task, s', d', w') \<Rightarrow>
               ((marshalToolResult M (JObject [(''task_id'', JString (task_ID task)), (''status'', JString (status_String (Status task))),
                   (''target'', JString peerIDStr), (''mode'', JString ''direct'')]), (''send_task'', ''ok'')), s', d', w')))"

definition sendBySkill ::
  "'w mcp_lib \<Rightarrow> ('db, 'l, 'f, 'w, 'pub) server_libs \<Rightarrow> server_inputs \<Rightarrow> string \<Rightarrow> pb_Message \<Rightarrow> ('l, 'f, 'w) Server \<Rightarrow> 'db \<Rightarrow> 'w \<Rightarrow>
   counted \<times> ('l, 'f, 'w) Server \<times> 'db \<times> 'w" where
  "sendBySkill M L i skill msg s d w =
     (case anycastRouter s of
        None \<Rightarrow> ((ToolError AnycastUnavailable, (''send_task_by_skill'', ''error'')), s, d, w)
      | Some ar \<Rightarrow>
          (case Resolve (ri_clock (si_router i) 8) (ri_clock (si_router i) 9) skill ar w of
             (Inl err, ar', w1) \<Rightarrow> ((ToolError (NoAgentsFound skill err), (''send_task_by_skill'', ''error'')), s\<lparr>anycastRouter := Some ar'\<rparr>, d, w1)
           | (Inr pid, ar', w1) \<Rightarrow>
               (case router_send L i pid msg skill (s\<lparr>anycastRouter := Some ar'\<rparr>) d w1 of
                  (Inl err, s', d', w') \<Rightarrow> ((ToolError (SendFailed err), (''send_task_by_skill'', ''error'')), s', d', w')
                | (Inr task, s', d', w') \<Rightarrow>
                    ((marshalToolResult M (JObject [(''task_id'', JString (task_ID task)), (''status'', JString (status_String (Status task))),
                        (''target'', JString pid), (''skill'', JString skill), (''mode'', JString ''anycast'')]), (''send_task_by_skill'', ''ok'')),
                     s', d', w'))))"

definition sendByURL ::
  "'w mcp_lib \<Rightarrow> ('db, 'l, 'f, 'w, 'pub) server_libs \<Rightarrow> server_inputs \<Rightarrow> string \<Rightarrow> pb_Message \<Rightarrow> ('l, 'f, 'w) Server \<Rightarrow> 'db \<Rightarrow> 'w \<Rightarrow>
   counted \<times> ('l, 'f, 'w) Server \<times> 'db \<times> 'w" where
  "sendByURL M L i url msg s d w =
     (if \<not> outboundBridge s then ((ToolError BridgeUnavailable, (''send_task'', ''error'')), s, d, w)
      else case outbound_SendTask (sl_json L) (sl_http L) (si_uuid i) (si_now i) (si_msg_uuid i) (si_msg_now i) url msg w of
        (Inl err, w') \<Rightarrow> ((ToolError (BridgeFailed err), (''send_task'', ''error'')), s, d, w')
      | (Inr task, w') \<Rightarrow>
          ((marshalToolResult M (JObject [(''task_id'', JString (pbt_TaskId task)), (''status'', JString (ml_status_name M (pbt_Status task))),
              (''target'', JString url), (''mode'', JString ''http_bridge'')]), (''send_task'', ''ok'')), s, d, w'))"

definition user_message :: "string \<Rightarrow> pb_Message" where
  "user_message txt = \<lparr>MessageId = [], Role = MESSAGE_ROLE_USER, Parts = [TextPart txt], msg_CreatedAt = None\<rparr>"

definition mcp_handleSendTask ::
  "'w mcp_lib \<Rightarrow> ('db, 'l, 'f, 'w, 'pub) server_libs \<Rightarrow> server_inputs \<Rightarrow> json \<Rightarrow> ('l, 'f, 'w) Server \<Rightarrow> 'db \<Rightarrow> 'w \<Rightarrow>
   counted \<times> ('l, 'f, 'w) Server \<times> 'db \<times> 'w" where
  "mcp_handleSendTask M L i req s d w =
     (let args = parseArgs req; tgt = stringArg args ''target''; message = stringArg args ''message''; bySkill = boolArg args ''by_skill'' in
      if tgt = [] then ((ToolError (ParameterRequired [''target'']), (''send_task'', ''error'')), s, d, w)
      else if message = [] then ((ToolError (ParameterRequired [''message'']), (''send_task'', ''error'')), s, d, w)
      else if bySkill then sendBySkill M L i tgt (user_message message) s d w
      else if HasPrefix tgt ''http://'' \<or> HasPrefix tgt ''https://'' then sendByURL M L i tgt (user_message message) s d w
      else sendByPeerID M L i tgt (user_message message) s d w)"

definition handleSendTaskBySkill ::
  "'w mcp_lib \<Rightarrow> ('db, 'l, 'f, 'w, 'pub) server_libs \<Rightarrow> server_inputs \<Rightarrow> json \<Rightarrow> ('l, 'f, 'w) Server \<Rightarrow> 'db \<Rightarrow> 'w \<Rightarrow>
   counted \<times> ('l, 'f, 'w) Server \<times> 'db \<times> 'w" where
  "handleSendTaskBySkill M L i req s d w =
     (let args = parseArgs req; skill = stringArg args ''skill''; message = stringArg args ''message'' in
      if skill = [] \<or> message = [] then ((ToolError (ParameterRequired [''skill'', ''message'']), (''send_task_by_skill'', ''error'')), s, d, w)
      else sendBySkill M L i skill (user_message message) s d w)"

section \<open>Registration\<close>

text \<open>A handler as the MCP library calls it.\<close>

type_synonym ('db, 'l, 'f, 'w) tool_handler =
  "json \<Rightarrow> ('l, 'f, 'w) Server \<Rightarrow> 'db \<Rightarrow> 'w \<Rightarrow> counted \<times> ('l, 'f, 'w) Server \<times> 'db \<times> 'w"

definition registerTools ::
  "'w mcp_lib \<Rightarrow> ('db, 'l, 'f, 'w, 'pub) server_libs \<Rightarrow> server_inputs \<Rightarrow> (mcp_tool \<times> ('db, 'l, 'f, 'w) tool_handler) list" where
  "registerTools M L i =
     [(toolGetNodeInfo, \<lambda>req s d w. (handleGetNodeInfo M L w, s, d, w)),
      (toolListConnectedPeers, \<lambda>req s d w. (handleListConnectedPeers M L w, s, d, w)),
      (toolGetAgentCard, \<lambda>req s d w. (handleGetAgentCard M L req s, s, d, w)),
      (toolDiscoverAgents, \<lambda>req s d w. (case handleDiscoverAgents M i req s w of (res, s', w') \<Rightarrow> (res, s', d, w'))),
      (toolSendTask, mcp_handleSendTask M L i),
      (toolSendTaskBySkill, handleSendTaskBySkill M L i),
      (toolGetTaskStatus, \<lambda>req s d w. (handleGetTaskStatus M req s, s, d, w))]"

section \<open>Schemas and handlers\<close>

text \<open>
  The tool's required parameters are present, with the type that the schema gives (all of them strings),
  and not empty.
\<close>

definition has_required :: "mcp_tool \<Rightarrow> json \<Rightarrow> bool" where
  "has_required t req \<longleftrightarrow> (\<forall>k\<in>set (tool_Required t). stringArg (parseArgs req) k \<noteq> [])"

definition missing_parameter :: "tool_result \<Rightarrow> bool" where
  "missing_parameter r \<longleftrightarrow> (\<exists>ks. r = ToolError (ParameterRequired ks))"

lemma marshal_not_missing: "\<not> missing_parameter (marshalToolResult M v)"
  by (simp add: marshalToolResult_def missing_parameter_def split: sum.splits)

lemmas tool_defs = toolGetNodeInfo_def toolListConnectedPeers_def toolGetAgentCard_def toolDiscoverAgents_def toolSendTask_def
  toolSendTaskBySkill_def toolGetTaskStatus_def

lemma send_not_missing:
  "sendByPeerID M L i p msg s d w = (r, s', d', w') \<Longrightarrow> \<not> missing_parameter (fst r)"
  "sendBySkill M L i sk msg s d w = (r, s', d', w') \<Longrightarrow> \<not> missing_parameter (fst r)"
  "sendByURL M L i u msg s d w = (r, s', d', w') \<Longrightarrow> \<not> missing_parameter (fst r)"
  by (auto simp: sendByPeerID_def sendBySkill_def sendByURL_def missing_parameter_def marshalToolResult_def
      split: option.splits sum.splits prod.splits if_splits)

lemma mcp_handlers_check:
  "mcp_handleSendTask M L i req s d w = (r, s', d', w') \<Longrightarrow> missing_parameter (fst r) \<longleftrightarrow> \<not> has_required toolSendTask req"
  "handleSendTaskBySkill M L i req s d w = (r, s', d', w') \<Longrightarrow> missing_parameter (fst r) \<longleftrightarrow> \<not> has_required toolSendTaskBySkill req"
  "handleDiscoverAgents M i req s w = (r, s', w') \<Longrightarrow> missing_parameter (fst r) \<longleftrightarrow> \<not> has_required toolDiscoverAgents req"
  "missing_parameter (fst (handleGetTaskStatus M req s)) \<longleftrightarrow> \<not> has_required toolGetTaskStatus req"
  subgoal
    by (auto simp: mcp_handleSendTask_def Let_def has_required_def toolSendTask_def split: if_splits dest: send_not_missing)
      (auto simp: missing_parameter_def)
  subgoal
    by (auto simp: handleSendTaskBySkill_def Let_def has_required_def toolSendTaskBySkill_def split: if_splits dest: send_not_missing)
      (auto simp: missing_parameter_def)
  subgoal
    by (auto simp: handleDiscoverAgents_def Let_def has_required_def toolDiscoverAgents_def marshal_not_missing
        split: if_splits option.splits prod.splits sum.splits) (auto simp: missing_parameter_def)
  subgoal
    by (auto simp: handleGetTaskStatus_def Let_def has_required_def toolGetTaskStatus_def marshal_not_missing
        split: if_splits sum.splits) (auto simp: missing_parameter_def)
  done

lemma no_required:
  "has_required toolGetNodeInfo req" "has_required toolListConnectedPeers req" "has_required toolGetAgentCard req"
  "\<not> missing_parameter (fst (handleGetNodeInfo M L w))" "\<not> missing_parameter (fst (handleListConnectedPeers M L w))"
  "\<not> missing_parameter (fst (handleGetAgentCard M L req s))"
  by (auto simp: has_required_def tool_defs handleGetNodeInfo_def handleListConnectedPeers_def handleGetAgentCard_def Let_def
      missing_parameter_def marshalToolResult_def split: option.splits sum.splits if_splits)

text \<open>
  C36. The MCP tools keep to their schemas. The seven tools have different names and require only string
  parameters that they declare. A call of a tool is refused because of a missing parameter exactly when a
  parameter that its schema requires is absent, not a string or empty; it has then no effect on the node,
  and is counted as an error of that tool.
\<close>

theorem mcp_required_parameters:
  assumes "(t, h) \<in> set (registerTools M L i)" and "h req s d w = (r, s', d', w')"
  shows "(missing_parameter (fst r) \<longleftrightarrow> \<not> has_required t req)
    \<and> (missing_parameter (fst r) \<longrightarrow> s' = s \<and> d' = d \<and> w' = w \<and> snd r = (tool_Name t, ''error''))
    \<and> (\<forall>k\<in>set (tool_Required t). (k, ''string'') \<in> set (tool_Properties t))
    \<and> distinct (map (tool_Name \<circ> fst) (registerTools M L i))"
proof (intro conjI)
  show m: "missing_parameter (fst r) \<longleftrightarrow> \<not> has_required t req"
    using assms by (auto simp: registerTools_def mcp_handlers_check no_required split: prod.splits)
  show "missing_parameter (fst r) \<longrightarrow> s' = s \<and> d' = d \<and> w' = w \<and> snd r = (tool_Name t, ''error'')"
    unfolding m using assms
    by (auto simp: registerTools_def no_required has_required_def mcp_handleSendTask_def handleSendTaskBySkill_def handleDiscoverAgents_def
        handleGetTaskStatus_def Let_def tool_defs
        split: prod.splits if_splits)
  show "\<forall>k\<in>set (tool_Required t). (k, ''string'') \<in> set (tool_Properties t)"
    using assms(1) by (auto simp: registerTools_def tool_defs)
  show "distinct (map (tool_Name \<circ> fst) (registerTools M L i))"
    by (simp add: registerTools_def tool_defs)
qed

section \<open>The two interfaces\<close>

text \<open>The state, the database and the world after a call, whatever it returned.\<close>

definition grpc_request :: "send_target \<Rightarrow> string \<Rightarrow> SendTaskRequest" where
  "grpc_request tgt txt = \<lparr>sr_Message = Some (user_message txt), sr_Target = Some tgt, sr_Metadata = Map.empty\<rparr>"

lemma peer_paths_agree:
  "snd (sendByPeerID M L i p msg s d w) = snd (sendTaskToPeer L i p msg s d w)
   \<and> (snd (fst (sendByPeerID M L i p msg s d w)) = (''send_task'', ''ok'') \<longleftrightarrow> \<not> isl (fst (sendTaskToPeer L i p msg s d w)))"
  by (simp add: sendByPeerID_def sendTaskToPeer_def split: option.splits prod.splits sum.splits)

lemma sendByPeerID_status: "snd (snd (fst (sendByPeerID M L i p msg s d w))) = ''ok'' \<longleftrightarrow> snd (fst (sendByPeerID M L i p msg s d w)) = (''send_task'', ''ok'')"
  by (simp add: sendByPeerID_def split: option.splits prod.splits sum.splits)

lemma sendBySkill_status: "snd (snd (fst (sendBySkill M L i sk msg s d w))) = ''ok'' \<longleftrightarrow> snd (fst (sendBySkill M L i sk msg s d w)) = (''send_task_by_skill'', ''ok'')"
  by (simp add: sendBySkill_def split: option.splits prod.splits sum.splits)

lemma skill_paths_agree:
  "snd (snd (sendBySkill M L i sk msg s d w)) = snd (snd (sendTaskBySkill L i sk msg s d w))
   \<and> srv_router (fst (snd (sendBySkill M L i sk msg s d w))) = srv_router (fst (snd (sendTaskBySkill L i sk msg s d w)))
   \<and> (snd (fst (sendBySkill M L i sk msg s d w)) = (''send_task_by_skill'', ''ok'') \<longleftrightarrow> \<not> isl (fst (sendTaskBySkill L i sk msg s d w)))
   \<and> (\<not> isl (fst (sendTaskBySkill L i sk msg s d w)) \<longrightarrow>
        fst (snd (sendBySkill M L i sk msg s d w)) = fst (snd (sendTaskBySkill L i sk msg s d w)))"
  by (simp add: sendBySkill_def sendTaskBySkill_def split: option.splits prod.splits sum.splits)

text \<open>
  C31. The MCP and the gRPC interface send tasks alike. A \<open>send_task\<close> to a peer has the same effect on the
  node, the database and the network as the gRPC call with the same message and the same peer, and succeeds
  exactly when that does. A task sent by skill has the same effect on the router, the database and the
  network too; only after a failure do the two differ, because gRPC then forgets the cached
  route and MCP keeps it.
\<close>

theorem mcp_agrees_with_grpc:
  assumes "stringArg (parseArgs req) ''target'' = tgt" and "stringArg (parseArgs req) ''message'' = txt" and "tgt \<noteq> []" and "txt \<noteq> []"
    and "\<not> HasPrefix tgt ''http://''" and "\<not> HasPrefix tgt ''https://''"
    and "mcp_handleSendTask M L i req s d w = (r, s', d', w')"
    and "server_SendTask L i (grpc_request (if boolArg (parseArgs req) ''by_skill'' then TargetSkillId tgt else TargetPeerId tgt) txt) s d w = (g, s'', d'', w'')"
  shows "d' = d'' \<and> w' = w'' \<and> srv_router s' = srv_router s'' \<and> (snd (snd r) = ''ok'' \<longleftrightarrow> \<not> isl g)
    \<and> (\<not> isl g \<or> \<not> boolArg (parseArgs req) ''by_skill'' \<longrightarrow> s' = s'')"
proof (cases "boolArg (parseArgs req) ''by_skill''")
  case True
  then have "sendBySkill M L i tgt (user_message txt) s d w = (r, s', d', w')" "sendTaskBySkill L i tgt (user_message txt) s d w = (g, s'', d'', w'')"
    using assms by (auto simp: mcp_handleSendTask_def Let_def server_SendTask_def grpc_request_def resolveConnectionCoreTarget_def split: if_splits)
  with True skill_paths_agree [of M L i tgt "user_message txt" s d w] sendBySkill_status [of M L i tgt "user_message txt" s d w] show ?thesis by auto
next
  case False
  then have "sendByPeerID M L i tgt (user_message txt) s d w = (r, s', d', w')" "sendTaskToPeer L i tgt (user_message txt) s d w = (g, s'', d'', w'')"
    using assms by (auto simp: mcp_handleSendTask_def Let_def server_SendTask_def grpc_request_def resolveConnectionCoreTarget_def split: if_splits)
  with False peer_paths_agree [of M L i tgt "user_message txt" s d w] sendByPeerID_status [of M L i tgt "user_message txt" s d w] show ?thesis by auto
qed

section \<open>Examples\<close>

definition demo_mcp_lib :: "unit mcp_lib" where
  "demo_mcp_lib = \<lparr>ml_MarshalIndent = (\<lambda>_. Inr ''{}''), ml_Addrs = (\<lambda>_ _. []), ml_status_name = (\<lambda>_. [])\<rparr>"

theorem mcp_required_parameters_witness:
  "mcp_handleSendTask demo_mcp_lib demo_skill_libs (demo_server_inputs ''t'') (JObject [(''target'', JString ''s'')]) demo_skill_server mem_empty ()
     = ((ToolError (ParameterRequired [''message'']), (''send_task'', ''error'')), demo_skill_server, mem_empty, ())
   \<and> \<not> has_required toolSendTask (JObject [(''target'', JString ''s'')])"
proof -
  let ?req = "JObject [(''target'', JString ''s'')]"
  have e: "mcp_handleSendTask demo_mcp_lib demo_skill_libs (demo_server_inputs ''t'') ?req demo_skill_server mem_empty ()
      = ((ToolError (ParameterRequired [''message'']), (''send_task'', ''error'')), demo_skill_server, mem_empty, ())"
    by (simp add: mcp_handleSendTask_def parseArgs_def stringArg_def)
  have "(toolSendTask, mcp_handleSendTask demo_mcp_lib demo_skill_libs (demo_server_inputs ''t'')) \<in>
      set (registerTools demo_mcp_lib demo_skill_libs (demo_server_inputs ''t''))" by (simp add: registerTools_def)
  from mcp_required_parameters [OF this e] e show ?thesis by (simp add: missing_parameter_def)
qed

theorem mcp_agrees_with_grpc_witness:
  "\<exists>r s' d' w' g s'' d'' w''. mcp_handleSendTask demo_mcp_lib demo_skill_libs (demo_server_inputs ''t'')
       (JObject [(''target'', JString ''s''), (''message'', JString ''hi''), (''by_skill'', JBool True)]) demo_skill_server mem_empty () = (r, s', d', w')
     \<and> server_SendTask demo_skill_libs (demo_server_inputs ''t'') (grpc_request (TargetSkillId ''s'') ''hi'') demo_skill_server mem_empty () = (g, s'', d'', w'')
     \<and> srv_router s' = srv_router s''"
proof -
  let ?req = "JObject [(''target'', JString ''s''), (''message'', JString ''hi''), (''by_skill'', JBool True)]"
  obtain r s' d' w' where m: "mcp_handleSendTask demo_mcp_lib demo_skill_libs (demo_server_inputs ''t'') ?req demo_skill_server mem_empty () = (r, s', d', w')"
    by (metis prod_cases4)
  obtain g s'' d'' w'' where g: "server_SendTask demo_skill_libs (demo_server_inputs ''t'') (grpc_request (TargetSkillId ''s'') ''hi'') demo_skill_server mem_empty ()
      = (g, s'', d'', w'')" by (metis prod_cases4)
  have "boolArg (parseArgs ?req) ''by_skill''" by (simp add: boolArg_def parseArgs_def)
  from mcp_agrees_with_grpc [of ?req "''s''" "''hi''", OF _ _ _ _ _ _ m, of g s'' d'' w''] this g have "srv_router s' = srv_router s''"
    by (simp add: stringArg_def parseArgs_def HasPrefix_def)
  with m g show ?thesis by blast
qed

end
