(* ===== verification/Startup.thy ===== *)
theory Startup
  imports ProxyFacts Mcp Dht
begin

unbundle bit_operations_syntax

text \<open>
  What \<^verbatim>\<open>cmd/agentanycastd/main.go\<close> does once at the start and at the end: it opens the store (\<open>Open\<close> of
  \<^verbatim>\<open>internal/store/store.go\<close>), sets up tracing (\<^verbatim>\<open>internal/telemetry/telemetry.go\<close>), builds the libp2p host
  (\<open>NewHost\<close> of \<^verbatim>\<open>internal/node/host.go\<close>, with dialling the bootstrap peers and the peers found by mDNS), chooses the discovery
  providers of the anycast router, announces the skills of the agent card after three seconds and
  withdraws them at shutdown, and decides where the MCP server listens; and the health endpoint of
  \<^verbatim>\<open>internal/metrics/metrics.go\<close> with the transport labels.

  The connections to registries (\<open>newClient\<close>), the DHT's provider and \<open>time.ParseDuration\<close> are arguments.
\<close>

section \<open>The store and tracing\<close>

datatype open_error = CreateStoreDir string | OpenBolt string | CreateBuckets string

text \<open>The transaction that creates the buckets: the first error ends it, and it is rolled back.\<close>

fun create_buckets :: "('db \<Rightarrow> string \<Rightarrow> string + 'db) \<Rightarrow> string list \<Rightarrow> 'db \<Rightarrow> string + 'db" where
  "create_buckets createBucket [] db = Inr db"
| "create_buckets createBucket (b # bs) db =
     (case createBucket db b of Inl err \<Rightarrow> Inl err | Inr db' \<Rightarrow> create_buckets createBucket bs db')"

definition store_Open ::
  "(string \<Rightarrow> string option) \<Rightarrow> (string \<Rightarrow> string + 'db) \<Rightarrow> ('db \<Rightarrow> string \<Rightarrow> string + 'db) \<Rightarrow> string \<Rightarrow> open_error + 'db" where
  "store_Open mkdirAll boltOpen createBucket dir =
     (case mkdirAll dir of
        Some err \<Rightarrow> Inl (CreateStoreDir err)
      | None \<Rightarrow>
          (case boltOpen (filepath_Join [dir, ''agentanycast.db'']) of
             Inl err \<Rightarrow> Inl (OpenBolt err)
           | Inr db \<Rightarrow>
               (case create_buckets createBucket [tasksBucket, offlineQueueBucket, metadataBucket] db of
                  Inl err \<Rightarrow> Inl (CreateBuckets err)
                | Inr db' \<Rightarrow> Inr db')))"

text \<open>Comparisons of a \<open>float64\<close>, given by its bits, with 0 and 1. They fail for the values that are not a number.\<close>

definition float_nan :: "float64 \<Rightarrow> bool" where
  "float_nan x \<longleftrightarrow> x AND 0x7FFFFFFFFFFFFFFF > 0x7FF0000000000000"

definition float_le_zero :: "float64 \<Rightarrow> bool" where
  "float_le_zero x \<longleftrightarrow> \<not> float_nan x \<and> (x = 0 \<or> bit x 63)"

definition float_gt_one :: "float64 \<Rightarrow> bool" where
  "float_gt_one x \<longleftrightarrow> \<not> float_nan x \<and> \<not> bit x 63 \<and> x > float_one"

definition effective_rate :: "float64 \<Rightarrow> float64" where
  "effective_rate rate =
     (let r = (if float_le_zero rate then float_one else rate) in if float_gt_one r then float_one else r)"

record trace_setup =
  tr_Endpoint :: string
  tr_Insecure :: bool
  tr_Service :: string
  tr_Version :: string
  tr_Rate :: float64

text \<open>What the tracing library is set up with; \<open>None\<close> is the tracer that does nothing. \<open>newExporter\<close> and \<open>newResource\<close>
  give the errors of the library.\<close>

definition telemetry_Setup ::
  "(string \<Rightarrow> bool \<Rightarrow> string option) \<Rightarrow> (string \<Rightarrow> string \<Rightarrow> string option) \<Rightarrow> TelemetryConfig \<Rightarrow> string \<Rightarrow> string \<Rightarrow> string + trace_setup option" where
  "telemetry_Setup newExporter newResource cfg service version =
     (if \<not> te_Enabled cfg \<or> OTLPEndpoint cfg = [] then Inr None
      else
        let name = (if service = [] then ''agentanycast-node'' else service) in
        case newExporter (OTLPEndpoint cfg) (te_Insecure cfg) of
          Some err \<Rightarrow> Inl err
        | None \<Rightarrow>
            (case newResource name version of
               Some err \<Rightarrow> Inl err
             | None \<Rightarrow> Inr (Some \<lparr>tr_Endpoint = OTLPEndpoint cfg, tr_Insecure = te_Insecure cfg, tr_Service = name,
                                   tr_Version = version, tr_Rate = effective_rate (SampleRate cfg)\<rparr>)))"

section \<open>The libp2p host\<close>

record HostConfig =
  hc_ListenAddrs :: "string list"
  hc_BootstrapPeers :: "string list"
  hc_EnableQUIC :: bool
  hc_EnableWebTransport :: bool
  hc_EnableRelayClient :: bool
  hc_EnableHolePunching :: bool
  hc_EnableMDNS :: bool
  hc_EnableDHT :: bool
  hc_DHTMode :: string

datatype dht_mode = ModeAutoServer | ModeServer | ModeClient

text \<open>The options that the host is built with. \<open>OptTransport\<close> names the transport.\<close>

datatype host_option =
    OptIdentity
  | OptListenAddrs "string list"
  | OptNoise
  | OptYamux
  | OptTransport string
  | OptNATPortMap
  | OptAutoNATv2
  | OptRelay
  | OptHolePunching
  | OptRouting dht_mode

datatype new_host_error = ParseListenAddr string string | CreateHost string

text \<open>\<open>newMA\<close> is \<open>multiaddr.NewMultiaddr\<close>: the error, or the address.\<close>

fun parse_listen :: "(string \<Rightarrow> string + string) \<Rightarrow> string list \<Rightarrow> new_host_error + string list" where
  "parse_listen newMA [] = Inr []"
| "parse_listen newMA (addr # rest) =
     (case newMA addr of
        Inl err \<Rightarrow> Inl (ParseListenAddr addr err)
      | Inr ma \<Rightarrow> (case parse_listen newMA rest of Inl e \<Rightarrow> Inl e | Inr mas \<Rightarrow> Inr (ma # mas)))"

definition webtransport_addr :: "(string \<Rightarrow> string + string) \<Rightarrow> HostConfig \<Rightarrow> string list" where
  "webtransport_addr newMA cfg =
     (if hc_EnableWebTransport cfg then
        (case newMA ''/ip4/0.0.0.0/udp/0/quic-v1/webtransport'' of Inl err \<Rightarrow> [] | Inr ma \<Rightarrow> [ma])
      else [])"

definition routing_mode :: "HostConfig \<Rightarrow> dht_mode" where
  "routing_mode cfg = (if hc_DHTMode cfg = ''server'' then ModeServer else if hc_DHTMode cfg = ''client'' then ModeClient else ModeAutoServer)"

definition host_options :: "HostConfig \<Rightarrow> string list \<Rightarrow> host_option list" where
  "host_options cfg listenAddrs =
     [OptIdentity, OptListenAddrs listenAddrs, OptNoise, OptYamux, OptTransport ''tcp'', OptNATPortMap, OptAutoNATv2]
     @ (if hc_EnableQUIC cfg then [OptTransport ''quic''] else [])
     @ (if hc_EnableWebTransport cfg then [OptTransport ''webtransport''] else [])
     @ (if hc_EnableRelayClient cfg then [OptRelay] else [])
     @ (if hc_EnableHolePunching cfg then [OptHolePunching] else [])
     @ (if hc_EnableDHT cfg then [OptRouting (routing_mode cfg)] else [])"

text \<open>\<open>libp2pNew\<close> builds the host. With it come the goroutines that dial the bootstrap peers, and whether mDNS is started.\<close>

definition NewHost ::
  "(string \<Rightarrow> string + string) \<Rightarrow> (host_option list \<Rightarrow> string option) \<Rightarrow> HostConfig \<Rightarrow> new_host_error + Host \<times> string list \<times> bool" where
  "NewHost newMA libp2pNew cfg =
     (case parse_listen newMA (hc_ListenAddrs cfg) of
        Inl e \<Rightarrow> Inl e
      | Inr mas \<Rightarrow>
          (case libp2pNew (host_options cfg (mas @ webtransport_addr newMA cfg)) of
             Some err \<Rightarrow> Inl (CreateHost err)
           | None \<Rightarrow> Inr (\<lparr>peerCards = Map.empty, host_store = False\<rparr>, hc_BootstrapPeers cfg, hc_EnableMDNS cfg)))"

text \<open>\<open>addrInfo\<close> is \<open>peer.AddrInfoFromP2pAddr\<close>: the peer of an address with its addresses.\<close>

definition connectBootstrap ::
  "(string \<Rightarrow> string + string) \<Rightarrow> (string \<Rightarrow> (peer_id \<times> string list) option) \<Rightarrow> (peer_id \<Rightarrow> string list \<Rightarrow> 'w \<Rightarrow> string option \<times> 'w) \<Rightarrow>
   string \<Rightarrow> 'w \<Rightarrow> 'w" where
  "connectBootstrap newMA addrInfo connect addrStr w =
     (case newMA addrStr of
        Inl err \<Rightarrow> w
      | Inr ma \<Rightarrow> (case addrInfo ma of None \<Rightarrow> w | Some (pid, addrs) \<Rightarrow> snd (connect pid addrs w)))"

definition HandlePeerFound ::
  "peer_id \<Rightarrow> (peer_id \<Rightarrow> string list \<Rightarrow> 'w \<Rightarrow> string option \<times> 'w) \<Rightarrow> peer_id \<Rightarrow> string list \<Rightarrow> 'w \<Rightarrow> 'w" where
  "HandlePeerFound self connect pid addrs w = (if pid = self then w else snd (connect pid addrs w))"

section \<open>Discovery providers\<close>

definition MultiRegistryDiscovery :: "nat list \<Rightarrow> 'w DiscoveryProvider list \<Rightarrow> 'w DiscoveryProvider" where
  "MultiRegistryDiscovery order providers =
     \<lparr>DiscoverBySkill = multi_DiscoverBySkill order providers, RegisterSkills = multi_RegisterSkills order providers,
      UnregisterSkills = multi_UnregisterSkills order providers, provider_Close = multi_Close providers\<rparr>"

definition NewRegistryDiscovery ::
  "(string \<Rightarrow> peer_id option) \<Rightarrow> (string \<Rightarrow> 'w registry_rpc option) \<Rightarrow> string \<Rightarrow> 'w DiscoveryProvider option" where
  "NewRegistryDiscovery peer_Decode newClient addr = map_option (RegistryDiscovery peer_Decode) (newClient addr)"

definition registry_providers ::
  "(string \<Rightarrow> peer_id option) \<Rightarrow> (string \<Rightarrow> 'w registry_rpc option) \<Rightarrow> nat list \<Rightarrow> string list \<Rightarrow> 'w DiscoveryProvider list" where
  "registry_providers peer_Decode newClient order addrs =
     (if length addrs > 1 then
        (case NewMultiRegistryDiscovery peer_Decode newClient addrs of
           Inl err \<Rightarrow> []
         | Inr ps \<Rightarrow> [MultiRegistryDiscovery order ps])
      else if length addrs = 1 then
        (case NewRegistryDiscovery peer_Decode newClient (addrs ! 0) of None \<Rightarrow> [] | Some p \<Rightarrow> [p])
      else [])"

definition daemon_providers ::
  "(string \<Rightarrow> peer_id option) \<Rightarrow> (string \<Rightarrow> 'w registry_rpc option) \<Rightarrow> nat list \<Rightarrow> 'w DiscoveryProvider option \<Rightarrow> AnycastConfig \<Rightarrow>
   'w DiscoveryProvider list" where
  "daemon_providers peer_Decode newClient order dhtProvider cfg =
     registry_providers peer_Decode newClient order (EffectiveRegistryAddrs cfg)
     @ (if EnableDHT cfg then (case dhtProvider of None \<Rightarrow> [] | Some p \<Rightarrow> [p]) else [])"

text \<open>\<open>ParseDuration\<close> gives 0 with an error, which is dropped.\<close>

definition daemon_anycast ::
  "(nat \<Rightarrow> 'w \<Rightarrow> nat \<times> 'w) \<Rightarrow> (string \<Rightarrow> duration) \<Rightarrow> nat list \<Rightarrow> AnycastConfig \<Rightarrow> 'w DiscoveryProvider list \<Rightarrow> 'w anycast_Router option" where
  "daemon_anycast IntN ParseDuration order cfg providers =
     (if length providers > 0 then
        (let disc = (if length providers = 1 then providers ! 0 else CompositeDiscovery order providers);
             t = ParseDuration (CacheTTL cfg);
             cacheTTL = (if t = 0 then 30 * Second else t)
         in Some (anycast_NewRouter IntN disc (Some (RandomStrategy IntN)) cacheTTL))
      else None)"

section \<open>Announcing skills\<close>

definition card_infos :: "pb_AgentCard \<Rightarrow> SkillInfo list" where
  "card_infos c = map (\<lambda>sk. \<lparr>SkillID = skill_Id sk, si_Description = skill_Description sk, si_Tags = Map.empty\<rparr>) (card_Skills c)"

text \<open>The goroutine that registers, after its sleep.\<close>

definition auto_register ::
  "('db, 'l, 'f, 'w, 'pub) server_libs \<Rightarrow> AnycastConfig \<Rightarrow> ('l, 'f, 'w) Server \<Rightarrow> 'w \<Rightarrow> 'w" where
  "auto_register L cfg s w =
     (case anycastRouter s of
        None \<Rightarrow> w
      | Some ar \<Rightarrow>
          if AutoRegister cfg then
            (case GetLocalCard s of
               None \<Rightarrow> w
             | Some c \<Rightarrow>
                 if length (card_Skills c) > 0
                 then snd (anycast_RegisterSkills (sl_self L) (card_infos c) (card_Name c) (card_Description c) ar w)
                 else w)
          else w)"

definition shutdown_unregister :: "('db, 'l, 'f, 'w, 'pub) server_libs \<Rightarrow> ('l, 'f, 'w) Server \<Rightarrow> 'w \<Rightarrow> 'w" where
  "shutdown_unregister L s w =
     (case anycastRouter s of None \<Rightarrow> w | Some ar \<Rightarrow> snd (anycast_UnregisterSkills (sl_self L) [] ar w))"

text \<open>The address of the MCP server over HTTP, if it runs. In stdio mode \<open>main\<close> has returned before.\<close>

definition mcp_listen :: "bool \<Rightarrow> string \<Rightarrow> bool \<Rightarrow> string \<Rightarrow> string option" where
  "mcp_listen flagMCP flagMCPListen mcpEnabled mcpListen =
     (if flagMCP then None
      else if flagMCPListen \<noteq> [] \<or> mcpEnabled then Some (if flagMCPListen \<noteq> [] then flagMCPListen else mcpListen)
      else None)"

section \<open>Health and transport labels\<close>

record metrics_Server =
  ms_startTime :: gotime
  ms_version :: string
  ms_healthCheck :: "(unit \<Rightarrow> bool) option"

definition metrics_NewServer :: "gotime \<Rightarrow> (metrics_Server \<Rightarrow> metrics_Server) list \<Rightarrow> metrics_Server" where
  "metrics_NewServer now opts = fold (\<lambda>opt. opt) opts \<lparr>ms_startTime = now, ms_version = ''dev'', ms_healthCheck = None\<rparr>"

definition WithHealthChecker :: "(unit \<Rightarrow> bool) \<Rightarrow> metrics_Server \<Rightarrow> metrics_Server" where
  "WithHealthChecker fn s = s\<lparr>ms_healthCheck := Some fn\<rparr>"

definition SetVersion :: "string \<Rightarrow> metrics_Server \<Rightarrow> metrics_Server" where
  "SetVersion v s = s\<lparr>ms_version := v\<rparr>"

record HealthResponse =
  hl_Status :: string
  hl_Version :: string
  hl_Uptime :: duration

definition handleHealth :: "(HealthResponse \<Rightarrow> bytes) \<Rightarrow> gotime \<Rightarrow> metrics_Server \<Rightarrow> http_response \<Rightarrow> http_response" where
  "handleHealth enc now s rw =
     (let healthy = (case ms_healthCheck s of None \<Rightarrow> True | Some f \<Rightarrow> f ());
          resp = \<lparr>hl_Status = (if healthy then ''healthy'' else ''unhealthy''), hl_Version = ms_version s, hl_Uptime = now - ms_startTime s\<rparr>
      in http_Write (enc resp) ((SetHeader ''Content-Type'' ''application/json'' rw)\<lparr>hw_Code := if healthy then 200 else 503\<rparr>))"

definition daemon_healthy :: "string list \<Rightarrow> string list \<Rightarrow> bool" where
  "daemon_healthy peers bootstrapPeers \<longleftrightarrow> length peers > 0 \<or> length bootstrapPeers = 0"

definition ClassifyTransport :: "string option \<Rightarrow> string" where
  "ClassifyTransport addr =
     (case addr of
        None \<Rightarrow> ''unknown''
      | Some str \<Rightarrow>
          if sublist ''/webtransport'' str then ''webtransport''
          else if sublist ''/quic-v1'' str \<or> sublist ''/quic'' str then ''quic''
          else if sublist ''/tcp/'' str then ''tcp''
          else ''unknown'')"

section \<open>Sampling\<close>

text \<open>
  The sampling rate is above 0 and at most 1 for every setting that is a number; a setting of 0, which
  one could take for no sampling, means every trace. Positive floats are ordered as their bits.
\<close>

theorem sampling_rate_bounds:
  assumes "\<not> float_nan (SampleRate cfg)" and "telemetry_Setup newExporter newResource cfg service version = Inr (Some t)"
  shows "0 < tr_Rate t \<and> tr_Rate t \<le> float_one \<and> \<not> bit (tr_Rate t) 63 \<and> (SampleRate cfg = 0 \<longrightarrow> tr_Rate t = float_one)"
proof -
  have t: "tr_Rate t = effective_rate (SampleRate cfg)"
    using assms(2) by (auto simp: telemetry_Setup_def Let_def split: if_splits option.splits)
  have one: "\<not> bit float_one 63" "0 < float_one" "\<not> float_gt_one float_one"
    by (simp_all add: float_one_def float_gt_one_def)
  show ?thesis
    unfolding t using assms(1) one by (auto simp: effective_rate_def Let_def float_le_zero_def float_gt_one_def word_neq_0_conv)
qed

section \<open>Skills that reach the network\<close>

lemma map_filter_ne: "List.map_filter f xs \<noteq> [] \<longleftrightarrow> (\<exists>x\<in>set xs. f x \<noteq> None)"
  by (induction xs) (auto simp: List.map_filter_simps split: option.splits)

lemma registry_providers_ne:
  "registry_providers pd newClient order addrs \<noteq> [] \<longleftrightarrow> (\<exists>a\<in>set addrs. newClient a \<noteq> None)"
proof -
  consider "addrs = []" | a where "addrs = [a]" | a b rest where "addrs = a # b # rest" by (metis list.exhaust)
  then show ?thesis
  proof cases
    case 3
    then have "NewMultiRegistryDiscovery pd newClient addrs =
        (let ps = List.map_filter (\<lambda>addr. map_option (registryClient pd) (newClient addr)) addrs
         in if length ps = 0 then Inl ''failed to connect to any registry address'' else Inr ps)"
      by (simp add: NewMultiRegistryDiscovery_def)
    with 3 map_filter_ne [of "\<lambda>addr. map_option (registryClient pd) (newClient addr)" addrs] show ?thesis
      by (simp add: registry_providers_def Let_def split: if_splits)
  qed (auto simp: registry_providers_def NewRegistryDiscovery_def split: option.splits)
qed

text \<open>
  Tasks can be sent by skill exactly when at least one way of discovery works: a registry that can be
  connected to, or the DHT.
\<close>

theorem anycast_available:
  "daemon_anycast IntN parseDur order cfg (daemon_providers pd newClient order' dhtProvider cfg) \<noteq> None \<longleftrightarrow>
     (\<exists>a\<in>set (EffectiveRegistryAddrs cfg). newClient a \<noteq> None) \<or> (EnableDHT cfg \<and> dhtProvider \<noteq> None)"
  using registry_providers_ne [of pd newClient order' "EffectiveRegistryAddrs cfg"]
  by (auto simp: daemon_anycast_def daemon_providers_def Let_def split: option.splits)

text \<open>
  The tools of a proxy are announced. When the daemon has an anycast router and registers skills by
  itself, what it registers under its own identifier after the start of a proxy is the list of the skills
  that the agent card had, followed by the names of all tools, in this order.
\<close>

theorem tools_announced:
  assumes "wire_proxy L x s d = (s', d')" and "anycastRouter s = Some ar" and "AutoRegister cfg" and "px_tools x \<noteq> []"
  shows "\<exists>infos nm desc. auto_register L cfg s' w = snd (RegisterSkills (discovery ar) (sl_self L) infos nm desc w)
    \<and> map SkillID infos = map skill_Id (card_Skills (card_or_new s)) @ map mt_Name (px_tools x)"
proof -
  obtain s1 d1 where f: "fold (RegisterProxySkill L) (ToolsToSkills (px_tools x)) (s, d) = (s1, d1)" by fastforce
  have s': "s' = s1\<lparr>mcpProxySkills := Some (mt_Name ` set (px_tools x))\<rparr>"
    using assms(1) f by (simp add: wire_proxy_def proxy_Skills_def proxy_Tools_def RegisterMCPProxyHandler_def)
  note e = register_skills_effect [OF f]
  with assms(4) obtain c where c: "srv_card s1 = Some c" by (auto simp: ToolsToSkills_def)
  with e have skills: "card_Skills c = card_Skills (card_or_new s) @ ToolsToSkills (px_tools x)" by (simp add: card_or_new_def)
  have "auto_register L cfg s' w = snd (RegisterSkills (discovery ar) (sl_self L) (card_infos c) (card_Name c) (card_Description c) w)"
    using assms(2,3,4) c e skills by (simp add: auto_register_def s' GetLocalCard_def anycast_RegisterSkills_def ToolsToSkills_def)
  moreover have "map SkillID (card_infos c) = map skill_Id (card_Skills (card_or_new s)) @ map mt_Name (px_tools x)"
    by (simp add: card_infos_def skills ToolsToSkills_def)
  ultimately show ?thesis by blast
qed

theorem tools_announced_witness:
  "\<exists>s' d' infos nm desc. wire_proxy demo_card_libs \<lparr>px_process = new_process, px_tools = [demo_tool]\<rparr> demo_skill_server mem_empty = (s', d')
     \<and> auto_register demo_card_libs (cf_Anycast (DefaultConfig [])) s' () = snd (RegisterSkills (fixed_provider (Inr [demo_endpoint ''p''])) ''B'' infos nm desc ())
     \<and> map SkillID infos = [''s'']"
proof -
  obtain s' d' where w: "wire_proxy demo_card_libs \<lparr>px_process = new_process, px_tools = [demo_tool]\<rparr> demo_skill_server mem_empty = (s', d')"
    by fastforce
  obtain ar where ar: "anycastRouter demo_skill_server = Some ar" "discovery ar = fixed_provider (Inr [demo_endpoint ''p''])"
    by (simp add: demo_skill_server_def anycast_NewRouter_def)
  have "AutoRegister (cf_Anycast (DefaultConfig []))" by (simp add: DefaultConfig_def Let_def)
  from tools_announced [OF w ar(1) this, of "()"] w ar(2) show ?thesis
    by (auto simp: demo_card_libs_def demo_skill_libs_def card_or_new_def demo_skill_server_def proxy_card_def demo_tool_def)
qed

end
