(* ===== verification/Lifecycle.thy ===== *)
theory Lifecycle
  imports Startup
begin

text \<open>
  The function \<open>main\<close> of \<^verbatim>\<open>cmd/agentanycastd/main.go\<close> from the first to the last line, put together from the parts
  that the other theories model. A step of the start either goes on with the values it has made or ends
  the daemon with an exit status. What can be seen of a run is the list of its events. The calls that are
  deferred form a stack; \<open>os.Exit\<close> does not run them, a return from \<open>main\<close> does, last in first out, until one
  of them does not return.

  Everything outside the repository is a field of \<open>main_libs\<close>, what one run takes from outside a field of
  \<open>main_inputs\<close>.
\<close>

section \<open>Resources and events\<close>

text \<open>The objects whose closing is deferred, in the order of the code.\<close>

datatype resource =
    Tracing
  | Database
  | DaemonContext
  | P2PHost
  | A2ARouter
  | AnycastService
  | HTTPBridge
  | ANPBridge
  | MetricsEndpoint
  | NATSLink
  | Limiter
  | AuditFile
  | ProxyProcess
  | MCPEndpoint
  | UnregisterContext

datatype main_event =
    Acquired resource
  | Released resource
  | Handling string
  | Serving string string
  | Guarded string
  | Logged string
  | Printed string
  | AutoRegistering
  | Withdrawn
  | Canceled

text \<open>\<open>Hang\<close> is a call that does not return.\<close>

datatype main_exit = Exit nat | Hang

record main_log =
  happened :: "main_event list"
  deferred :: "resource list"

type_synonym 'a main = "(main_exit + 'a) \<times> main_log"

definition note_event :: "main_event \<Rightarrow> main_log \<Rightarrow> main_log" where
  "note_event e l = l\<lparr>happened := happened l @ [e]\<rparr>"

definition acquire :: "resource \<Rightarrow> main_log \<Rightarrow> main_log" where
  "acquire r l = \<lparr>happened = happened l @ [Acquired r], deferred = r # deferred l\<rparr>"

text \<open>An error that is logged before the daemon gives up, and one that it survives.\<close>

definition give_up :: "string \<Rightarrow> main_log \<Rightarrow> 'a main" where
  "give_up msg l = (Inl (Exit 1), note_event (Logged msg) l)"

definition warn :: "string \<Rightarrow> 'e option \<Rightarrow> main_log \<Rightarrow> main_log" where
  "warn msg err l = (case err of None \<Rightarrow> l | Some _ \<Rightarrow> note_event (Logged msg) l)"

fun run_deferred :: "(resource \<Rightarrow> bool) \<Rightarrow> resource list \<Rightarrow> main_event list \<Rightarrow> main_exit \<times> main_event list" where
  "run_deferred returns [] evs = (Exit 0, evs)"
| "run_deferred returns (r # rs) evs =
     (if returns r then run_deferred returns rs (evs @ [Released r]) else (Hang, evs))"

section \<open>The world of the daemon\<close>

record MainFlags = Flags +
  flagConfigPath :: string
  flagMCP :: bool
  flagMCPListen :: string
  flagMCPProxy :: string
  flagVersion :: bool

text \<open>\<open>ml_server\<close> gives the libraries of the gRPC server for a private key, which determines the node's
  identifier. \<open>ml_DHT\<close> is the provider on the host's DHT, if the host has one.\<close>

record ('db, 'l, 'f, 'w, 'pub, 'priv) main_libs =
  ml_version :: string
  ml_home :: string
  ml_env :: "string \<Rightarrow> string"
  ml_read_file :: "string \<Rightarrow> file_result"
  ml_toml :: "bytes \<Rightarrow> Config \<Rightarrow> string + Config"
  ml_ParseFloat :: "string \<Rightarrow> float64 option"
  ml_ParseDuration :: "string \<Rightarrow> string + duration"
  ml_newExporter :: "string \<Rightarrow> bool \<Rightarrow> string option"
  ml_newResource :: "string \<Rightarrow> string \<Rightarrow> string option"
  ml_loadKey :: "string \<Rightarrow> 'w \<Rightarrow> (string + bytes) \<times> 'w"
  ml_UnmarshalKey :: "bytes \<Rightarrow> 'priv option"
  ml_Raw :: "'priv \<Rightarrow> bytes option"
  ml_mkdirAll :: "string \<Rightarrow> string option"
  ml_boltOpen :: "string \<Rightarrow> string + 'db"
  ml_createBucket :: "'db \<Rightarrow> string \<Rightarrow> string + 'db"
  ml_NewMultiaddr :: "string \<Rightarrow> string + string"
  ml_libp2pNew :: "host_option list \<Rightarrow> string option"
  ml_newClient :: "string \<Rightarrow> 'w registry_rpc option"
  ml_DHT :: "'w DiscoveryProvider option"
  ml_IntN :: "nat \<Rightarrow> 'w \<Rightarrow> nat \<times> 'w"
  ml_server :: "'priv \<Rightarrow> ('db, 'l, 'f, 'w, 'pub) server_libs"
  ml_NewStream :: "'w stream_opener"
  ml_nats :: "'w nats_lib"
  ml_OpenFile :: "string \<Rightarrow> string + 'f"
  ml_mcp :: mcp_json
  ml_tools :: tools_json
  ml_spawn :: "string \<Rightarrow> string list \<Rightarrow> new_error + Process"
  ml_core_text :: "core_error \<Rightarrow> string"
  ml_router_text :: "router_error \<Rightarrow> string"
  ml_anpDecode :: "bytes \<Rightarrow> jsonRPCRequest option"
  ml_anpSprint :: "json \<Rightarrow> string"

datatype main_end = Signalled string | GrpcEnded "string option"

record main_inputs =
  mi_card_order :: "string list"
  mi_registry_order :: "nat list"
  mi_provider_order :: "nat list"
  mi_feed :: "nat \<Rightarrow> core_inputs"
  mi_router :: router_inputs
  mi_discover1 :: "mcp_action list"
  mi_initialized :: "nat \<times> string option"
  mi_discover2 :: "mcp_action list"
  mi_closing :: "mcp_action list"
  mi_stdio :: "string option"
  mi_end :: main_end
  mi_returns :: "resource \<Rightarrow> bool"

section \<open>Configuration, logging, tracing and storage\<close>

definition main_config :: "('db, 'l, 'f, 'w, 'pub, 'priv) main_libs \<Rightarrow> MainFlags \<Rightarrow> main_log \<Rightarrow> Config main" where
  "main_config M f l =
     (if flagVersion f then (Inl (Exit 0), note_event (Printed (''agentanycastd '' @ ml_version M)) l)
      else case load_configuration (ml_read_file M) (ml_toml M) (ml_ParseFloat M) (ml_env M) (ml_home M) (flagConfigPath f) (Flags.truncate f) of
        Inl err \<Rightarrow> give_up ''failed to load config file'' l
      | Inr cfg \<Rightarrow> (Inr cfg, l))"

datatype log_level = LevelDebug | LevelInfo | LevelWarn | LevelError

text \<open>The level of the logger, and whether it writes JSON.\<close>

definition daemon_logger :: "Config \<Rightarrow> log_level \<times> bool" where
  "daemon_logger cfg =
     (if LogLevel cfg = ''debug'' then LevelDebug
      else if LogLevel cfg = ''warn'' then LevelWarn
      else if LogLevel cfg = ''error'' then LevelError
      else LevelInfo,
      LogFormat cfg = ''json'')"

definition main_tracing ::
  "('db, 'l, 'f, 'w, 'pub, 'priv) main_libs \<Rightarrow> Config \<Rightarrow> main_log \<Rightarrow> trace_setup option main" where
  "main_tracing M cfg l =
     (case telemetry_Setup (ml_newExporter M) (ml_newResource M) (Telemetry cfg) ''agentanycast-node'' (ml_version M) of
        Inl err \<Rightarrow> give_up ''failed to initialize telemetry'' l
      | Inr t \<Rightarrow> (Inr t, acquire Tracing l))"

definition main_storage ::
  "('db, 'l, 'f, 'w, 'pub, 'priv) main_libs \<Rightarrow> Config \<Rightarrow> 'w \<Rightarrow> main_log \<Rightarrow> ('priv \<times> 'db \<times> 'w) main" where
  "main_storage M cfg w l =
     (case LoadOrGenerateKey (ml_loadKey M) (ml_UnmarshalKey M) (KeyPath cfg) w of
        (Inl err, w1) \<Rightarrow> give_up ''failed to load/generate key'' l
      | (Inr key, w1) \<Rightarrow>
          (case store_Open (ml_mkdirAll M) (ml_boltOpen M) (ml_createBucket M) (StorePath cfg) of
             Inl err \<Rightarrow> give_up ''failed to open store'' l
           | Inr d \<Rightarrow> (Inr (key, d, w1), acquire Database l)))"

section \<open>The host, the engine and the router\<close>

definition host_config :: "Config \<Rightarrow> HostConfig" where
  "host_config cfg =
     \<lparr>hc_ListenAddrs = ListenAddrs cfg, hc_BootstrapPeers = BootstrapPeers cfg, hc_EnableQUIC = EnableQUIC cfg,
      hc_EnableWebTransport = EnableWebTransport cfg, hc_EnableRelayClient = EnableRelayClient cfg,
      hc_EnableHolePunching = EnableHolePunching cfg, hc_EnableMDNS = EnableMDNS cfg,
      hc_EnableDHT = EnableDHT (cf_Anycast cfg), hc_DHTMode = DHTMode (cf_Anycast cfg)\<rparr>"

definition main_host ::
  "('db, 'l, 'f, 'w, 'pub, 'priv) main_libs \<Rightarrow> main_inputs \<Rightarrow> ('db, 'l, 'f, 'w, 'pub) server_libs \<Rightarrow> Config \<Rightarrow> 'db \<Rightarrow> main_log \<Rightarrow>
   Host main" where
  "main_host M i L cfg d l =
     (let l1 = acquire DaemonContext l in
      case NewHost (ml_NewMultiaddr M) (ml_libp2pNew M) (host_config cfg) of
        Inl err \<Rightarrow> give_up ''failed to create host'' l1
      | Inr (h, _, _) \<Rightarrow>
          (case RecoverCards (lib_bolt (sl_router L)) (sl_peer_Decode L) (mi_card_order i) d (host_SetStore h) of
             (err, h') \<Rightarrow> (Inr h', warn ''card recovery failed'' err (acquire P2PHost l1))))"

definition offline_ttl :: "('db, 'l, 'f, 'w, 'pub, 'priv) main_libs \<Rightarrow> Config \<Rightarrow> duration" where
  "offline_ttl M cfg = (case ml_ParseDuration M (OfflineQueueTTL cfg) of Inl err \<Rightarrow> 24 * 3600 * Second | Inr t \<Rightarrow> t)"

definition main_router ::
  "('db, 'l, 'f, 'w, 'pub, 'priv) main_libs \<Rightarrow> ('db, 'l, 'f, 'w, 'pub) server_libs \<Rightarrow> Config \<Rightarrow> 'db \<Rightarrow> main_log \<Rightarrow>
   (nat \<times> ('l, 'f, 'w) Core) Router \<times> OfflineQueue \<times> main_log" where
  "main_router M L cfg d l =
     (case RecoverTasks (lib_bolt (sl_router L)) (lib_json (sl_router L)) d (engine_SetStore NewEngine) of
        (err, e) \<Rightarrow>
          (let l1 = warn ''task recovery failed'' err l;
               l2 = (case ml_ParseDuration M (OfflineQueueTTL cfg) of
                       Inl _ \<Rightarrow> note_event (Logged ''invalid offline_queue_ttl, using default 24h'') l1 | Inr _ \<Rightarrow> l1)
           in (NewRouter e (0, core_New), NewOfflineQueue (offline_ttl M cfg), acquire A2ARouter l2)))"

section \<open>Discovery and the servers\<close>

definition main_anycast ::
  "('db, 'l, 'f, 'w, 'pub, 'priv) main_libs \<Rightarrow> main_inputs \<Rightarrow> ('db, 'l, 'f, 'w, 'pub) server_libs \<Rightarrow> Config \<Rightarrow> main_log \<Rightarrow>
   'w anycast_Router option \<times> main_log" where
  "main_anycast M i L cfg l =
     (let providers = daemon_providers (sl_peer_Decode L) (ml_newClient M) (mi_registry_order i) (ml_DHT M) (cf_Anycast cfg);
          ar = daemon_anycast (ml_IntN M) (\<lambda>s. case ml_ParseDuration M s of Inl _ \<Rightarrow> 0 | Inr t \<Rightarrow> t) (mi_provider_order i)
                 (cf_Anycast cfg) providers
      in (ar, case ar of None \<Rightarrow> l | Some _ \<Rightarrow> acquire AnycastService l))"

text \<open>The gRPC server object, and the stream handlers that are registered on the host from here on.\<close>

definition main_server ::
  "('db, 'l, 'f, 'w, 'pub) server_libs \<Rightarrow> (nat \<times> ('l, 'f, 'w) Core) Router \<Rightarrow> Host \<Rightarrow> 'w anycast_Router option \<Rightarrow> 'db \<Rightarrow> main_log \<Rightarrow>
   ('l, 'f, 'w) Server \<times> main_log" where
  "main_server L r h ar d l =
     (server_New L r h ar True (Some NewStreamManager) d,
      note_event (Handling ''/agentanycast/a2a/1.0'') (note_event (Handling ''/agentanycast/card/1.0'') l))"

text \<open>The policy of the bridge is the one of the router: its state is part of the router.\<close>

definition daemon_http_policy :: "(core_error \<Rightarrow> string) \<Rightarrow> 'p inbound_policy \<Rightarrow> ('p Router \<times> 'db \<times> 'w) bridge_policy" where
  "daemon_http_policy err_text check src skill envID s =
     (case s of (r, d, w) \<Rightarrow>
        (case check src skill envID (policy_state r) of
           (err, p') \<Rightarrow> (map_option err_text err, (r\<lparr>policy_state := p'\<rparr>, d, w))))"

definition main_bridge ::
  "('db, 'l, 'f, 'w, 'pub, 'priv) main_libs \<Rightarrow> main_inputs \<Rightarrow> ('db, 'l, 'f, 'w, 'pub) server_libs \<Rightarrow> Config \<Rightarrow> main_log \<Rightarrow>
   ('p Router \<times> 'db \<times> 'w) InboundHandler option \<times> main_log" where
  "main_bridge M i L cfg l =
     (if br_Enabled (cf_Bridge cfg)
      then (Some (NewInboundHandler (Some (HandleInboundTask (sl_router L) (mi_router i) (ml_router_text M) (sl_self L)))),
            acquire HTTPBridge (note_event (Serving ''bridge'' (br_Listen (cf_Bridge cfg))) l))
      else (None, l))"

text \<open>The ANP server gets the card that there is now.\<close>

definition main_anp :: "('l, 'f, 'w) Server \<Rightarrow> Config \<Rightarrow> main_log \<Rightarrow> pb_AgentCard option option \<times> main_log" where
  "main_anp s cfg l =
     (if anp_Enabled (cf_ANP cfg)
      then (Some (GetLocalCard s), acquire ANPBridge (note_event (Serving ''anp'' (anp_Listen (cf_ANP cfg))) l))
      else (None, l))"

definition main_metrics :: "Config \<Rightarrow> main_log \<Rightarrow> main_log" where
  "main_metrics cfg l =
     (if me_Enabled (cf_Metrics cfg)
      then acquire MetricsEndpoint (note_event (Serving ''metrics'' (me_Listen (cf_Metrics cfg))) l)
      else l)"

section \<open>The Connection Core\<close>

definition daemon_core ::
  "('db, 'l, 'f, 'w, 'pub, 'priv) main_libs \<Rightarrow> ('db, 'l, 'f, 'w, 'pub) server_libs \<Rightarrow> 'priv \<Rightarrow> ('l, 'f, 'w) Core" where
  "daemon_core M L key =
     (let a2a = a2a_Adapter (lib_pb (sl_router L));
          c = (case ml_Raw M key of None \<Rightarrow> core_New | Some raw \<Rightarrow> SetEncryptionKey (Some raw) core_New);
          c = RegisterProtocol (anp_Adapter (ml_anpDecode M) (ml_anpSprint M)) (RegisterProtocol a2a c)
      in RegisterTransport (http_Transport None) (RegisterTransport (libp2p_Transport (sl_peer_Decode L) (ml_NewStream M) a2a) c))"

definition main_nats ::
  "('db, 'l, 'f, 'w, 'pub, 'priv) main_libs \<Rightarrow> MainFlags \<Rightarrow> ('db, 'l, 'f, 'w, 'pub) server_libs \<Rightarrow> Config \<Rightarrow> ('l, 'f, 'w) Core \<Rightarrow> 'w \<Rightarrow>
   main_log \<Rightarrow> (('l, 'f, 'w) Core \<times> nats_State option \<times> 'w) main" where
  "main_nats M f L cfg c w l =
     (let n = nats_settings (Flags.truncate f) (NATS (Transport cfg)) in
      if na_Enabled n then
        (case nats_New (ml_nats M) n (sl_self L) w of
           (Inl err, w1) \<Rightarrow> give_up ''failed to create NATS transport'' l
         | (Inr t, w1) \<Rightarrow>
             (Inr (RegisterTransport (nats_Transport (ml_nats M) (a2a_Adapter (lib_pb (sl_router L)))) c, Some t, w1), acquire NATSLink l))
      else (Inr (c, None, w), l))"

definition main_policies ::
  "('db, 'l, 'f, 'w, 'pub, 'priv) main_libs \<Rightarrow> Config \<Rightarrow> ('l, 'f, 'w) Core \<Rightarrow> main_log \<Rightarrow> ('l, 'f, 'w) Core main" where
  "main_policies M cfg c l =
     (let l1 = (if cfg_DefaultRPS (RateLimits (cf_Policy cfg)) > 0 then acquire Limiter l else l) in
      case install_policies (ml_OpenFile M) (cf_Policy cfg) c of
        Inl err \<Rightarrow> give_up ''failed to create audit logger'' l1
      | Inr c' \<Rightarrow> (Inr c', if AuditLogPath (cf_Policy cfg) \<noteq> [] then acquire AuditFile l1 else l1))"

text \<open>The core becomes the policy of the server, of the router and of the bridge, in this order.\<close>

definition install_core ::
  "('db, 'l, 'f, 'w, 'pub, 'priv) main_libs \<Rightarrow> main_inputs \<Rightarrow> ('db, 'l, 'f, 'w, 'pub) server_libs \<Rightarrow> ('l, 'f, 'w) Core \<Rightarrow> ('l, 'f, 'w) Server \<Rightarrow>
   ((nat \<times> ('l, 'f, 'w) Core) Router \<times> 'db \<times> 'w) InboundHandler option \<Rightarrow> main_log \<Rightarrow>
   ('l, 'f, 'w) Server \<times> ((nat \<times> ('l, 'f, 'w) Core) Router \<times> 'db \<times> 'w) InboundHandler option \<times> main_log" where
  "install_core M i L c s bridge l =
     (let check = core_policy (sl_core L) (mi_feed i);
          s1 = SetConnectionCore c s;
          s2 = s1\<lparr>srv_router := SetInboundPolicy check (srv_router s1)\<rparr>;
          l1 = note_event (Guarded ''router'') (note_event (Guarded ''grpc'') l)
      in (s2, map_option (bridge_SetInboundPolicy (Some (daemon_http_policy (ml_core_text M) check))) bridge,
          case bridge of None \<Rightarrow> l1 | Some _ \<Rightarrow> note_event (Guarded ''bridge'') l1))"

section \<open>The MCP proxy\<close>

text \<open>\<open>strings.Fields\<close>, with the word read so far.\<close>

fun fields_from :: "string \<Rightarrow> string \<Rightarrow> string list" where
  "fields_from cur [] = (if cur = [] then [] else [cur])"
| "fields_from cur (c # s) =
     (if ascii_space c then (if cur = [] then fields_from [] s else cur # fields_from [] s)
      else fields_from (cur @ [c]) s)"

definition Fields :: "string \<Rightarrow> string list" where
  "Fields s = fields_from [] s"

definition main_proxy ::
  "('db, 'l, 'f, 'w, 'pub, 'priv) main_libs \<Rightarrow> main_inputs \<Rightarrow> MainFlags \<Rightarrow> ('db, 'l, 'f, 'w, 'pub) server_libs \<Rightarrow> ('l, 'f, 'w) Server \<Rightarrow> 'db \<Rightarrow>
   main_log \<Rightarrow> (('l, 'f, 'w) Server \<times> 'db \<times> Proxy option) main" where
  "main_proxy M i f L s d l =
     (if flagMCPProxy f = [] then (Inr (s, d, None), l)
      else case Fields (flagMCPProxy f) of
        [] \<Rightarrow> give_up ''--mcp-proxy requires a command'' l
      | cmd # args \<Rightarrow>
          (case proxy_New (ml_mcp M) (ml_tools M) (ml_spawn M cmd args) (mi_discover1 i) (mi_initialized i) (mi_discover2 i) (mi_closing i) of
             None \<Rightarrow> (Inl Hang, l)
           | Some (Inl err, _) \<Rightarrow> give_up ''failed to start MCP proxy'' l
           | Some (Inr x, _) \<Rightarrow> (case wire_proxy L x s d of (s', d') \<Rightarrow> (Inr (s', d', Some x), acquire ProxyProcess l))))"

section \<open>Starting\<close>

text \<open>What runs when the start has succeeded.\<close>

record ('db, 'l, 'f, 'w, 'priv) running =
  rn_cfg :: Config
  rn_key :: 'priv
  rn_server :: "('l, 'f, 'w) Server"
  rn_queue :: OfflineQueue
  rn_bridge :: "((nat \<times> ('l, 'f, 'w) Core) Router \<times> 'db \<times> 'w) InboundHandler option"
  rn_anp_card :: "pb_AgentCard option option"
  rn_nats :: "nats_State option"
  rn_proxy :: "Proxy option"
  rn_db :: 'db
  rn_world :: 'w

text \<open>From the creation of the host to the creation of the MCP server: nothing can fail after the host.\<close>

definition main_services ::
  "('db, 'l, 'f, 'w, 'pub, 'priv) main_libs \<Rightarrow> main_inputs \<Rightarrow> ('db, 'l, 'f, 'w, 'pub) server_libs \<Rightarrow> Config \<Rightarrow> 'db \<Rightarrow> Host \<Rightarrow> main_log \<Rightarrow>
   ('l, 'f, 'w) Server \<times> OfflineQueue \<times> ((nat \<times> ('l, 'f, 'w) Core) Router \<times> 'db \<times> 'w) InboundHandler option \<times>
   pb_AgentCard option option \<times> main_log" where
  "main_services M i L cfg d h l =
     (case main_router M L cfg d l of (r, q, l1) \<Rightarrow>
      (case main_anycast M i L cfg l1 of (ar, l2) \<Rightarrow>
       (case main_server L r h ar d l2 of (s, l3) \<Rightarrow>
        (case main_bridge M i L cfg l3 of (bridge, l4) \<Rightarrow>
         (case main_anp s cfg l4 of (own, l5) \<Rightarrow> (s, q, bridge, own, main_metrics cfg l5))))))"

text \<open>From the Connection Core to the proxy.\<close>

definition main_connect ::
  "('db, 'l, 'f, 'w, 'pub, 'priv) main_libs \<Rightarrow> main_inputs \<Rightarrow> MainFlags \<Rightarrow> ('db, 'l, 'f, 'w, 'pub) server_libs \<Rightarrow> Config \<Rightarrow> 'priv \<Rightarrow> 'db \<Rightarrow> 'w \<Rightarrow>
   ('l, 'f, 'w) Server \<Rightarrow> OfflineQueue \<Rightarrow> ((nat \<times> ('l, 'f, 'w) Core) Router \<times> 'db \<times> 'w) InboundHandler option \<Rightarrow>
   pb_AgentCard option option \<Rightarrow> main_log \<Rightarrow> ('db, 'l, 'f, 'w, 'priv) running main" where
  "main_connect M i f L cfg key d w s q bridge own l =
     (case main_nats M f L cfg (daemon_core M L key) w l of
        (Inl x, l1) \<Rightarrow> (Inl x, l1)
      | (Inr (c, nats, w1), l1) \<Rightarrow>
          (case main_policies M cfg c l1 of
             (Inl x, l2) \<Rightarrow> (Inl x, l2)
           | (Inr c', l2) \<Rightarrow>
               (case install_core M i L c' s bridge l2 of (s1, bridge1, l3) \<Rightarrow>
                (case main_proxy M i f L s1 d l3 of
                   (Inl x, l4) \<Rightarrow> (Inl x, l4)
                 | (Inr (s2, d2, proxy), l4) \<Rightarrow>
                     (Inr \<lparr>rn_cfg = cfg, rn_key = key, rn_server = s2, rn_queue = q, rn_bridge = bridge1, rn_anp_card = own,
                           rn_nats = nats, rn_proxy = proxy, rn_db = d2, rn_world = w1\<rparr>, l4)))))"

definition daemon_start ::
  "('db, 'l, 'f, 'w, 'pub, 'priv) main_libs \<Rightarrow> main_inputs \<Rightarrow> MainFlags \<Rightarrow> 'w \<Rightarrow> ('db, 'l, 'f, 'w, 'priv) running main" where
  "daemon_start M i f w =
     (case main_config M f \<lparr>happened = [], deferred = []\<rparr> of
        (Inl x, l) \<Rightarrow> (Inl x, l)
      | (Inr cfg, l) \<Rightarrow>
          (case main_tracing M cfg l of
             (Inl x, l1) \<Rightarrow> (Inl x, l1)
           | (Inr _, l1) \<Rightarrow>
               (case main_storage M cfg w l1 of
                  (Inl x, l2) \<Rightarrow> (Inl x, l2)
                | (Inr (key, d, w2), l2) \<Rightarrow>
                    (let L = ml_server M key in
                     case main_host M i L cfg d l2 of
                       (Inl x, l3) \<Rightarrow> (Inl x, l3)
                     | (Inr h, l3) \<Rightarrow>
                         (case main_services M i L cfg d h l3 of
                            (s, q, bridge, own, l4) \<Rightarrow> main_connect M i f L cfg key d w2 s q bridge own l4)))))"

section \<open>Serving and ending\<close>

definition announce :: "('db, 'l, 'f, 'w, 'pub) server_libs \<Rightarrow> bool \<Rightarrow> 'w \<Rightarrow> main_log \<Rightarrow> main_log" where
  "announce L mcp w l =
     (if mcp then l
      else fold (\<lambda>addr. note_event (Printed (''LISTEN_ADDR='' @ addr @ ''/p2p/'' @ sl_self L))) (sl_Addrs L w)
             (note_event (Printed (''PEER_ID='' @ sl_self L)) l))"

definition main_mcp_http :: "MainFlags \<Rightarrow> Config \<Rightarrow> main_log \<Rightarrow> main_log" where
  "main_mcp_http f cfg l =
     (case mcp_listen (flagMCP f) (flagMCPListen f) (mcp_Enabled (cf_MCP cfg)) (mcp_Listen (cf_MCP cfg)) of
        None \<Rightarrow> l
      | Some addr \<Rightarrow> acquire MCPEndpoint (note_event (Serving ''mcp'' addr) l))"

definition end_logged :: "main_end \<Rightarrow> main_log \<Rightarrow> main_log" where
  "end_logged why l =
     (case why of
        Signalled sg \<Rightarrow> note_event (Logged ''shutting down'') l
      | GrpcEnded None \<Rightarrow> l
      | GrpcEnded (Some err) \<Rightarrow> note_event (Logged ''gRPC server error'') l)"

text \<open>From the start of the gRPC server to the end of \<open>main\<close>, without the deferred calls.\<close>

definition daemon_serve ::
  "('db, 'l, 'f, 'w, 'pub, 'priv) main_libs \<Rightarrow> main_inputs \<Rightarrow> MainFlags \<Rightarrow> ('db, 'l, 'f, 'w, 'priv) running \<Rightarrow> main_log \<Rightarrow> main_log \<times> 'w" where
  "daemon_serve M i f rn l =
     (let L = ml_server M (rn_key rn); s = rn_server rn; cfg = rn_cfg rn;
          l1 = note_event (Serving ''grpc'' (GRPCListen cfg)) (announce L (flagMCP f) (rn_world rn) l)
      in if flagMCP f then (note_event Canceled (warn ''MCP stdio server error'' (mi_stdio i) l1), rn_world rn)
         else
           (let l2 = main_mcp_http f cfg l1;
                l3 = (if anycastRouter s \<noteq> None \<and> AutoRegister (cf_Anycast cfg) then note_event AutoRegistering l2 else l2);
                l4 = end_logged (mi_end i) l3;
                l5 = (case anycastRouter s of None \<Rightarrow> l4 | Some _ \<Rightarrow> note_event Withdrawn (acquire UnregisterContext l4))
            in (note_event Canceled l5, shutdown_unregister L s (rn_world rn))))"

definition daemon_main ::
  "('db, 'l, 'f, 'w, 'pub, 'priv) main_libs \<Rightarrow> main_inputs \<Rightarrow> MainFlags \<Rightarrow> 'w \<Rightarrow> main_exit \<times> main_event list" where
  "daemon_main M i f w =
     (case daemon_start M i f w of
        (Inl x, l) \<Rightarrow> (x, happened l)
      | (Inr rn, l) \<Rightarrow>
          (case daemon_serve M i f rn l of (l', _) \<Rightarrow> run_deferred (mi_returns i) (deferred l') (happened l')))"

end
