(* ===== verification/LifecycleFacts.thy ===== *)
theory LifecycleFacts
  imports Lifecycle "HOL-Library.Sublist"
begin

text \<open>
  What \<open>main\<close> guarantees: resources are given back in the reverse order of their acquisition, each once; the
  daemon is guarded before applications can call it; the configured policies hold for what peers and HTTP
  clients send to a started daemon; a restarted daemon has the tasks and the card of the one before.
\<close>

section \<open>What a run acquires\<close>

definition acquired :: "main_event list \<Rightarrow> resource list" where
  "acquired evs = List.map_filter (\<lambda>e. case e of Acquired r \<Rightarrow> Some r | _ \<Rightarrow> None) evs"

definition released :: "main_event list \<Rightarrow> resource list" where
  "released evs = List.map_filter (\<lambda>e. case e of Released r \<Rightarrow> Some r | _ \<Rightarrow> None) evs"

lemma acquired_simps [simp]:
  "acquired [] = []" "acquired (Acquired r # evs) = r # acquired evs" "acquired (xs @ ys) = acquired xs @ acquired ys"
  by (simp_all add: acquired_def List.map_filter_def)

lemma released_simps [simp]:
  "released [] = []" "released (Released r # evs) = r # released evs" "released (xs @ ys) = released xs @ released ys"
  by (simp_all add: released_def List.map_filter_def)

fun plain :: "main_event \<Rightarrow> bool" where
  "plain (Acquired r) = False"
| "plain (Released r) = False"
| "plain _ = True"

lemma plain_simps [simp]: "plain e \<Longrightarrow> acquired (e # evs) = acquired evs" "plain e \<Longrightarrow> released (e # evs) = released evs"
    "acquired (Released r # evs) = acquired evs" "released (Acquired r # evs) = released evs"
  by (cases e; simp add: acquired_def released_def List.map_filter_def)+

text \<open>The log has grown from \<open>l\<close> to \<open>l'\<close>: of the resources \<open>rs\<close> some were acquired, in this order, and their release was
  deferred; nothing was released; and every other event is a \<open>P\<close>.\<close>

definition grows :: "(main_event \<Rightarrow> bool) \<Rightarrow> resource list \<Rightarrow> main_log \<Rightarrow> main_log \<Rightarrow> bool" where
  "grows P rs l l' \<longleftrightarrow>
     (\<exists>evs. happened l' = happened l @ evs \<and> deferred l' = rev (acquired evs) @ deferred l
        \<and> subseq (acquired evs) rs \<and> released evs = [] \<and> (\<forall>e\<in>set evs. plain e \<longrightarrow> P e))"

named_theorems grow_intros

lemma grows_refl [grow_intros]: "grows P rs l l"
  by (simp add: grows_def)

lemma grows_note [grow_intros]: "grows P rs l l' \<Longrightarrow> plain e \<Longrightarrow> P e \<Longrightarrow> grows P rs l (note_event e l')"
  by (auto simp: grows_def note_event_def)

lemma grows_acquire: "grows P rs l l' \<Longrightarrow> grows P (rs @ [r]) l (acquire r l')"
  by (auto simp: grows_def acquire_def)

lemma grows_acquire1 [grow_intros]: "grows P [] l l' \<Longrightarrow> grows P [r] l (acquire r l')"
  using grows_acquire [of P "[]" l l' r] by simp

lemma grows_warn [grow_intros]: "grows P rs l l' \<Longrightarrow> P (Logged msg) \<Longrightarrow> grows P rs l (warn msg err l')"
  by (simp add: warn_def grows_note split: option.split)

lemma grows_trans: "grows P rs l l1 \<Longrightarrow> grows P rs' l1 l2 \<Longrightarrow> grows P (rs @ rs') l l2"
  by (auto simp: grows_def intro!: list_emb_append_mono)

lemma grows_mono: "grows P rs l l' \<Longrightarrow> subseq rs rs' \<Longrightarrow> grows P rs' l l'"
  unfolding grows_def by (meson subseq_order.order_trans)

lemma grows_weaken: "grows P rs l l' \<Longrightarrow> (\<And>e. P e \<Longrightarrow> Q e) \<Longrightarrow> grows Q rs l l'"
  unfolding grows_def by blast

lemma grows_give_up: "grows P rs l l1 \<Longrightarrow> P (Logged msg) \<Longrightarrow> give_up msg l1 = (x, l') \<Longrightarrow> grows P rs l l'"
  by (auto simp: give_up_def grows_note)

lemma grows_notes: "grows P rs l l1 \<Longrightarrow> (\<And>a. plain (g a) \<and> P (g a)) \<Longrightarrow> grows P rs l (fold (\<lambda>a. note_event (g a)) as l1)"
  by (induction as arbitrary: l1) (simp_all add: grows_note)

lemmas grows_step = grows_give_up grows_acquire1 grows_note grows_warn grows_refl

text \<open>What happens before the policies are installed: applications are not served and nothing is guarded, and the
  bridge serves only if it is enabled.\<close>

fun early :: "Config \<Rightarrow> main_event \<Rightarrow> bool" where
  "early cfg (Serving name addr) \<longleftrightarrow> name \<noteq> ''grpc'' \<and> (name = ''bridge'' \<longrightarrow> br_Enabled (cf_Bridge cfg))"
| "early cfg (Guarded name) = False"
| "early cfg (Printed line) = False"
| "early cfg _ = True"

definition unserved :: "main_event \<Rightarrow> bool" where
  "unserved e \<longleftrightarrow> (\<forall>addr. e \<noteq> Serving ''grpc'' addr)"

lemma early_unserved: "early cfg e \<Longrightarrow> unserved e"
  by (cases e) (auto simp: unserved_def)

lemma early_grows: "grows (early cfg) rs l l' \<Longrightarrow> grows unserved rs l l'"
  by (erule grows_weaken) (rule early_unserved)

subsection \<open>Each step\<close>

lemma main_config_grows: "main_config M f l = (x, l') \<Longrightarrow> grows unserved [] l l'"
  by (auto simp: main_config_def unserved_def split: if_splits sum.splits intro: grows_step)

lemma main_tracing_grows: "main_tracing M cfg l = (x, l') \<Longrightarrow> grows (early cfg) [Tracing] l l'"
  by (auto simp: main_tracing_def split: sum.splits intro: grows_step)

lemma main_storage_grows: "main_storage M cfg w l = (x, l') \<Longrightarrow> grows (early cfg) [Database] l l'"
  by (auto simp: main_storage_def split: sum.splits prod.splits intro: grows_step)

lemma main_host_grows:
  assumes "main_host M i L cfg d l = (x, l')"
  shows "grows (early cfg) [DaemonContext, P2PHost] l l'"
proof -
  have c: "grows (early cfg) [DaemonContext] l (acquire DaemonContext l)" by (intro grow_intros)
  then have g: "grows (early cfg) [DaemonContext, P2PHost] l (acquire DaemonContext l)" by (rule grows_mono) simp
  from grows_acquire [OF c, of P2PHost] have h: "grows (early cfg) [DaemonContext, P2PHost] l (acquire P2PHost (acquire DaemonContext l))" by simp
  show ?thesis
    using assms grows_give_up [OF g] grows_warn [OF h]
    by (auto simp: main_host_def Let_def split: sum.splits prod.splits)
qed

lemma main_services_grows:
  assumes "main_services M i L cfg d h l = (s, q, bridge, own, l')"
  shows "grows (early cfg) [A2ARouter, AnycastService, HTTPBridge, ANPBridge, MetricsEndpoint] l l'"
proof -
  obtain r q' l1 where 1: "main_router M L cfg d l = (r, q', l1)" by (metis prod_cases3)
  obtain ar l2 where 2: "main_anycast M i L cfg l1 = (ar, l2)" by fastforce
  obtain s' l3 where 3: "main_server L r h ar d l2 = (s', l3)" by fastforce
  obtain br l4 where 4: "main_bridge M i L cfg l3 = (br, l4)" and "br = bridge \<or> True" by fastforce
  obtain c l5 where 5: "main_anp s' cfg l4 = (c, l5)" by fastforce
  have "grows (early cfg) [A2ARouter] l l1"
    using 1 by (auto simp: main_router_def Let_def split: prod.splits sum.splits intro!: grow_intros)
  moreover have "grows (early cfg) [AnycastService] l1 l2"
    using 2 by (auto simp: main_anycast_def Let_def split: option.splits intro!: grow_intros)
  moreover have "grows (early cfg) [] l2 l3"
    using 3 by (auto simp: main_server_def intro!: grow_intros)
  moreover have "grows (early cfg) [HTTPBridge] l3 l4"
    using 4 by (auto simp: main_bridge_def split: if_splits intro!: grow_intros)
  moreover have "grows (early cfg) [ANPBridge] l4 l5"
    using 5 by (auto simp: main_anp_def split: if_splits intro!: grow_intros)
  moreover have "grows (early cfg) [MetricsEndpoint] l5 (main_metrics cfg l5)"
    by (auto simp: main_metrics_def intro!: grow_intros)
  ultimately have "grows (early cfg) ([A2ARouter] @ [AnycastService] @ [] @ [HTTPBridge] @ [ANPBridge] @ [MetricsEndpoint]) l (main_metrics cfg l5)"
    by (blast intro: grows_trans)
  with assms 1 2 3 4 5 show ?thesis by (simp add: main_services_def)
qed

lemma main_policies_grows:
  assumes "main_policies M cfg c l = (x, l')"
  shows "grows (early cfg) [Limiter, AuditFile] l l'"
proof -
  define l1 where "l1 = (if cfg_DefaultRPS (RateLimits (cf_Policy cfg)) > 0 then acquire Limiter l else l)"
  have "grows (early cfg) [Limiter] l l1" by (auto simp: l1_def intro!: grow_intros)
  then have "grows (early cfg) [Limiter, AuditFile] l l1" "grows (early cfg) [Limiter, AuditFile] l (acquire AuditFile l1)"
    using grows_acquire [of _ "[Limiter]" l l1 AuditFile] by (auto elim: grows_mono)
  with assms show ?thesis
    by (auto simp: main_policies_def l1_def Let_def split: sum.splits if_splits intro: grows_give_up)
qed

lemma main_nats_grows: "main_nats M f L cfg c w l = (x, l') \<Longrightarrow> grows (early cfg) [NATSLink] l l'"
  by (auto simp: main_nats_def Let_def split: if_splits prod.splits sum.splits intro: grows_step)

lemma main_proxy_grows: "main_proxy M i f L s d l = (x, l') \<Longrightarrow> grows (early cfg) [ProxyProcess] l l'"
  by (auto simp: main_proxy_def split: if_splits list.splits option.splits prod.splits sum.splits intro: grows_step)

lemma install_core_log:
  assumes "install_core M i L c s bridge l = (s', bridge', l')"
  shows "happened l' = happened l @ [Guarded ''grpc'', Guarded ''router''] @ (if bridge = None then [] else [Guarded ''bridge''])"
    and "deferred l' = deferred l"
  using assms by (auto simp: install_core_def note_event_def Let_def split: option.splits)

lemma main_connect_cases [consumes 1, case_names nats policies rest]:
  assumes "main_connect M i f L cfg key d w s q bridge own l = (x, l')"
  obtains y where "main_nats M f L cfg (daemon_core M L key) w l = (Inl y, l')" "x = Inl y"
  | c nats w1 l1 y where "main_nats M f L cfg (daemon_core M L key) w l = (Inr (c, nats, w1), l1)" "main_policies M cfg c l1 = (Inl y, l')" "x = Inl y"
  | c nats w1 l1 c' l2 s1 b1 l3 z where
      "main_nats M f L cfg (daemon_core M L key) w l = (Inr (c, nats, w1), l1)" "main_policies M cfg c l1 = (Inr c', l2)"
      "install_core M i L c' s bridge l2 = (s1, b1, l3)" "main_proxy M i f L s1 d l3 = (z, l')"
      "x = (case z of Inl y \<Rightarrow> Inl y | Inr (s2, d2, proxy) \<Rightarrow>
         Inr \<lparr>rn_cfg = cfg, rn_key = key, rn_server = s2, rn_queue = q, rn_bridge = b1, rn_anp_card = own,
              rn_nats = nats, rn_proxy = proxy, rn_db = d2, rn_world = w1\<rparr>)"
  using assms unfolding main_connect_def by (auto split: prod.splits sum.splits)

lemma main_connect_grows:
  assumes "main_connect M i f L cfg key d w s q bridge own l = (x, l')"
  shows "grows unserved [NATSLink, Limiter, AuditFile, ProxyProcess] l l'"
  using assms
proof (cases rule: main_connect_cases)
  case (nats y)
  from early_grows [OF main_nats_grows [OF this(1)]] show ?thesis by (rule grows_mono) simp
next
  case (policies c nats w1 l1 y)
  from early_grows [OF grows_trans [OF main_nats_grows [OF this(1)] main_policies_grows [OF this(2)]]]
  show ?thesis by (rule grows_mono) simp
next
  case (rest c nats w1 l1 c' l2 s1 b1 l3 z)
  from early_grows [OF grows_trans [OF main_nats_grows [OF this(1)] main_policies_grows [OF this(2)]]]
  have "grows unserved [NATSLink, Limiter, AuditFile] l l2" by simp
  moreover have "grows unserved [] l2 l3" using install_core_log [OF rest(3)] by (auto simp: grows_def unserved_def)
  moreover have "grows unserved [ProxyProcess] l3 l'" using early_grows [OF main_proxy_grows [OF rest(4)]] .
  ultimately show ?thesis using grows_trans [OF grows_trans] by fastforce
qed

definition start_order :: "resource list" where
  "start_order = [Tracing, Database, DaemonContext, P2PHost, A2ARouter, AnycastService, HTTPBridge, ANPBridge, MetricsEndpoint,
     NATSLink, Limiter, AuditFile, ProxyProcess]"

text \<open>How a run starts: the steps in turn, until one gives up.\<close>

lemma daemon_start_cases [consumes 1, case_names config tracing storage host connect]:
  assumes "daemon_start M i f w = (x, l)"
  obtains y where "main_config M f \<lparr>happened = [], deferred = []\<rparr> = (Inl y, l)" "x = Inl y"
  | cfg l0 y where "main_config M f \<lparr>happened = [], deferred = []\<rparr> = (Inr cfg, l0)" "main_tracing M cfg l0 = (Inl y, l)" "x = Inl y"
  | cfg l0 t l1 y where "main_config M f \<lparr>happened = [], deferred = []\<rparr> = (Inr cfg, l0)" "main_tracing M cfg l0 = (Inr t, l1)"
      "main_storage M cfg w l1 = (Inl y, l)" "x = Inl y"
  | cfg l0 t l1 key d w2 l2 y where "main_config M f \<lparr>happened = [], deferred = []\<rparr> = (Inr cfg, l0)" "main_tracing M cfg l0 = (Inr t, l1)"
      "main_storage M cfg w l1 = (Inr (key, d, w2), l2)" "main_host M i (ml_server M key) cfg d l2 = (Inl y, l)" "x = Inl y"
  | cfg l0 t l1 key d w2 l2 h l3 s q bridge own l4 where
      "main_config M f \<lparr>happened = [], deferred = []\<rparr> = (Inr cfg, l0)" "main_tracing M cfg l0 = (Inr t, l1)"
      "main_storage M cfg w l1 = (Inr (key, d, w2), l2)" "main_host M i (ml_server M key) cfg d l2 = (Inr h, l3)"
      "main_services M i (ml_server M key) cfg d h l3 = (s, q, bridge, own, l4)"
      "main_connect M i f (ml_server M key) cfg key d w2 s q bridge own l4 = (x, l)"
  using assms unfolding daemon_start_def
  by (auto simp: Let_def split: prod.splits sum.splits)

lemma daemon_start_grows:
  assumes "daemon_start M i f w = (x, l)"
  shows "grows unserved start_order \<lparr>happened = [], deferred = []\<rparr> l"
proof -
  note t = main_config_grows early_grows [OF main_tracing_grows] early_grows [OF main_storage_grows]
    early_grows [OF main_host_grows] early_grows [OF main_services_grows] main_connect_grows
  from assms show ?thesis
  proof (cases rule: daemon_start_cases)
    case (config y)
    from t(1) [OF this(1)] show ?thesis by (rule grows_mono) simp
  next
    case (tracing cfg l0 y)
    from grows_trans [OF t(1) [OF tracing(1)] t(2) [OF tracing(2)]]
    show ?thesis by (rule grows_mono) (simp add: start_order_def)
  next
    case (storage cfg l0 t l1 y)
    from grows_trans [OF grows_trans [OF t(1) [OF storage(1)] t(2) [OF storage(2)]] t(3) [OF storage(3)]]
    show ?thesis by (rule grows_mono) (simp add: start_order_def)
  next
    case (host cfg l0 t l1 key d w2 l2 y)
    from grows_trans [OF grows_trans [OF grows_trans [OF t(1) [OF host(1)] t(2) [OF host(2)]] t(3) [OF host(3)]] t(4) [OF host(4)]]
    show ?thesis by (rule grows_mono) (simp add: start_order_def)
  next
    case (connect cfg l0 t l1 key d w2 l2 h l3 s q bridge own l4)
    from grows_trans [OF grows_trans [OF grows_trans [OF grows_trans [OF grows_trans [OF t(1) [OF connect(1)] t(2) [OF connect(2)]]
            t(3) [OF connect(3)]] t(4) [OF connect(4)]] t(5) [OF connect(5)]] t(6) [OF connect(6)]]
    show ?thesis by (simp add: start_order_def)
  qed
qed

definition unbridged :: "main_event \<Rightarrow> bool" where
  "unbridged e \<longleftrightarrow> (\<forall>addr. e \<noteq> Serving ''bridge'' addr)"

lemma announce_grows: "grows unbridged [] l l1 \<Longrightarrow> grows unbridged [] l (announce L mcp w l1)"
  unfolding announce_def by (cases mcp) (simp_all add: grows_notes grows_note unbridged_def)

lemma daemon_serve_grows:
  assumes "daemon_serve M i f rn l = (l', w')"
  shows "grows unbridged [MCPEndpoint, UnregisterContext] l l'"
proof -
  define l1 where "l1 = note_event (Serving ''grpc'' (GRPCListen (rn_cfg rn))) (announce (ml_server M (rn_key rn)) (flagMCP f) (rn_world rn) l)"
  have g1: "grows unbridged [] l l1" unfolding l1_def by (intro grows_note announce_grows grows_refl) (simp_all add: unbridged_def)
  show ?thesis
  proof (cases "flagMCP f")
    case True
    with assms have "l' = note_event Canceled (warn ''MCP stdio server error'' (mi_stdio i) l1)"
      by (auto simp: daemon_serve_def l1_def Let_def)
    with g1 have "grows unbridged [] l l'" by (auto intro!: grow_intros simp: unbridged_def)
    then show ?thesis by (auto elim: grows_mono)
  next
    case False
    define l4 where "l4 = end_logged (mi_end i) (if anycastRouter (rn_server rn) \<noteq> None \<and> AutoRegister (cf_Anycast (rn_cfg rn))
        then note_event AutoRegistering (main_mcp_http f (rn_cfg rn) l1) else main_mcp_http f (rn_cfg rn) l1)"
    have "grows unbridged [MCPEndpoint] l (main_mcp_http f (rn_cfg rn) l1)"
      using g1 grows_mono [OF g1, of "[MCPEndpoint]"] by (auto simp: main_mcp_http_def split: option.split intro!: grow_intros simp: unbridged_def)
    then have g4: "grows unbridged [MCPEndpoint] l l4"
      by (auto simp: l4_def end_logged_def split: main_end.split option.split intro!: grow_intros simp: unbridged_def)
    have "l' = (case anycastRouter (rn_server rn) of None \<Rightarrow> note_event Canceled l4
        | Some _ \<Rightarrow> note_event Canceled (note_event Withdrawn (acquire UnregisterContext l4)))"
      using assms False by (auto simp: daemon_serve_def l1_def l4_def Let_def split: option.splits)
    with g4 grows_acquire [OF g4, of UnregisterContext] grows_mono [OF g4, of "[MCPEndpoint, UnregisterContext]"] show ?thesis
      by (auto split: option.splits intro!: grow_intros simp: unbridged_def)
  qed
qed

section \<open>Resources are given back\<close>

definition resource_order :: "resource list" where
  "resource_order = start_order @ [MCPEndpoint, UnregisterContext]"

lemma run_deferred_spec:
  assumes "run_deferred returns rs evs = (x, evs')"
  shows "\<exists>gone rest. rs = gone @ rest \<and> evs' = evs @ map Released gone
    \<and> (x = Exit 0 \<and> rest = [] \<or> x = Hang \<and> rest \<noteq> [] \<and> \<not> returns (hd rest)) \<and> list_all returns gone"
  using assms
proof (induction returns rs evs rule: run_deferred.induct)
  case (2 returns r rs evs)
  show ?case
  proof (cases "returns r")
    case True
    with 2 obtain gone rest where g: "rs = gone @ rest" "evs' = (evs @ [Released r]) @ map Released gone"
        "x = Exit 0 \<and> rest = [] \<or> x = Hang \<and> rest \<noteq> [] \<and> \<not> returns (hd rest)" "list_all returns gone"
      by auto
    with True show ?thesis by (intro exI [of _ "r # gone"] exI [of _ rest]) simp
  next
    case False
    with 2 show ?thesis by (intro exI [of _ "[]"] exI [of _ "r # rs"]) simp
  qed
qed simp

lemma subseq_distinct: "subseq xs ys \<Longrightarrow> distinct ys \<Longrightarrow> distinct xs"
  by (induction rule: list_emb.induct) (auto dest: list_emb_set)

lemma released_map [simp]: "released (map Released rs) = rs" "acquired (map Released rs) = []"
  by (induction rs) simp_all

lemma start_exits:
  assumes "daemon_start M i f w = (Inl x, l)"
  shows "x = Exit 0 \<and> flagVersion f \<or> x = Exit 1 \<or> x = Hang \<and> flagMCPProxy f \<noteq> []"
proof -
  have up: "give_up msg l1 = (Inl y, l2) \<Longrightarrow> y = Exit 1" for msg l1 l2 and y :: main_exit by (simp add: give_up_def)
  have policies: "main_policies M cfg c l1 = (Inl y, l2) \<Longrightarrow> y = Exit 1" for cfg c l1 l2 y
    by (auto simp: main_policies_def Let_def give_up_def split: sum.splits)
  have nats: "main_nats M f L cfg c w1 l1 = (Inl y, l2) \<Longrightarrow> y = Exit 1" for L cfg c w1 l1 l2 y
    by (auto simp: main_nats_def Let_def give_up_def split: if_splits sum.splits prod.splits)
  have proxy: "main_proxy M i f L s d l1 = (Inl y, l2) \<Longrightarrow> y = Exit 1 \<or> y = Hang \<and> flagMCPProxy f \<noteq> []" for L s d l1 l2 y
    by (auto simp: main_proxy_def give_up_def split: if_splits sum.splits prod.splits list.splits option.splits)
  from assms show ?thesis
  proof (cases rule: daemon_start_cases)
    case (connect cfg l0 t l1 key d w2 l2 h l3 s q bridge own l4)
    from connect(6) show ?thesis
      by (auto simp: main_connect_def split: sum.splits prod.splits dest: nats policies proxy)
  qed (auto simp: main_config_def main_tracing_def main_storage_def main_host_def give_up_def Let_def split: if_splits sum.splits prod.splits)
qed

text \<open>A run whose start succeeds: the events of serving, then the deferred calls that return.\<close>

lemma main_started [consumes 2, case_names ran]:
  assumes "daemon_main M i f w = (x, evs)" and "daemon_start M i f w = (Inr rn, l)"
  obtains evs1 gone rest where
    "evs = happened l @ evs1 @ map Released gone" "rev (acquired evs1) @ deferred l = gone @ rest"
    "subseq (acquired evs1) [MCPEndpoint, UnregisterContext]" "released evs1 = []" "\<forall>e\<in>set evs1. plain e \<longrightarrow> unbridged e"
    "x = Exit 0 \<and> rest = [] \<or> x = Hang \<and> rest \<noteq> [] \<and> \<not> mi_returns i (hd rest)"
proof -
  obtain l' w' where sv: "daemon_serve M i f rn l = (l', w')" by fastforce
  obtain evs1 where h: "happened l' = happened l @ evs1" "deferred l' = rev (acquired evs1) @ deferred l"
      "subseq (acquired evs1) [MCPEndpoint, UnregisterContext]" "released evs1 = []" "\<forall>e\<in>set evs1. plain e \<longrightarrow> unbridged e"
    using daemon_serve_grows [OF sv] by (auto simp: grows_def)
  have "run_deferred (mi_returns i) (deferred l') (happened l') = (x, evs)"
    using assms sv by (simp add: daemon_main_def)
  from run_deferred_spec [OF this] obtain gone rest where "deferred l' = gone @ rest" "evs = happened l' @ map Released gone"
      "x = Exit 0 \<and> rest = [] \<or> x = Hang \<and> rest \<noteq> [] \<and> \<not> mi_returns i (hd rest)"
    by blast
  with h show ?thesis by (intro that [of evs1 gone rest]) simp_all
qed

text \<open>
  C11. Resources are given back. In every run of \<open>main\<close> each resource is acquired at most once, in the order of the
  code, and what is released is released in the reverse order, each at most once. A run that ends with
  status 0 has released everything it acquired; a start that fails ends with status 1 and releases
  nothing, because \<open>os.Exit\<close> skips the deferred calls; and a run hangs only in the start of a proxy or
  because the closing of some resource does not return, and then that resource and everything acquired
  before it, the database included, stays open.
\<close>

theorem main_releases:
  assumes "daemon_main M i f w = (x, evs)"
  shows "subseq (acquired evs) resource_order \<and> distinct (acquired evs)
    \<and> (\<exists>kept. rev (acquired evs) = released evs @ kept
        \<and> (x = Exit 0 \<and> kept = [] \<or> x = Exit 1 \<and> released evs = []
           \<or> x = Hang \<and> (flagMCPProxy f \<noteq> [] \<and> released evs = [] \<or> kept \<noteq> [] \<and> \<not> mi_returns i (hd kept))))"
proof -
  have dist: "subseq rs resource_order \<Longrightarrow> distinct rs" for rs
    by (erule subseq_distinct) (simp add: resource_order_def start_order_def)
  obtain y l where st: "daemon_start M i f w = (y, l)" by fastforce
  obtain evs0 where g: "happened l = evs0" "deferred l = rev (acquired evs0)" "subseq (acquired evs0) start_order" "released evs0 = []"
    using daemon_start_grows [OF st] by (auto simp: grows_def)
  show ?thesis
  proof (cases y)
    case (Inl z)
    with assms st g have e: "x = z" "evs = evs0" by (simp_all add: daemon_main_def)
    have "subseq (acquired evs) resource_order"
      using list_emb_append_mono [OF g(3), of "[]" "[MCPEndpoint, UnregisterContext]"] by (simp add: e resource_order_def)
    moreover have "x = Exit 0 \<Longrightarrow> acquired evs = []"
      using st Inl e g(1) start_exits [of M i f w z l]
      by (cases rule: daemon_start_cases) (auto simp: main_config_def note_event_def daemon_start_def split: if_splits)
    ultimately show ?thesis
      using dist start_exits [of M i f w z l] st Inl e g(4) by auto
  next
    case (Inr rn)
    from assms st [unfolded Inr] show ?thesis
    proof (cases rule: main_started)
      case (ran evs1 gone rest)
      have a: "acquired evs = acquired evs0 @ acquired evs1" "released evs = gone" using ran(1,4) g by simp_all
      have "subseq (acquired evs) resource_order"
        unfolding a resource_order_def using g(3) ran(3) by (rule list_emb_append_mono)
      moreover have "rev (acquired evs) = released evs @ rest" using a ran(2) g(2) by simp
      ultimately show ?thesis using dist ran(6) by blast
    qed
  qed
qed

section \<open>A started daemon\<close>

lemma main_config_ok: "main_config M f l = (Inr cfg, l') \<Longrightarrow> l' = l"
  by (auto simp: main_config_def give_up_def split: if_splits sum.splits)

lemma main_services_parts:
  assumes "main_services M i L cfg d h l = (s, q, bridge, own, l')"
  shows "\<exists>ar. s = server_New L (NewRouter (snd (RecoverTasks (lib_bolt (sl_router L)) (lib_json (sl_router L)) d (engine_SetStore NewEngine))) (0, core_New))
        h ar True (Some NewStreamManager) d"
    and "bridge = (if br_Enabled (cf_Bridge cfg)
        then Some (NewInboundHandler (Some (HandleInboundTask (sl_router L) (mi_router i) (ml_router_text M) (sl_self L)))) else None)"
    and "Handling ''/agentanycast/a2a/1.0'' \<in> set (happened l')"
    and "own = (if anp_Enabled (cf_ANP cfg) then Some (GetLocalCard s) else None)"
  using assms
  by (auto simp: main_services_def main_router_def main_server_def main_bridge_def main_anp_def main_metrics_def note_event_def
      acquire_def Let_def split: prod.splits if_splits)

lemma main_host_parts:
  assumes "main_host M i L cfg d l = (Inr h, l')"
  shows "h = snd (RecoverCards (lib_bolt (sl_router L)) (sl_peer_Decode L) (mi_card_order i) d \<lparr>peerCards = Map.empty, host_store = True\<rparr>)"
  using assms by (auto simp: main_host_def NewHost_def host_SetStore_def give_up_def Let_def split: sum.splits prod.splits option.splits)

text \<open>The policies of the core are the configured ones.\<close>

definition configured_core :: "('db, 'l, 'f, 'w, 'pub, 'priv) main_libs \<Rightarrow> PolicyConfig \<Rightarrow> ('l, 'f, 'w) Core \<Rightarrow> bool" where
  "configured_core M p c \<longleftrightarrow>
     acl c = (if ACLRules p \<noteq> [] then Some (ACLRules p) else None)
     \<and> rateLimit c = (if cfg_DefaultRPS (RateLimits p) > 0 then Some (NewRateLimiter (RateLimits p)) else None)
     \<and> (AuditLogPath p \<noteq> [] \<longrightarrow> (\<exists>file. ml_OpenFile M (AuditLogPath p) = Inr file \<and> audit c = Some file))
     \<and> (AuditLogPath p = [] \<longrightarrow> audit c = None)"

lemma main_core_configured:
  assumes "main_nats M f L cfg (daemon_core M L key) w l = (Inr (c, nats, w1), l1)" and "main_policies M cfg c l1 = (Inr c', l2)"
  shows "configured_core M (cf_Policy cfg) c'"
proof -
  have "acl (daemon_core M L key) = None" "rateLimit (daemon_core M L key) = None" "audit (daemon_core M L key) = None"
    by (simp_all add: daemon_core_def core_New_def RegisterProtocol_def RegisterTransport_def SetEncryptionKey_def Let_def split: option.splits)
  then have "acl c = None" "rateLimit c = None" "audit c = None"
    using assms(1) by (auto simp: main_nats_def RegisterTransport_def give_up_def Let_def split: if_splits sum.splits prod.splits)
  then show ?thesis
    using assms(2)
    by (auto simp: main_policies_def install_policies_def configured_core_def SetACLManager_def SetRateLimiter_def SetAuditLogger_def
        NewAuditLogger_def give_up_def Let_def split: if_splits sum.splits)
qed

lemma main_proxy_parts:
  assumes "main_proxy M i f L s d l = (Inr (s', d', x), l')"
  shows "x = None \<and> s' = s \<and> d' = d \<and> flagMCPProxy f = [] \<or> (\<exists>y. x = Some y \<and> wire_proxy L y s d = (s', d'))"
  using assms
  by (auto simp: main_proxy_def give_up_def split: if_splits list.splits option.splits prod.splits sum.splits)

lemma wire_proxy_parts:
  assumes "wire_proxy L y s d = (s', d')"
  obtains s1 where "fold (RegisterProxySkill L) (ToolsToSkills (px_tools y)) (s, d) = (s1, d')"
    and "srv_card s' = srv_card s1" and "srv_router s' = srv_router s1"
proof -
  obtain s1 d1 where f: "fold (RegisterProxySkill L) (ToolsToSkills (px_tools y)) (s, d) = (s1, d1)" by fastforce
  with assms have "s' = s1\<lparr>mcpProxySkills := Some (mt_Name ` set (px_tools y))\<rparr>" "d' = d1"
    by (simp_all add: wire_proxy_def proxy_Skills_def proxy_Tools_def RegisterMCPProxyHandler_def)
  with f show ?thesis by (intro that [of s1]) simp_all
qed

lemma wire_proxy_frame: "wire_proxy L y s d = (s', d') \<Longrightarrow> srv_router s' = srv_router s"
  by (erule wire_proxy_parts) (simp add: register_skills_effect)

lemma wire_proxy_card:
  assumes "wire_proxy L y s d = (s', d')" and "srv_card s = Some c"
  shows "srv_card s' = Some (c\<lparr>card_Skills := card_Skills c @ ToolsToSkills (px_tools y)\<rparr>)"
proof -
  obtain s1 where s1: "fold (RegisterProxySkill L) (ToolsToSkills (px_tools y)) (s, d) = (s1, d')" "srv_card s' = srv_card s1"
    using wire_proxy_parts [OF assms(1)] by blast
  show ?thesis
    using register_skills_effect [OF s1(1)] s1 assms(2)
    by (cases "ToolsToSkills (px_tools y)") (auto simp: card_or_new_def)
qed

lemma server_New_router [simp]: "srv_router (server_New L r h ar ob sm d) = r" "srv_host (server_New L r h ar ob sm d) = h"
  by (simp_all add: server_New_def Let_def split: sum.split option.split)

text \<open>Everything that the theorems below use of a start.\<close>

lemma started [consumes 1, case_names started]:
  assumes "daemon_start M i f w = (Inr rn, l)"
  obtains d0 h ar c s pre post where
    "load_configuration (ml_read_file M) (ml_toml M) (ml_ParseFloat M) (ml_env M) (ml_home M) (flagConfigPath f) (Flags.truncate f) = Inr (rn_cfg rn)"
    "store_Open (ml_mkdirAll M) (ml_boltOpen M) (ml_createBucket M) (StorePath (rn_cfg rn)) = Inr d0"
    "h = snd (RecoverCards (lib_bolt (sl_router (ml_server M (rn_key rn)))) (sl_peer_Decode (ml_server M (rn_key rn))) (mi_card_order i) d0
        \<lparr>peerCards = Map.empty, host_store = True\<rparr>)"
    "s = server_New (ml_server M (rn_key rn)) (NewRouter (snd (RecoverTasks (lib_bolt (sl_router (ml_server M (rn_key rn))))
        (lib_json (sl_router (ml_server M (rn_key rn)))) d0 (engine_SetStore NewEngine))) (0, core_New)) h ar True (Some NewStreamManager) d0"
    "configured_core M (cf_Policy (rn_cfg rn)) c"
    "srv_router (rn_server rn) = (srv_router s)\<lparr>policy_state := (0, c),
        inboundPolicy := Some (core_policy (sl_core (ml_server M (rn_key rn))) (mi_feed i))\<rparr>"
    "rn_bridge rn = (if br_Enabled (cf_Bridge (rn_cfg rn))
        then Some \<lparr>sender = Some (HandleInboundTask (sl_router (ml_server M (rn_key rn))) (mi_router i) (ml_router_text M) (sl_self (ml_server M (rn_key rn)))),
                   policy = Some (daemon_http_policy (ml_core_text M) (core_policy (sl_core (ml_server M (rn_key rn))) (mi_feed i)))\<rparr>
        else None)"
    "happened l = pre @ [Guarded ''grpc'', Guarded ''router''] @ (if br_Enabled (cf_Bridge (rn_cfg rn)) then [Guarded ''bridge''] else []) @ post"
    "Handling ''/agentanycast/a2a/1.0'' \<in> set pre" "\<forall>e\<in>set pre \<union> set post. plain e \<longrightarrow> early (rn_cfg rn) e"
    "rn_proxy rn = None \<and> rn_server rn = (SetConnectionCore c s)\<lparr>srv_router := srv_router (rn_server rn)\<rparr> \<and> rn_db rn = d0
      \<or> (\<exists>y. rn_proxy rn = Some y \<and> wire_proxy (ml_server M (rn_key rn)) y
          ((SetConnectionCore c s)\<lparr>srv_router := srv_router (rn_server rn)\<rparr>) d0 = (rn_server rn, rn_db rn))"
  using assms
proof (cases rule: daemon_start_cases)
  case (connect cfg l0 t l1 key d w2 l2 h l3 s q bridge own l4)
  let ?L = "ml_server M key"
  from connect(6) show ?thesis
  proof (cases rule: main_connect_cases)
    case (rest c nats w1 m1 c' m2 s1 b1 m3 z)
    from rest(5) obtain s2 d2 x where z: "z = Inr (s2, d2, x)" by (auto split: sum.splits prod.splits)
    with rest(5) have rn: "rn_cfg rn = cfg" "rn_key rn = key" "rn_server rn = s2" "rn_bridge rn = b1" "rn_proxy rn = x" "rn_db rn = d2"
      by auto
    have cfg: "load_configuration (ml_read_file M) (ml_toml M) (ml_ParseFloat M) (ml_env M) (ml_home M) (flagConfigPath f) (Flags.truncate f) = Inr cfg"
      using connect(1) by (auto simp: main_config_def give_up_def split: if_splits sum.splits)
    have l0: "happened l0 = []" using main_config_ok [OF connect(1)] by simp
    have op: "store_Open (ml_mkdirAll M) (ml_boltOpen M) (ml_createBucket M) (StorePath cfg) = Inr d"
      using connect(3) by (auto simp: main_storage_def give_up_def split: sum.splits prod.splits)
    note parts = main_services_parts [OF connect(5)]
    from parts(1) obtain ar where s: "s = server_New ?L (NewRouter (snd (RecoverTasks (lib_bolt (sl_router ?L)) (lib_json (sl_router ?L)) d
        (engine_SetStore NewEngine))) (0, core_New)) h ar True (Some NewStreamManager) d" by blast
    have s1: "s1 = (SetConnectionCore c' s)\<lparr>srv_router := (srv_router s)\<lparr>policy_state := (0, c'),
        inboundPolicy := Some (core_policy (sl_core ?L) (mi_feed i))\<rparr>\<rparr>"
      using rest(3) by (auto simp: install_core_def SetConnectionCore_def SetInboundPolicy_def s NewRouter_def Let_def)
    have b1: "b1 = map_option (bridge_SetInboundPolicy (Some (daemon_http_policy (ml_core_text M) (core_policy (sl_core ?L) (mi_feed i))))) bridge"
      using rest(3) by (auto simp: install_core_def Let_def)
    note px = main_proxy_parts [OF rest(4) [unfolded z]]
    have r2: "srv_router s2 = srv_router s1" using px wire_proxy_frame by auto
    have "grows (early cfg) (([Tracing] @ [Database]) @ [DaemonContext, P2PHost]) l0 l3"
      by (rule grows_trans [OF grows_trans [OF main_tracing_grows [OF connect(2)] main_storage_grows [OF connect(3)]] main_host_grows [OF connect(4)]])
    from grows_trans [OF this main_services_grows [OF connect(5)]] grows_trans [OF main_nats_grows [OF rest(1)] main_policies_grows [OF rest(2)]]
    obtain rs where "grows (early cfg) rs l0 m2" by (blast intro: grows_trans)
    with l0 have pre: "\<forall>e\<in>set (happened m2). plain e \<longrightarrow> early cfg e" by (auto simp: grows_def)
    have hand: "Handling ''/agentanycast/a2a/1.0'' \<in> set (happened m2)"
      using parts(3) grows_trans [OF main_nats_grows [OF rest(1)] main_policies_grows [OF rest(2)]] by (auto simp: grows_def)
    obtain post where post: "happened l = happened m3 @ post" "\<forall>e\<in>set post. plain e \<longrightarrow> early cfg e"
      using main_proxy_grows [OF rest(4), of cfg] by (auto simp: grows_def)
    show ?thesis
    proof (rule that [of d h s ar c' "happened m2" post])
      show "happened l = happened m2 @ [Guarded ''grpc'', Guarded ''router''] @
          (if br_Enabled (cf_Bridge (rn_cfg rn)) then [Guarded ''bridge''] else []) @ post"
        using post(1) install_core_log(1) [OF rest(3)] parts(2) rn by simp
      show "rn_bridge rn = (if br_Enabled (cf_Bridge (rn_cfg rn))
        then Some \<lparr>sender = Some (HandleInboundTask (sl_router (ml_server M (rn_key rn))) (mi_router i) (ml_router_text M) (sl_self (ml_server M (rn_key rn)))),
                   policy = Some (daemon_http_policy (ml_core_text M) (core_policy (sl_core (ml_server M (rn_key rn))) (mi_feed i)))\<rparr>
        else None)"
        using b1 parts(2) rn by (simp add: NewInboundHandler_def bridge_SetInboundPolicy_def)
      show "srv_router (rn_server rn) = (srv_router s)\<lparr>policy_state := (0, c'),
          inboundPolicy := Some (core_policy (sl_core (ml_server M (rn_key rn))) (mi_feed i))\<rparr>"
        using r2 rn s1 by simp
      show "rn_proxy rn = None \<and> rn_server rn = (SetConnectionCore c' s)\<lparr>srv_router := srv_router (rn_server rn)\<rparr> \<and> rn_db rn = d
        \<or> (\<exists>y. rn_proxy rn = Some y \<and> wire_proxy (ml_server M (rn_key rn)) y
            ((SetConnectionCore c' s)\<lparr>srv_router := srv_router (rn_server rn)\<rparr>) d = (rn_server rn, rn_db rn))"
        using px rn r2 s1 by auto
    qed (use cfg op main_host_parts [OF connect(4)] s main_core_configured [OF rest(1,2)] hand pre post(2) rn in auto)
  qed simp_all
qed simp_all

section \<open>Guarded before it is called\<close>

lemma split_after:
  assumes "x \<notin> set as" and "p @ x # q = as @ bs"
  shows "\<exists>c. p = as @ c \<and> bs = c @ x # q"
  using assms
proof (induction as arbitrary: p)
  case (Cons a as)
  then show ?case by (cases p) auto
qed simp


section \<open>The configured policies\<close>

text \<open>The policy of a router is the Connection Core with the given rules.\<close>

definition ruled_by ::
  "('l, 'f) core_libs \<Rightarrow> (nat \<Rightarrow> core_inputs) \<Rightarrow> ACLRule list \<Rightarrow> (nat \<times> ('l, 'f, 'w) Core) Router \<Rightarrow> bool" where
  "ruled_by L feed rules r \<longleftrightarrow>
     inboundPolicy r = Some (core_policy L feed) \<and> acl (snd (policy_state r)) = (if rules = [] then None else Some rules)"

lemma CheckInbound_acl: "CheckInbound L i src skill eid c = (err, c') \<Longrightarrow> acl c' = acl c"
  by (auto simp: CheckInbound_def rate_check_def core_Log_def Let_def split: option.splits prod.splits bool.splits if_splits)

lemma move_task_policy:
  "move_task L i k s ps m arts r d = (r', d') \<Longrightarrow> inboundPolicy r' = inboundPolicy r \<and> policy_state r' = policy_state r"
  by (auto simp: move_task_def notifyUpdate_def split: prod.splits option.splits)

lemma dispatch_policy:
  assumes "dispatch L i p env r d = (ack, r', d')"
  shows "inboundPolicy r' = inboundPolicy r \<and> policy_state r' = policy_state r"
  using assms
  by (auto simp: dispatch_def handleSendTask_def handleTaskStatusUpdate_def handleTaskComplete_def handleTaskFail_def handleTaskCancel_def
      handleAck_def Let_def split: pb_EnvelopeType.splits option.splits prod.splits if_splits dest: move_task_policy)

lemma HandleMessage_ruled:
  assumes "ruled_by CL feed rules r" and "HandleMessage L i p dat (r, d, w) = (r', d', w')"
  shows "ruled_by CL feed rules r'"
proof (cases "pb_Unmarshal (lib_pb L) dat")
  case (Some env)
  obtain ok r1 where c: "policy_check p env r = (ok, r1)" by fastforce
  have r1: "ruled_by CL feed rules r1"
    using c assms(1) by (auto simp: policy_check_def ruled_by_def core_policy_def split: if_splits option.splits prod.splits dest: CheckInbound_acl)
  obtain dup r2 where dd: "dedup_check env r1 = (dup, r2)" by fastforce
  then have "inboundPolicy r2 = inboundPolicy r1 \<and> policy_state r2 = policy_state r1"
    by (auto simp: dedup_check_def isDuplicate_def Let_def split: if_splits)
  with r1 have r2: "ruled_by CL feed rules r2" by (simp add: ruled_by_def)
  obtain ack r3 d3 where "dispatch L i p env r2 d = (ack, r3, d3)" by (metis prod_cases3)
  with dispatch_policy [OF this] assms(2) Some c dd r1 r2 show ?thesis
    by (auto simp: HandleMessage_def ruled_by_def split: bool.splits)
qed (use assms in \<open>simp add: HandleMessage_def\<close>)

lemma receive_all_ruled:
  "ruled_by CL feed rules r \<Longrightarrow> receive_all L ms (r, d, w) = (r', d', w') \<Longrightarrow> ruled_by CL feed rules r'"
proof (induction ms arbitrary: r d w)
  case (Cons m ms)
  obtain i p dat where m: "m = (i, p, dat)" by (metis prod_cases3)
  obtain r1 d1 w1 where "HandleMessage L i p dat (r, d, w) = (r1, d1, w1)" by (metis prod_cases3)
  with HandleMessage_ruled [OF Cons.prems(1) this] Cons.IH [of r1 d1 w1] Cons.prems(2) m show ?case by simp
qed simp

lemma ruled_denies:
  assumes "ruled_by CL feed rules r" and "CheckAccess rules src skill \<noteq> None"
  shows "core_denies CL feed src skill (policy_state r)"
proof -
  have "rules \<noteq> []" using assms(2) by (auto simp: CheckAccess_def)
  with assms show ?thesis by (auto simp: ruled_by_def core_denies_def verdict_of_def acl_check_def)
qed

text \<open>
  C5. The access rules of the configuration file hold end to end. Start the daemon, and let any peers send any
  messages. A message of a peer that the configured rules deny for the message's skill then changes
  nothing but the state of the policy itself: no task, no stored byte, nothing is sent; and an HTTP
  request for a skill that the rules deny to anonymous sources is answered with an error, and likewise
  changes only the state of the policy.
\<close>

theorem configured_rules_enforced:
  assumes "daemon_start M i f w = (Inr rn, l)" and "L = sl_router (ml_server M (rn_key rn))"
    and "receive_all L ms (srv_router (rn_server rn), rn_db rn, rn_world rn) = (r, d, v)"
    and "rules = ACLRules (cf_Policy (rn_cfg rn))"
  shows "(pb_Unmarshal (lib_pb L) dat = Some env \<and> env_Type env \<noteq> ENVELOPE_TYPE_ACK
        \<and> CheckAccess rules \<lparr>PeerID = p, DIDKey = []\<rparr> (extractSkillID env) \<noteq> None \<longrightarrow>
      (\<exists>ps. HandleMessage L ri p dat (r, d, v) = (r\<lparr>policy_state := ps\<rparr>, d, v)))
    \<and> (rn_bridge rn = Some h \<and> js_get_params J (rq_Params req) = Inr params
        \<and> CheckAccess rules \<lparr>PeerID = [], DIDKey = []\<rparr> (sp_TargetSkillID params) \<noteq> None \<longrightarrow>
      (\<exists>msg ps. bridge_handleSendTask J bi h req rw (r, d, v) =
        (writeError J (rq_ID req) (-32000) (''access denied: '' @ msg) rw, (r\<lparr>policy_state := ps\<rparr>, d, v))))"
proof (intro conjI impI; elim conjE)
  let ?C = "sl_core (ml_server M (rn_key rn))"
  have r: "ruled_by ?C (mi_feed i) rules r"
  proof (rule receive_all_ruled [OF _ assms(3)])
    from assms(1) show "ruled_by ?C (mi_feed i) rules (srv_router (rn_server rn))"
      by (cases rule: started) (simp add: ruled_by_def configured_core_def assms(4))
  qed
  show "\<exists>ps. HandleMessage L ri p dat (r, d, v) = (r\<lparr>policy_state := ps\<rparr>, d, v)"
    if "pb_Unmarshal (lib_pb L) dat = Some env" "env_Type env \<noteq> ENVELOPE_TYPE_ACK"
      "CheckAccess rules \<lparr>PeerID = p, DIDKey = []\<rparr> (extractSkillID env) \<noteq> None"
    by (rule exI, rule core_gate.message_stopped [OF _ that(1,2) ruled_denies [OF r that(3)]]) (use r in \<open>simp add: ruled_by_def\<close>)
  show "\<exists>msg ps. bridge_handleSendTask J bi h req rw (r, d, v) =
      (writeError J (rq_ID req) (-32000) (''access denied: '' @ msg) rw, (r\<lparr>policy_state := ps\<rparr>, d, v))"
    if h: "rn_bridge rn = Some h" and "js_get_params J (rq_Params req) = Inr params"
      and a: "CheckAccess rules \<lparr>PeerID = [], DIDKey = []\<rparr> (sp_TargetSkillID params) \<noteq> None"
  proof -
    from assms(1) h have "policy h = Some (daemon_http_policy (ml_core_text M) (core_policy ?C (mi_feed i)))" "sender h \<noteq> None"
      by (cases rule: started; auto split: if_splits)+
    moreover obtain err ps where "core_policy ?C (mi_feed i) \<lparr>PeerID = [], DIDKey = []\<rparr> (sp_TargetSkillID params) [] (policy_state r) = (Some err, ps)"
      using core_gate.refuses [OF ruled_denies [OF r a]] by blast
    ultimately have "bridge_handleSendTask J bi h req rw (r, d, v) =
        (writeError J (rq_ID req) (-32000) (''access denied: '' @ ml_core_text M err) rw, (r\<lparr>policy_state := ps\<rparr>, d, v))"
      using that(2) by (auto simp: bridge_handleSendTask_def bridge_check_def daemon_http_policy_def)
    then show ?thesis by (intro exI)
  qed
qed

section \<open>Restarting\<close>

lemma RecoverCards_store: "host_store (snd (RecoverCards B pd order d h)) = host_store h"
  by (simp add: RecoverCards_def split: sum.split)

lemma create_buckets_id: "(\<And>b. createBucket d b = Inr d) \<Longrightarrow> create_buckets createBucket bs d = Inr d"
  by (induction bs) simp_all

lemma store_Open_existing:
  assumes "store_Open mkdirAll boltOpen createBucket dir = Inr d0"
    and "boltOpen (filepath_Join [dir, ''agentanycast.db'']) = Inr d" and "\<And>b. createBucket d b = Inr d"
  shows "d0 = d"
  using assms create_buckets_id [of createBucket d, OF assms(3)] by (simp add: store_Open_def split: option.splits)

lemma server_New_card:
  assumes "bolt_view_err (lib_bolt (sl_router L)) d = None" and "host_store h"
    and "bolt_get (lib_bolt (sl_router L)) metadataBucket ''card:self'' d = Some raw" and "raw \<noteq> []"
    and "pb_UnmarshalCard (lib_pb (sl_router L)) raw = Some c"
  shows "srv_card (server_New L r h ar ob sm d) = Some c" "cardRaw (server_New L r h ar ob sm d) = Some raw"
  using assms by (simp_all add: server_New_def GetSelfCard_def GetMetadataBytes_def view_def Let_def)

text \<open>The skills that a daemon offers: those of the card in the store, then the tools of its proxy.\<close>

definition proxy_skills :: "('db, 'l, 'f, 'w, 'priv) running \<Rightarrow> pb_Skill list" where
  "proxy_skills rn = (case rn_proxy rn of None \<Rightarrow> [] | Some x \<Rightarrow> ToolsToSkills (px_tools x))"

text \<open>
  C7. A restarted daemon goes on where the one before was. Let an engine whose table is mirrored in the store run
  any operations whose writes succeed, and let the daemon be started on what is then in the database: the
  new daemon has exactly the tasks of the old one, whatever their state, and tells its subscribers of their
  changes; it has the agent card that was stored, and offers its skills followed by the tools of its proxy.
\<close>

theorem daemon_restart:
  assumes "daemon_start M i f w = (Inr rn, l)" and "L = ml_server M (rn_key rn)" and "B = lib_bolt (sl_router L)"
    and "ml_boltOpen M (filepath_Join [StorePath (rn_cfg rn), ''agentanycast.db'']) = Inr d" and "\<And>b. ml_createBucket M d b = Inr d"
    and "bolt_db B" and "bolt_view_err B d = None"
    and "in_sync B (lib_json (sl_router L)) e0 d0" and "durable B (lib_json (sl_router L)) (e0, d0, c0) (e, d, c1)"
    and "bolt_get B metadataBucket ''card:self'' d = Some raw" and "raw \<noteq> []" and "pb_UnmarshalCard (lib_pb (sl_router L)) raw = Some c"
  shows "tasks (engine (srv_router (rn_server rn))) = tasks e \<and> onTaskUpdate (engine (srv_router (rn_server rn))) = Some engine_callback
    \<and> GetLocalCard (rn_server rn) = Some (c\<lparr>card_Skills := card_Skills c @ proxy_skills rn\<rparr>)"
  using assms(1)
proof (cases rule: started)
  case (started d1 h ar k s pre post)
  let ?s = "(SetConnectionCore k s)\<lparr>srv_router := srv_router (rn_server rn)\<rparr>"
  have d1: "d1 = d" by (rule store_Open_existing [OF started(2) assms(4,5)])
  have "in_sync B (lib_json (sl_router L)) e d" using bolt_db.durable_sync [OF assms(6,9)] assms(8) by simp
  from bolt_db.RecoverTasks_sync [OF assms(6) this assms(7)]
  have "RecoverTasks B (lib_json (sl_router L)) d (engine_SetStore NewEngine :: sub_state Engine) = (None, (engine_SetStore NewEngine)\<lparr>tasks := tasks e\<rparr>)" .
  then have t: "tasks (engine (srv_router (rn_server rn))) = tasks e" "onTaskUpdate (engine (srv_router (rn_server rn))) = Some engine_callback"
    using started(4,6) d1 by (simp_all add: assms(2,3) NewRouter_def SetOnTaskUpdate_def)
  have "host_store h" using started(3) by (simp add: RecoverCards_store)
  then have card0: "srv_card ?s = Some c"
    using server_New_card(1) [of L d h raw c] assms(7,10-12) started(4) d1 by (simp add: assms(2,3) SetConnectionCore_def)
  have "GetLocalCard (rn_server rn) = Some (c\<lparr>card_Skills := card_Skills c @ proxy_skills rn\<rparr>)"
  proof (cases "rn_proxy rn")
    case None
    with started(11) have "srv_card (rn_server rn) = srv_card ?s" by (metis option.distinct(1))
    with None card0 show ?thesis by (simp add: GetLocalCard_def proxy_skills_def)
  next
    case (Some y)
    have "wire_proxy L y ?s d = (rn_server rn, rn_db rn)" using started(11) Some d1 assms(2) by auto
    from wire_proxy_card [OF this card0] Some show ?thesis by (simp add: GetLocalCard_def proxy_skills_def)
  qed
  with t show ?thesis by simp
qed

lemma register_host: "fold (RegisterProxySkill L) sks (s, d) = (s', d') \<Longrightarrow> srv_host s' = srv_host s"
proof (induction sks arbitrary: s d)
  case (Cons sk sks)
  obtain s1 d1 where s1: "RegisterProxySkill L sk (s, d) = (s1, d1)" by fastforce
  then have "srv_host s1 = srv_host s" by (auto simp: RegisterProxySkill_def Let_def split: option.splits)
  with Cons s1 show ?case by simp
qed simp

lemma register_stored:
  assumes "fold (RegisterProxySkill L) sks (s, d) = (s', d')" and "sks \<noteq> []" and "host_store (srv_host s)"
    and "\<And>c. sl_MarshalCard L c \<noteq> None" and "\<And>v d. fst (SetMetadataBytes (lib_bolt (sl_router L)) ''card:self'' v d) = None"
    and "bolt_db (lib_bolt (sl_router L))"
  shows "\<exists>c raw. srv_card s' = Some c \<and> sl_MarshalCard L c = Some raw \<and> bolt_get (lib_bolt (sl_router L)) metadataBucket ''card:self'' d' = Some raw"
proof -
  let ?B = "lib_bolt (sl_router L)"
  obtain sks' sk where sks: "sks = sks' @ [sk]" using assms(2) by (metis rev_exhaust)
  obtain s1 d1 where f: "fold (RegisterProxySkill L) sks' (s, d) = (s1, d1)" by fastforce
  with assms(1) sks have last: "RegisterProxySkill L sk (s1, d1) = (s', d')" by simp
  have st: "host_store (srv_host s1)" using register_host [OF f] assms(3) by simp
  define c where "c = (case srv_card s1 of None \<Rightarrow> proxy_card | Some c \<Rightarrow> c)"
  obtain raw where raw: "sl_MarshalCard L (c\<lparr>card_Skills := card_Skills c @ [sk]\<rparr>) = Some raw" using assms(4) by blast
  obtain d2 where put: "bolt_put ?B metadataBucket ''card:self'' raw d1 = (None, d2)"
    using assms(5) [of raw d1] by (cases "bolt_put ?B metadataBucket ''card:self'' raw d1") (simp add: SetMetadataBytes_def)
  then have "srv_card s' = Some (c\<lparr>card_Skills := card_Skills c @ [sk]\<rparr>)" "d' = d2"
    using last raw st by (auto simp: RegisterProxySkill_def c_def SetSelfCard_def SetMetadataBytes_def Let_def)
  with raw bolt_db.get_put [OF assms(6) put] show ?thesis by auto
qed

text \<open>
  The tools of a proxy pile up. A daemon with a proxy stores its card with the tools in it; started again on
  that store with a proxy that has the same tools, it appends them a second time.
\<close>

theorem proxy_skills_accumulate:
  assumes "daemon_start M i f w = (Inr rn, l)" and "L = ml_server M (rn_key rn)" and "B = lib_bolt (sl_router L)"
    and "GetLocalCard (rn_server rn) = Some c" and "proxy_skills rn \<noteq> []"
    and "\<And>c. sl_MarshalCard L c \<noteq> None" and "\<And>v d. fst (SetMetadataBytes B ''card:self'' v d) = None" and "bolt_db B"
    and "\<And>raw. sl_MarshalCard L c = Some raw \<Longrightarrow> raw \<noteq> [] \<and> pb_UnmarshalCard (lib_pb (sl_router L)) raw = Some c"
    and "daemon_start M' i' f' w' = (Inr rn', l')" and "ml_server M' (rn_key rn') = L"
    and "ml_boltOpen M' (filepath_Join [StorePath (rn_cfg rn'), ''agentanycast.db'']) = Inr (rn_db rn)" and "\<And>b. ml_createBucket M' (rn_db rn) b = Inr (rn_db rn)"
    and "bolt_view_err B (rn_db rn) = None" and "proxy_skills rn' = proxy_skills rn"
  shows "(\<exists>base. card_Skills c = base @ proxy_skills rn)
    \<and> map_option card_Skills (GetLocalCard (rn_server rn')) = Some (card_Skills c @ proxy_skills rn)"
proof -
  obtain y where y: "rn_proxy rn = Some y" "proxy_skills rn = ToolsToSkills (px_tools y)"
    using assms(5) by (auto simp: proxy_skills_def split: option.splits)
  from assms(1) obtain d0 s0 where w: "wire_proxy L y s0 d0 = (rn_server rn, rn_db rn)" "host_store (srv_host s0)"
  proof (cases rule: started)
    case (started d1 h ar k s pre post)
    have "host_store (srv_host ((SetConnectionCore k s)\<lparr>srv_router := srv_router (rn_server rn)\<rparr>))"
      using started(3,4) by (simp add: RecoverCards_store SetConnectionCore_def)
    with started(11) y(1) assms(2) show ?thesis by (auto intro: that)
  qed
  obtain s1 where f: "fold (RegisterProxySkill L) (ToolsToSkills (px_tools y)) (s0, d0) = (s1, rn_db rn)" and s1: "srv_card s1 = Some c"
    using wire_proxy_parts [OF w(1)] assms(4) by (metis GetLocalCard_def)
  obtain raw where raw: "sl_MarshalCard L c = Some raw" "bolt_get B metadataBucket ''card:self'' (rn_db rn) = Some raw"
    using register_stored [OF f _ w(2)] assms(3,5-8) y(2) s1 by auto
  have base: "\<exists>base. card_Skills c = base @ proxy_skills rn"
    using register_skills_effect [OF f] s1 y(2) by (auto simp: card_or_new_def)
  have "map_option card_Skills (GetLocalCard (rn_server rn')) = Some (card_Skills c @ proxy_skills rn)"
    using assms(10)
  proof (cases rule: started)
    case (started d1 h ar k s pre post)
    let ?s = "(SetConnectionCore k s)\<lparr>srv_router := srv_router (rn_server rn')\<rparr>"
    have d1: "d1 = rn_db rn" by (rule store_Open_existing [OF started(2) assms(12,13)])
    obtain y' where y': "rn_proxy rn' = Some y'" "ToolsToSkills (px_tools y') = proxy_skills rn"
      using assms(5,15) by (auto simp: proxy_skills_def split: option.splits)
    have card0: "srv_card ?s = Some c"
      using server_New_card(1) [of L "rn_db rn" h raw c] assms(3,9,11,14) raw started(3,4) d1 by (simp add: RecoverCards_store SetConnectionCore_def)
    have "wire_proxy L y' ?s (rn_db rn) = (rn_server rn', rn_db rn')" using started(11) y'(1) d1 assms(11) by auto
    from wire_proxy_card [OF this card0] y'(2) show ?thesis by (simp add: GetLocalCard_def)
  qed
  with base show ?thesis by blast
qed

section \<open>The order of release\<close>

text \<open>Resources are ordered as the code acquires them.\<close>

primrec resource_rank :: "resource \<Rightarrow> nat" where
  "resource_rank Tracing = 0"
| "resource_rank Database = 1"
| "resource_rank DaemonContext = 2"
| "resource_rank P2PHost = 3"
| "resource_rank A2ARouter = 4"
| "resource_rank AnycastService = 5"
| "resource_rank HTTPBridge = 6"
| "resource_rank ANPBridge = 7"
| "resource_rank MetricsEndpoint = 8"
| "resource_rank NATSLink = 9"
| "resource_rank Limiter = 10"
| "resource_rank AuditFile = 11"
| "resource_rank ProxyProcess = 12"
| "resource_rank MCPEndpoint = 13"
| "resource_rank UnregisterContext = 14"

instantiation resource :: linorder
begin

definition less_eq_resource :: "resource \<Rightarrow> resource \<Rightarrow> bool" where
  "less_eq_resource a b \<longleftrightarrow> resource_rank a \<le> resource_rank b"

definition less_resource :: "resource \<Rightarrow> resource \<Rightarrow> bool" where
  "less_resource a b \<longleftrightarrow> resource_rank a < resource_rank b"

instance
proof
  fix a b :: resource
  show "a \<le> b \<Longrightarrow> b \<le> a \<Longrightarrow> a = b" by (cases a; cases b) (simp_all add: less_eq_resource_def)
qed (auto simp: less_eq_resource_def less_resource_def)

end

lemma subseq_sorted_wrt: "subseq xs ys \<Longrightarrow> sorted_wrt P ys \<Longrightarrow> sorted_wrt P xs"
  by (induction rule: list_emb.induct) (auto dest: list_emb_set)

lemma resource_order_sorted: "sorted_wrt (<) resource_order"
  by (simp add: resource_order_def start_order_def less_resource_def)

lemma deferred_sorted:
  assumes "daemon_start M i f w = (x, l)"
  shows "sorted_wrt (>) (deferred l)"
proof -
  obtain evs where "deferred l = rev (acquired evs)" "subseq (acquired evs) start_order"
    using daemon_start_grows [OF assms] by (auto simp: grows_def)
  moreover have "sorted_wrt (<) start_order" using resource_order_sorted by (simp add: resource_order_def sorted_wrt_append)
  ultimately show ?thesis using subseq_sorted_wrt by (auto simp: sorted_wrt_rev)
qed

lemma grows_deferred: "grows P rs l l' \<Longrightarrow> set (deferred l) \<subseteq> set (deferred l')"
  by (auto simp: grows_def)

lemma start_acquires:
  assumes "daemon_start M i f w = (Inr rn, l)"
  shows "{Tracing, Database, P2PHost, A2ARouter} \<subseteq> set (deferred l)"
    and "br_Enabled (cf_Bridge (rn_cfg rn)) \<Longrightarrow> HTTPBridge \<in> set (deferred l)"
    and "AuditLogPath (cf_Policy (rn_cfg rn)) \<noteq> [] \<Longrightarrow> AuditFile \<in> set (deferred l)"
proof -
  have "{Tracing, Database, P2PHost, A2ARouter} \<subseteq> set (deferred l)
    \<and> (br_Enabled (cf_Bridge (rn_cfg rn)) \<longrightarrow> HTTPBridge \<in> set (deferred l))
    \<and> (AuditLogPath (cf_Policy (rn_cfg rn)) \<noteq> [] \<longrightarrow> AuditFile \<in> set (deferred l))"
    using assms
  proof (cases rule: daemon_start_cases)
    case (connect cfg l0 t l1 key d w2 l2 h l3 s q bridge own l4)
    have 1: "Tracing \<in> set (deferred l1)"
      using connect(2) by (auto simp: main_tracing_def give_up_def acquire_def split: sum.splits)
    have 2: "Database \<in> set (deferred l2)" "set (deferred l1) \<subseteq> set (deferred l2)"
      using connect(3) by (auto simp: main_storage_def give_up_def acquire_def split: sum.splits prod.splits)
    have 3: "P2PHost \<in> set (deferred l3)" "set (deferred l2) \<subseteq> set (deferred l3)"
      using connect(4) by (auto simp: main_host_def give_up_def acquire_def warn_def note_event_def Let_def split: sum.splits prod.splits option.splits)
    have 4: "A2ARouter \<in> set (deferred l4)" "br_Enabled (cf_Bridge cfg) \<Longrightarrow> HTTPBridge \<in> set (deferred l4)" "set (deferred l3) \<subseteq> set (deferred l4)"
      using connect(5) grows_deferred [OF main_services_grows [OF connect(5)]]
      by (auto simp: main_services_def main_router_def main_anycast_def main_server_def main_bridge_def main_anp_def main_metrics_def
          acquire_def note_event_def Let_def split: prod.splits if_splits option.splits)
    from connect(6) have 5: "set (deferred l4) \<subseteq> set (deferred l) \<and> (AuditLogPath (cf_Policy cfg) \<noteq> [] \<longrightarrow> AuditFile \<in> set (deferred l)) \<and> rn_cfg rn = cfg"
    proof (cases rule: main_connect_cases)
      case (rest c nats w1 m1 c' m2 s1 b1 m3 z)
      have "AuditLogPath (cf_Policy cfg) \<noteq> [] \<Longrightarrow> AuditFile \<in> set (deferred m2)"
        using rest(2) by (auto simp: main_policies_def give_up_def acquire_def Let_def split: sum.splits)
      moreover have "rn_cfg rn = cfg" using rest(5) by (auto split: sum.splits prod.splits)
      ultimately show ?thesis
        using grows_deferred [OF main_nats_grows [OF rest(1)]] grows_deferred [OF main_policies_grows [OF rest(2)]]
          install_core_log(2) [OF rest(3)] grows_deferred [OF main_proxy_grows [OF rest(4)]] by auto
    qed simp_all
    with 1 2 3 4 show ?thesis by auto
  qed simp_all
  then show "{Tracing, Database, P2PHost, A2ARouter} \<subseteq> set (deferred l)"
    and "br_Enabled (cf_Bridge (rn_cfg rn)) \<Longrightarrow> HTTPBridge \<in> set (deferred l)"
    and "AuditLogPath (cf_Policy (rn_cfg rn)) \<noteq> [] \<Longrightarrow> AuditFile \<in> set (deferred l)" by blast+
qed

text \<open>
  Decisions are taken after the audit log is closed. In every run that ends normally and has an audit log, its file is closed before
  the HTTP bridge, the router and the libp2p host are: until those are closed too, messages and requests
  are still admitted or refused by the policy, and there is no file that could record it.
\<close>

theorem audit_closed_early:
  assumes "daemon_main M i f w = (Exit 0, evs)" and "daemon_start M i f w = (Inr rn, l)" and "AuditLogPath (cf_Policy (rn_cfg rn)) \<noteq> []"
  shows "\<exists>pre post. evs = pre @ Released AuditFile # post \<and> Released P2PHost \<in> set post \<and> Released A2ARouter \<in> set post
    \<and> (br_Enabled (cf_Bridge (rn_cfg rn)) \<longrightarrow> Released HTTPBridge \<in> set post) \<and> Released Database \<in> set post"
proof -
  obtain later before where d: "deferred l = later @ AuditFile # before"
    using start_acquires(3) [OF assms(2,3)] by (meson split_list)
  have "\<forall>r\<in>set later. AuditFile < r"
    using deferred_sorted [OF assms(2)] by (simp add: d sorted_wrt_append)
  then have b: "r \<in> set (deferred l) \<Longrightarrow> r < AuditFile \<Longrightarrow> r \<in> set before" for r by (auto simp: d)
  have "r < AuditFile" if "r \<in> {P2PHost, A2ARouter, HTTPBridge, Database}" for r
    using that by (auto simp: less_resource_def)
  with b start_acquires(1,2) [OF assms(2)]
  have in_before: "{P2PHost, A2ARouter, Database} \<subseteq> set before" "br_Enabled (cf_Bridge (rn_cfg rn)) \<Longrightarrow> HTTPBridge \<in> set before" by auto
  from assms(1,2) show ?thesis
  proof (cases rule: main_started)
    case (ran evs1 gone rest)
    then have "evs = (happened l @ evs1 @ map Released (rev (acquired evs1) @ later)) @ Released AuditFile # map Released before"
      by (auto simp: d)
    moreover have "Released r \<in> set (map Released before) \<longleftrightarrow> r \<in> set before" for r by auto
    ultimately show ?thesis using in_before by blast
  qed
qed

section \<open>When the daemon starts\<close>

text \<open>What has to work for a configuration: tracing, the key, the store, the host, NATS if it is used, the audit log if there is
  one, and the proxy if there is one.\<close>

definition proxy_works :: "('db, 'l, 'f, 'w, 'pub, 'priv) main_libs \<Rightarrow> main_inputs \<Rightarrow> MainFlags \<Rightarrow> bool" where
  "proxy_works M i f \<longleftrightarrow> flagMCPProxy f = [] \<or>
     (\<exists>cmd args x p. Fields (flagMCPProxy f) = cmd # args \<and>
        proxy_New (ml_mcp M) (ml_tools M) (ml_spawn M cmd args) (mi_discover1 i) (mi_initialized i) (mi_discover2 i) (mi_closing i) = Some (Inr x, p))"

definition works :: "('db, 'l, 'f, 'w, 'pub, 'priv) main_libs \<Rightarrow> main_inputs \<Rightarrow> MainFlags \<Rightarrow> 'w \<Rightarrow> Config \<Rightarrow> 'priv \<Rightarrow> 'db \<Rightarrow> bool" where
  "works M i f w cfg key d \<longleftrightarrow>
     (\<exists>t. telemetry_Setup (ml_newExporter M) (ml_newResource M) (Telemetry cfg) ''agentanycast-node'' (ml_version M) = Inr t)
     \<and> fst (LoadOrGenerateKey (ml_loadKey M) (ml_UnmarshalKey M) (KeyPath cfg) w) = Inr key
     \<and> store_Open (ml_mkdirAll M) (ml_boltOpen M) (ml_createBucket M) (StorePath cfg) = Inr d
     \<and> (\<exists>h. NewHost (ml_NewMultiaddr M) (ml_libp2pNew M) (host_config cfg) = Inr h)
     \<and> (na_Enabled (nats_settings (Flags.truncate f) (NATS (Transport cfg))) \<longrightarrow>
          (\<exists>t. fst (nats_New (ml_nats M) (nats_settings (Flags.truncate f) (NATS (Transport cfg))) (sl_self (ml_server M key))
                 (snd (LoadOrGenerateKey (ml_loadKey M) (ml_UnmarshalKey M) (KeyPath cfg) w))) = Inr t))
     \<and> (AuditLogPath (cf_Policy cfg) \<noteq> [] \<longrightarrow> (\<exists>file. ml_OpenFile M (AuditLogPath (cf_Policy cfg)) = Inr file))
     \<and> proxy_works M i f"

lemma main_connect_works:
  assumes "na_Enabled (nats_settings (Flags.truncate f) (NATS (Transport cfg))) \<longrightarrow>
      (\<exists>t. fst (nats_New (ml_nats M) (nats_settings (Flags.truncate f) (NATS (Transport cfg))) (sl_self L) w) = Inr t)"
    and "AuditLogPath (cf_Policy cfg) \<noteq> [] \<longrightarrow> (\<exists>file. ml_OpenFile M (AuditLogPath (cf_Policy cfg)) = Inr file)" and "proxy_works M i f"
  shows "\<exists>rn l'. main_connect M i f L cfg key d w s q bridge own l = (Inr rn, l') \<and> rn_cfg rn = cfg \<and> rn_key rn = key
    \<and> rn_bridge rn = fst (snd (install_core M i L core_New s bridge l))"
proof -
  have "\<exists>c nats w1 l1. main_nats M f L cfg (daemon_core M L key) w l = (Inr (c, nats, w1), l1)"
    using assms(1) by (cases "nats_New (ml_nats M) (nats_settings (Flags.truncate f) (NATS (Transport cfg))) (sl_self L) w")
      (auto simp: main_nats_def Let_def split: sum.splits)
  then obtain c nats w1 l1 where n: "main_nats M f L cfg (daemon_core M L key) w l = (Inr (c, nats, w1), l1)" by blast
  have "\<exists>c' l2. main_policies M cfg c l1 = (Inr c', l2)"
    using assms(2) by (auto simp: main_policies_def install_policies_def NewAuditLogger_def Let_def split: sum.splits)
  then obtain c' l2 where p: "main_policies M cfg c l1 = (Inr c', l2)" by blast
  obtain s1 b1 l3 where ic: "install_core M i L c' s bridge l2 = (s1, b1, l3)" by (metis prod_cases3)
  have "\<exists>s2 d2 x l4. main_proxy M i f L s1 d l3 = (Inr (s2, d2, x), l4)"
    using assms(3) by (auto simp: main_proxy_def proxy_works_def split: prod.splits)
  then obtain s2 d2 x l4 where x: "main_proxy M i f L s1 d l3 = (Inr (s2, d2, x), l4)" by blast
  have "b1 = fst (snd (install_core M i L core_New s bridge l))" using ic by (auto simp: install_core_def Let_def)
  with n p ic x show ?thesis by (simp add: main_connect_def)
qed

lemma daemon_starts:
  assumes "\<not> flagVersion f"
    and "load_configuration (ml_read_file M) (ml_toml M) (ml_ParseFloat M) (ml_env M) (ml_home M) (flagConfigPath f) (Flags.truncate f) = Inr cfg"
    and "works M i f w cfg key d"
  shows "\<exists>rn l. daemon_start M i f w = (Inr rn, l) \<and> rn_cfg rn = cfg \<and> rn_key rn = key"
proof -
  obtain l0 where c: "main_config M f \<lparr>happened = [], deferred = []\<rparr> = (Inr cfg, l0)" using assms(1,2) by (simp add: main_config_def)
  obtain t l1 where t: "main_tracing M cfg l0 = (Inr t, l1)" using assms(3) by (auto simp: works_def main_tracing_def)
  obtain w2 where k: "LoadOrGenerateKey (ml_loadKey M) (ml_UnmarshalKey M) (KeyPath cfg) w = (Inr key, w2)"
    using assms(3) by (cases "LoadOrGenerateKey (ml_loadKey M) (ml_UnmarshalKey M) (KeyPath cfg) w") (simp add: works_def)
  then obtain l2 where st: "main_storage M cfg w l1 = (Inr (key, d, w2), l2)" using assms(3) by (auto simp: works_def main_storage_def)
  have "\<exists>h l3. main_host M i (ml_server M key) cfg d l2 = (Inr h, l3)"
    using assms(3) by (auto simp: works_def main_host_def Let_def split: prod.splits)
  then obtain h l3 where h: "main_host M i (ml_server M key) cfg d l2 = (Inr h, l3)" by blast
  obtain s q bridge own l4 where sv: "main_services M i (ml_server M key) cfg d h l3 = (s, q, bridge, own, l4)" by (metis prod_cases5)
  have "\<exists>rn l'. main_connect M i f (ml_server M key) cfg key d w2 s q bridge own l4 = (Inr rn, l') \<and> rn_cfg rn = cfg \<and> rn_key rn = key"
    using main_connect_works [of f cfg M "ml_server M key" w2 i] assms(3) k by (simp add: works_def) blast
  with c t st h sv show ?thesis by (auto simp: daemon_start_def Let_def)
qed

lemma main_serves:
  assumes "daemon_start M i f w = (Inr rn, l)" and "daemon_main M i f w = (x, evs)"
  shows "Serving ''grpc'' (GRPCListen (rn_cfg rn)) \<in> set evs"
    and "mi_end i = GrpcEnded (Some err) \<Longrightarrow> \<not> flagMCP f \<Longrightarrow> Logged ''gRPC server error'' \<in> set evs"
proof -
  obtain l' w' where sv: "daemon_serve M i f rn l = (l', w')" by fastforce
  have "run_deferred (mi_returns i) (deferred l') (happened l') = (x, evs)" using assms sv by (simp add: daemon_main_def)
  from run_deferred_spec [OF this] have sub: "set (happened l') \<subseteq> set evs" by auto
  have note_ev: "happened (note_event e k) = happened k @ [e]" "happened (acquire r k) = happened k @ [Acquired r]" for e r k
    by (simp_all add: note_event_def acquire_def)
  have keep: "happened (warn msg err k) = happened k @ (case err of None \<Rightarrow> [] | Some _ \<Rightarrow> [Logged msg])"
      "\<exists>evs. happened (end_logged why k) = happened k @ evs" "\<exists>evs. happened (main_mcp_http f g k) = happened k @ evs"
    for msg why k g and err :: "string option"
    by (auto simp: warn_def end_logged_def main_mcp_http_def note_ev split: option.split main_end.split)
  have "set (happened (end_logged why (main_mcp_http f g k))) \<supseteq> set (happened k)"
      "set (happened (end_logged why (note_event AutoRegistering (main_mcp_http f g k)))) \<supseteq> set (happened k)" for why k g
    using keep(3) [of g k] keep(2) [of why "main_mcp_http f g k"] keep(2) [of why "note_event AutoRegistering (main_mcp_http f g k)"]
    by (auto simp: note_ev)
  note kept = this [THEN subsetD]
  have "Serving ''grpc'' (GRPCListen (rn_cfg rn)) \<in> set (happened l')"
    using sv by (auto simp: daemon_serve_def note_ev keep(1) Let_def split: if_splits option.splits intro!: kept)
  moreover have "Logged ''gRPC server error'' \<in> set (happened l')" if "mi_end i = GrpcEnded (Some err)" "\<not> flagMCP f" for err
    using sv that by (auto simp: daemon_serve_def end_logged_def note_ev Let_def split: option.splits)
  ultimately show "Serving ''grpc'' (GRPCListen (rn_cfg rn)) \<in> set evs"
    and "mi_end i = GrpcEnded (Some err) \<Longrightarrow> \<not> flagMCP f \<Longrightarrow> Logged ''gRPC server error'' \<in> set evs"
    using sub by auto
qed

lemma started_proxy:
  assumes "daemon_start M i f w = (Inr rn, l)" and "flagMCPProxy f \<noteq> []" and "Fields (flagMCPProxy f) = cmd # args"
    and "proxy_New (ml_mcp M) (ml_tools M) (ml_spawn M cmd args) (mi_discover1 i) (mi_initialized i) (mi_discover2 i) (mi_closing i) = Some (Inr x, p)"
  shows "rn_proxy rn = Some x"
  using assms(1)
proof (cases rule: daemon_start_cases)
  case (connect cfg l0 t l1 key d w2 l2 h l3 s q bridge own l4)
  from connect(6) show ?thesis
  proof (cases rule: main_connect_cases)
    case (rest c nats w1 m1 c' m2 s1 b1 m3 z)
    with assms(2-4) show ?thesis by (auto simp: main_proxy_def split: sum.splits prod.splits)
  qed simp_all
qed simp_all


end
