(* ===== verification/LifecycleExamples.thy ===== *)
theory LifecycleExamples
  imports LifecycleFacts
begin

text \<open>
  A concrete daemon on which the theorems on \<open>main\<close> are applied: it has the HTTP bridge, an access rule that
  denies everything, an audit log, and, with the flag for it, an MCP proxy with one tool.
\<close>

definition demo_policy :: PolicyConfig where
  "demo_policy = \<lparr>AuditLogPath = ''log'', ACLRules = [\<lparr>rule_Source = ''*'', rule_Skill = ''*'', rule_Allow = False\<rparr>],
     RateLimits = \<lparr>cfg_DefaultRPS = 0, cfg_Overrides = []\<rparr>\<rparr>"

definition demo_cfg :: Config where
  "demo_cfg = (DefaultConfig [])\<lparr>cf_Bridge := \<lparr>br_Enabled = True, br_Listen = '':8080'', TLSCert = [], TLSKey = [], CORSOrigins = []\<rparr>,
     cf_Policy := demo_policy\<rparr>"

definition idle_nats :: "unit nats_lib" where
  "idle_nats = \<lparr>nats_Connect = (\<lambda>_ _ w. (None, w)), nats_Subscribe = (\<lambda>_ w. (None, w)), nats_Publish = (\<lambda>_ _ w. (None, w)),
     nats_Unsubscribe = id, nats_Close = id, nats_ConnectedUrl = (\<lambda>_. []), LoadX509KeyPair = (\<lambda>_ _. None)\<rparr>"

definition demo_main ::
  "(mem_db, bucket, AuditEvent list, unit, byte) server_libs \<Rightarrow> mem_db \<Rightarrow> (mem_db, bucket, AuditEvent list, unit, byte, unit) main_libs" where
  "demo_main L d =
     \<lparr>ml_version = ''dev'', ml_home = [], ml_env = (\<lambda>_. []), ml_read_file = (\<lambda>_. FileData []), ml_toml = (\<lambda>_ _. Inr demo_cfg),
      ml_ParseFloat = (\<lambda>_. None), ml_ParseDuration = (\<lambda>_. Inr Second), ml_newExporter = (\<lambda>_ _. None), ml_newResource = (\<lambda>_ _. None),
      ml_loadKey = (\<lambda>_ w. (Inr [], w)), ml_UnmarshalKey = (\<lambda>_. Some ()), ml_Raw = (\<lambda>_. None), ml_mkdirAll = (\<lambda>_. None),
      ml_boltOpen = (\<lambda>_. Inr d), ml_createBucket = (\<lambda>d _. Inr d), ml_NewMultiaddr = Inr, ml_libp2pNew = (\<lambda>_. None),
      ml_newClient = (\<lambda>_. None), ml_DHT = None, ml_IntN = (\<lambda>_ w. (0, w)), ml_server = (\<lambda>_. L), ml_NewStream = no_streams,
      ml_nats = idle_nats, ml_OpenFile = (\<lambda>_. Inr []), ml_mcp = demo_mcp, ml_tools = demo_tools_json,
      ml_spawn = (\<lambda>_ _. NewProcess None None None), ml_core_text = (\<lambda>_. []), ml_router_text = (\<lambda>_. []),
      ml_anpDecode = (\<lambda>_. None), ml_anpSprint = (\<lambda>_. [])\<rparr>"

definition demo_main_inputs :: main_inputs where
  "demo_main_inputs =
     \<lparr>mi_card_order = [], mi_registry_order = [], mi_provider_order = [], mi_feed = (\<lambda>_. demo_inputs), mi_router = demo_router_inputs,
      mi_discover1 = answered 0 [1], mi_initialized = (0, None), mi_discover2 = answered 1 [2], mi_closing = [], mi_stdio = None,
      mi_end = Signalled ''SIGTERM'', mi_returns = (\<lambda>_. True)\<rparr>"

definition demo_main_flags :: "string \<Rightarrow> MainFlags" where
  "demo_main_flags proxy =
     \<lparr>flagKeyPath = [], flagGRPCListen = [], flagLogLevel = [], flagBootstrapPeers = [], flagBridgeListen = [], flagEnableWebTransport = False,
      flagANPListen = [], flagOTLPEndpoint = [], flagNATSBroker = [], flagConfigPath = [], flagMCP = False, flagMCPListen = [],
      flagMCPProxy = proxy, flagVersion = False\<rparr>"

lemmas demo_main_defs = demo_main_def demo_main_inputs_def demo_main_flags_def

lemma demo_load:
  "load_configuration (ml_read_file (demo_main L d)) (ml_toml (demo_main L d)) (ml_ParseFloat (demo_main L d)) (ml_env (demo_main L d))
     (ml_home (demo_main L d)) (flagConfigPath (demo_main_flags px)) (Flags.truncate (demo_main_flags px)) = Inr demo_cfg"
  by (simp add: demo_main_defs load_configuration_def LoadConfigFile_def ApplyEnv_def apply_flags_def envOverride_def envOverrideBool_def
      list_override_def demo_cfg_def DefaultConfig_def Flags.truncate_def Let_def)

lemma parse_listen_id: "parse_listen Inr as = Inr as"
  by (induction as) simp_all

lemma demo_works:
  assumes "px = [] \<or> px = ''tool''"
  shows "works (demo_main L d) demo_main_inputs (demo_main_flags px) () demo_cfg () d"
proof -
  have "\<exists>x. proxy_New demo_mcp demo_tools_json (NewProcess None None None) (answered 0 [1]) (0, None) (answered 1 [2]) [] =
      Some (Inr \<lparr>px_process = x, px_tools = [demo_tool]\<rparr>, Some x)"
    by (simp add: proxy_New_def DiscoverTools_def Call_def NewProcess_def answered_def run_simps notify_def demo_tools_json_def)
  then have "proxy_works (demo_main L d) demo_main_inputs (demo_main_flags px)"
    using assms by (auto simp: proxy_works_def demo_main_defs Fields_def ascii_space_def)
  moreover have "\<not> na_Enabled (nats_settings (Flags.truncate (demo_main_flags px)) (NATS (Transport demo_cfg)))"
    by (simp add: nats_settings_def demo_main_flags_def Flags.truncate_def demo_cfg_def DefaultConfig_def Let_def)
  moreover have "\<exists>h. NewHost Inr (\<lambda>_. None) (host_config demo_cfg) = Inr h" by (simp add: NewHost_def parse_listen_id)
  moreover have "telemetry_Setup a b (Telemetry demo_cfg) c e = Inr None" for a b c e
    by (simp add: telemetry_Setup_def demo_cfg_def DefaultConfig_def Let_def)
  ultimately show ?thesis
    by (simp add: works_def demo_main_def LoadOrGenerateKey_def stdKeyToLibp2p_def store_Open_def create_buckets_id)
qed

lemma demo_daemon_runs:
  assumes "px = [] \<or> px = ''tool''"
  obtains rn l evs where "daemon_start (demo_main L d) demo_main_inputs (demo_main_flags px) () = (Inr rn, l)"
    and "rn_cfg rn = demo_cfg" and "rn_key rn = ()"
    and "daemon_main (demo_main L d) demo_main_inputs (demo_main_flags px) () = (Exit 0, evs)"
proof -
  obtain rn l where st: "daemon_start (demo_main L d) demo_main_inputs (demo_main_flags px) () = (Inr rn, l)"
      "rn_cfg rn = demo_cfg" "rn_key rn = ()"
    using daemon_starts [OF _ demo_load demo_works [OF assms, of L d]] by (auto simp: demo_main_flags_def)
  obtain x evs where m: "daemon_main (demo_main L d) demo_main_inputs (demo_main_flags px) () = (x, evs)" by fastforce
  from m st(1) have "x = Exit 0" by (cases rule: main_started) (auto simp: demo_main_inputs_def)
  with m st show ?thesis by (intro that) simp_all
qed

theorem main_releases_witness:
  "\<exists>evs. daemon_main (demo_main demo_card_libs mem_empty) demo_main_inputs (demo_main_flags []) () = (Exit 0, evs)
     \<and> distinct (acquired evs) \<and> released evs = rev (acquired evs)"
proof -
  obtain rn l evs where "daemon_main (demo_main demo_card_libs mem_empty) demo_main_inputs (demo_main_flags []) () = (Exit 0, evs)"
    by (rule demo_daemon_runs [of "[]" demo_card_libs mem_empty]) auto
  from main_releases [OF this] this show ?thesis by auto
qed


lemma demo_denied: "CheckAccess (ACLRules (cf_Policy demo_cfg)) src skill \<noteq> None"
  by (simp add: demo_cfg_def demo_policy_def CheckAccess_def matchGlob_def Let_def)

theorem configured_rules_enforced_witness:
  "\<exists>rn l ps. daemon_start (demo_main demo_card_libs mem_empty) demo_main_inputs (demo_main_flags []) () = (Inr rn, l)
     \<and> HandleMessage (sl_router demo_card_libs) demo_router_inputs ''mallory'' [0] (srv_router (rn_server rn), rn_db rn, rn_world rn) =
        ((srv_router (rn_server rn))\<lparr>policy_state := ps\<rparr>, rn_db rn, rn_world rn)"
proof -
  obtain rn l evs where r: "daemon_start (demo_main demo_card_libs mem_empty) demo_main_inputs (demo_main_flags []) () = (Inr rn, l)" "rn_cfg rn = demo_cfg"
    by (rule demo_daemon_runs [of "[]" demo_card_libs mem_empty]) auto
  have L: "sl_router demo_card_libs = sl_router (ml_server (demo_main demo_card_libs mem_empty) (rn_key rn))" by (simp add: demo_main_def)
  have u: "pb_Unmarshal (lib_pb (sl_router demo_card_libs)) [0] = Some (cancel_envelope ''k'')" "env_Type (cancel_envelope ''k'') \<noteq> ENVELOPE_TYPE_ACK"
    by (simp_all add: demo_card_libs_def self_dial_libs_def pair_codec_def cancel_envelope_def mk_envelope_def)
  have "receive_all (sl_router demo_card_libs) [] (srv_router (rn_server rn), rn_db rn, rn_world rn) = (srv_router (rn_server rn), rn_db rn, rn_world rn)"
    by simp
  from configured_rules_enforced [OF r(1) L this refl, of "[0]" "cancel_envelope ''k''" "''mallory''" demo_router_inputs] u r demo_denied
  show ?thesis by auto
qed

theorem audit_closed_early_witness:
  "\<exists>pre post. daemon_main (demo_main demo_card_libs mem_empty) demo_main_inputs (demo_main_flags []) () = (Exit 0, pre @ Released AuditFile # post)
     \<and> Released P2PHost \<in> set post \<and> Released HTTPBridge \<in> set post"
proof -
  obtain rn l evs where r: "daemon_start (demo_main demo_card_libs mem_empty) demo_main_inputs (demo_main_flags []) () = (Inr rn, l)"
      "rn_cfg rn = demo_cfg" "daemon_main (demo_main demo_card_libs mem_empty) demo_main_inputs (demo_main_flags []) () = (Exit 0, evs)"
    by (rule demo_daemon_runs [of "[]" demo_card_libs mem_empty]) auto
  from audit_closed_early [OF r(3,1)] r(2,3) show ?thesis by (auto simp: demo_cfg_def demo_policy_def)
qed


section \<open>Restarts\<close>

definition demo_stored :: mem_db where
  "demo_stored = snd (SetMetadataBytes mem_bolt ''card:self'' [1] mem_empty)"

theorem daemon_restart_witness:
  "\<exists>rn l. daemon_start (demo_main demo_card_libs (fst (snd (engine_run1 mem_bolt demo_codec (OpRegister demo_task)
        (engine_SetStore NewEngine :: unit Engine, demo_stored, ()))))) demo_main_inputs (demo_main_flags []) () = (Inr rn, l)
     \<and> tasks (engine (srv_router (rn_server rn))) ''k'' = Some demo_task \<and> GetLocalCard (rn_server rn) \<noteq> None"
proof -
  let ?e0 = "engine_SetStore NewEngine :: unit Engine"
  let ?B = mem_bolt
  obtain e d c where s: "engine_run1 mem_bolt demo_codec (OpRegister demo_task) (?e0, demo_stored, ()) = (e, d, c)" by (metis prod_cases3)
  obtain rn l evs where r: "daemon_start (demo_main demo_card_libs d) demo_main_inputs (demo_main_flags []) () = (Inr rn, l)" "rn_cfg rn = demo_cfg"
    by (rule demo_daemon_runs [of "[]" demo_card_libs d]) auto
  have lib: "ml_server (demo_main demo_card_libs d) (rn_key rn) = demo_card_libs" "lib_bolt (sl_router demo_card_libs) = mem_bolt"
      "lib_json (sl_router demo_card_libs) = demo_codec"
    by (simp_all add: demo_main_def demo_card_libs_def self_dial_libs_def)
  have sync: "in_sync mem_bolt demo_codec ?e0 demo_stored"
    by (simp add: in_sync_def engine_SetStore_def NewEngine_def engine_wf_def keyed_def mem_bolt_def mem_empty_def demo_stored_def
        SetMetadataBytes_def tasksBucket_def metadataBucket_def)
  have p: "persists mem_bolt demo_codec demo_task demo_stored"
    by (simp add: persists_def demo_codec_def demo_task_def PutTask_def mem_bolt_def)
  have dur: "durable mem_bolt demo_codec (?e0, demo_stored, ()) (e, d, c)"
    using durable_step [OF durable_refl, of "OpRegister demo_task" ?e0 mem_bolt demo_codec demo_stored "()"] p s by simp
  have card1: "bolt_get mem_bolt metadataBucket ''card:self'' d = Some [1]"
    using s by (auto simp: RegisterTask_def persistTask_def put_task_bytes_def engine_SetStore_def demo_codec_def demo_stored_def SetMetadataBytes_def PutTask_def
        mem_bolt_def metadataBucket_def tasksBucket_def Let_def split: if_splits)
  have "tasks e ''k'' = Some demo_task" using s by (auto simp: RegisterTask_def Let_def demo_task_def)
  moreover have "tasks (engine (srv_router (rn_server rn))) = tasks e \<and> GetLocalCard (rn_server rn) \<noteq> None"
    using daemon_restart [OF r(1) refl refl, unfolded lib, of d ?e0 demo_stored "()" e c "[1]"] mem.bolt_db_axioms sync dur card1
    by (simp add: demo_main_def mem_bolt_def demo_card_libs_def)
  ultimately show ?thesis using r(1) s by auto
qed

definition demo_tool_card :: pb_AgentCard where
  "demo_tool_card = proxy_card\<lparr>card_Skills := ToolsToSkills [demo_tool]\<rparr>"

definition demo_proxy_libs :: "(mem_db, bucket, AuditEvent list, unit, byte) server_libs" where
  "demo_proxy_libs = demo_skill_libs\<lparr>sl_router := self_dial_libs\<lparr>lib_pb := (lib_pb self_dial_libs)\<lparr>pb_UnmarshalCard := (\<lambda>_. Some demo_tool_card)\<rparr>\<rparr>\<rparr>"

lemma demo_proxied:
  assumes "daemon_start (demo_main L d) demo_main_inputs (demo_main_flags ''tool'') () = (Inr rn, l)"
  shows "proxy_skills rn = ToolsToSkills [demo_tool]"
proof -
  obtain x where "proxy_New demo_mcp demo_tools_json (NewProcess None None None) (answered 0 [1]) (0, None) (answered 1 [2]) [] =
      Some (Inr \<lparr>px_process = x, px_tools = [demo_tool]\<rparr>, Some x)"
    by (simp add: proxy_New_def DiscoverTools_def Call_def NewProcess_def answered_def run_simps notify_def demo_tools_json_def)
  then have "rn_proxy rn = Some \<lparr>px_process = x, px_tools = [demo_tool]\<rparr>"
    by (intro started_proxy [OF assms, of "''tool''" "[]" _ "Some x"]) (simp_all add: demo_main_defs Fields_def ascii_space_def)
  then show ?thesis by (simp add: proxy_skills_def)
qed

theorem proxy_skills_accumulate_witness:
  "\<exists>rn l rn' l'. daemon_start (demo_main demo_proxy_libs mem_empty) demo_main_inputs (demo_main_flags ''tool'') () = (Inr rn, l)
     \<and> daemon_start (demo_main demo_proxy_libs (rn_db rn)) demo_main_inputs (demo_main_flags ''tool'') () = (Inr rn', l')
     \<and> map_option card_Skills (GetLocalCard (rn_server rn')) = Some (ToolsToSkills [demo_tool, demo_tool])"
proof -
  let ?M = "demo_main demo_proxy_libs"
  obtain rn l evs where r: "daemon_start (?M mem_empty) demo_main_inputs (demo_main_flags ''tool'') () = (Inr rn, l)"
    by (rule demo_daemon_runs [of "''tool''" demo_proxy_libs mem_empty]) auto
  obtain rn' l' evs' where r': "daemon_start (?M (rn_db rn)) demo_main_inputs (demo_main_flags ''tool'') () = (Inr rn', l')"
    by (rule demo_daemon_runs [of "''tool''" demo_proxy_libs "rn_db rn"]) auto
  have lib: "ml_server (?M d) k = demo_proxy_libs" "lib_bolt (sl_router demo_proxy_libs) = mem_bolt" for d k
    by (simp_all add: demo_main_def demo_proxy_libs_def self_dial_libs_def)
  obtain y where y: "rn_proxy rn = Some y" "ToolsToSkills (px_tools y) = ToolsToSkills [demo_tool]"
    using demo_proxied [OF r] by (auto simp: proxy_skills_def ToolsToSkills_def split: option.splits)
  from r have card1: "GetLocalCard (rn_server rn) = Some demo_tool_card"
  proof (cases rule: started)
    case (started d0 h ar k s pre post)
    have "d0 = mem_empty" using started(2) by (auto simp: demo_main_def store_Open_def create_buckets_id)
    then have "srv_card s = None"
      using started(4) lib by (simp add: server_New_def GetSelfCard_def GetMetadataBytes_def view_def mem_bolt_def mem_empty_def Let_def)
    moreover from started(11) y(1) lib obtain s0 where w: "wire_proxy demo_proxy_libs y s0 d0 = (rn_server rn, rn_db rn)" "srv_card s0 = srv_card s"
      by (auto simp: SetConnectionCore_def)
    moreover obtain s1 where s1: "fold (RegisterProxySkill demo_proxy_libs) (ToolsToSkills (px_tools y)) (s0, d0) = (s1, rn_db rn)"
        "srv_card (rn_server rn) = srv_card s1"
      using wire_proxy_parts [OF w(1)] by blast
    ultimately show ?thesis
      using register_skills_effect [OF s1(1)] s1(2) y(2)
      by (auto simp: GetLocalCard_def card_or_new_def demo_tool_card_def proxy_card_def ToolsToSkills_def split: option.splits)
  qed
  have "map_option card_Skills (GetLocalCard (rn_server rn')) = Some (card_Skills demo_tool_card @ ToolsToSkills [demo_tool])"
    using proxy_skills_accumulate [OF r refl refl card1, unfolded lib, OF _ _ _ mem.bolt_db_axioms _ r'] demo_proxied [OF r] demo_proxied [OF r'] lib
    by (simp add: demo_main_def ToolsToSkills_def demo_proxy_libs_def demo_skill_libs_def mem_bolt_def SetMetadataBytes_def)
  then show ?thesis using r r' by (auto simp: demo_tool_card_def ToolsToSkills_def)
qed

end
