(* ===== verification/Shutdown.thy ===== *)
theory Shutdown
  imports LifecycleFacts
begin

text \<open>
  The end of the daemon with everything that still runs: the HTTP servers of bridge, ANP, metrics and MCP with
  their request handlers, the consumer of ANP tasks, the retry loop of the acknowledgement tracker, the calls
  of applications, and \<open>main\<close> with its deferred calls. Each atomic step of one of them is an action; \<open>down_step\<close>
  says whether an action is possible and what it does, and theorems hold for every sequence of actions.

  Of \<^verbatim>\<open>net/http\<close> the model has what the code relies on: a server that is shutting down takes no requests,
  \<open>ListenAndServe\<close> then returns at once, and \<open>Shutdown\<close> returns when no handler runs. Whether the gRPC
  library starts a call while it is being stopped is an argument.
\<close>

section \<open>The HTTP servers\<close>

record http_Server =
  hs_Addr :: string
  hs_ReadTimeout :: duration
  hs_ReadHeaderTimeout :: duration
  hs_WriteTimeout :: duration
  hs_IdleTimeout :: duration

definition bridge_httpServer :: "BridgeConfig \<Rightarrow> http_Server" where
  "bridge_httpServer c = \<lparr>hs_Addr = br_Listen c, hs_ReadTimeout = 30 * Second, hs_ReadHeaderTimeout = 0,
     hs_WriteTimeout = 60 * Second, hs_IdleTimeout = 120 * Second\<rparr>"

definition anp_NewServer :: "string \<Rightarrow> http_Server" where
  "anp_NewServer addr = \<lparr>hs_Addr = addr, hs_ReadTimeout = 30 * Second, hs_ReadHeaderTimeout = 10 * Second,
     hs_WriteTimeout = 60 * Second, hs_IdleTimeout = 120 * Second\<rparr>"

definition metrics_httpServer :: "string \<Rightarrow> http_Server" where
  "metrics_httpServer listen = \<lparr>hs_Addr = listen, hs_ReadTimeout = 5 * Second, hs_ReadHeaderTimeout = 0,
     hs_WriteTimeout = 10 * Second, hs_IdleTimeout = 0\<rparr>"

definition mcp_ServeHTTP :: "string \<Rightarrow> http_Server" where
  "mcp_ServeHTTP addr = \<lparr>hs_Addr = addr, hs_ReadTimeout = 30 * Second, hs_ReadHeaderTimeout = 0,
     hs_WriteTimeout = 60 * Second, hs_IdleTimeout = 0\<rparr>"

text \<open>The bridge listens with TLS if it has both files.\<close>

datatype listen_mode = PlainHTTP | WithTLS string string

definition bridge_ListenAndServe :: "BridgeConfig \<Rightarrow> listen_mode" where
  "bridge_ListenAndServe c =
     (if TLSCert c \<noteq> [] \<and> TLSKey c \<noteq> [] then WithTLS (TLSCert c) (TLSKey c) else PlainHTTP)"

text \<open>The URL that \<open>main\<close> publishes for the bridge has the scheme that the bridge listens with, unless there is a certificate without a key.\<close>

lemma published_scheme:
  "(HasPrefix (BaseURL (br_Listen c) (TLSCert c \<noteq> [])) ''https://'' \<longleftrightarrow> bridge_ListenAndServe c \<noteq> PlainHTTP) \<longleftrightarrow> (TLSCert c \<noteq> [] \<longrightarrow> TLSKey c \<noteq> [])"
  by (auto simp: BaseURL_def bridge_ListenAndServe_def HasPrefix_def Let_def)

text \<open>The listener of the gRPC server. \<open>remove\<close> and \<open>listen\<close> act on the file system and the network.\<close>

definition grpc_listen ::
  "(string \<Rightarrow> 'w \<Rightarrow> 'w) \<Rightarrow> (string \<Rightarrow> string \<Rightarrow> 'w \<Rightarrow> string option \<times> 'w) \<Rightarrow> string \<Rightarrow> 'w \<Rightarrow> string option \<times> 'w" where
  "grpc_listen remove listen addr w =
     (case listen_address addr of (network, address, stale) \<Rightarrow>
        (case listen network address (if stale then remove address w else w) of
           (Some err, w') \<Rightarrow> (Some (''listen '' @ network @ ''://'' @ address @ '': '' @ err), w')
         | (None, w') \<Rightarrow> (None, w')))"

section \<open>Goroutines that can be stopped\<close>

primrec run_steps :: "('a \<Rightarrow> 's \<Rightarrow> 's option) \<Rightarrow> 'a list \<Rightarrow> 's \<Rightarrow> 's option" where
  "run_steps step [] s = Some s"
| "run_steps step (a # as) s = (case step a s of None \<Rightarrow> None | Some s' \<Rightarrow> run_steps step as s')"

lemma run_steps_append:
  "run_steps step (as @ bs) s = (case run_steps step as s of None \<Rightarrow> None | Some s' \<Rightarrow> run_steps step bs s')"
  by (induction as arbitrary: s) (simp_all split: option.split)

lemma run_steps_invariant:
  assumes "run_steps step as s = Some s'" and "P s" and "\<And>a s s'. P s \<Longrightarrow> step a s = Some s' \<Longrightarrow> P s'"
  shows "P s'"
  using assms(1,2)
proof (induction as arbitrary: s)
  case (Cons a as)
  then show ?case using assms(3) by (auto split: option.splits)
qed simp

text \<open>What the caller of \<open>Shutdown\<close> or \<open>Stop\<close> relies on: after it has returned nothing runs any more, for good.\<close>

locale stoppable =
  fixes step :: "'a \<Rightarrow> 's \<Rightarrow> 's option" and busy :: "'s \<Rightarrow> bool" and stopped :: "'s \<Rightarrow> bool"
  assumes stopped_idle: "stopped s \<Longrightarrow> \<not> busy s"
    and stopped_stays: "stopped s \<Longrightarrow> step a s = Some s' \<Longrightarrow> stopped s'"
begin

lemma idle_for_good: "stopped s \<Longrightarrow> run_steps step as s = Some s' \<Longrightarrow> \<not> busy s'"
  using run_steps_invariant [of step as s s' stopped] stopped_idle stopped_stays by blast

end

subsection \<open>A server of the standard library\<close>

record http_run =
  listening :: bool
  inShutdown :: bool
  handling :: "nat set"

datatype http_action = HListen | HArrive nat | HFinish nat | HShutdown

fun http_step :: "http_action \<Rightarrow> http_run \<Rightarrow> http_run option" where
  "http_step HListen s = (if listening s then None else Some (s\<lparr>listening := \<not> inShutdown s\<rparr>))"
| "http_step (HArrive n) s =
     (if listening s \<and> \<not> inShutdown s \<and> n \<notin> handling s then Some (s\<lparr>handling := insert n (handling s)\<rparr>) else None)"
| "http_step (HFinish n) s = (if n \<in> handling s then Some (s\<lparr>handling := handling s - {n}\<rparr>) else None)"
| "http_step HShutdown s = Some (s\<lparr>inShutdown := True\<rparr>)"

definition http_quiet :: "http_run \<Rightarrow> bool" where
  "http_quiet s \<longleftrightarrow> inShutdown s \<and> handling s = {}"

interpretation http: stoppable http_step "\<lambda>s. handling s \<noteq> {}" http_quiet
proof
  fix a s s'
  show "http_quiet s \<Longrightarrow> http_step a s = Some s' \<Longrightarrow> http_quiet s'" by (cases a) (auto simp: http_quiet_def split: if_splits)
qed (simp add: http_quiet_def)

subsection \<open>The retry loop of the acknowledgement tracker\<close>

text \<open>When both channels are ready \<open>select\<close> may take the ticker, so a round can still begin after \<open>Stop\<close> was called.\<close>

datatype loop_phase = LoopSelect | LoopRound | LoopDone

record loop_run =
  stopCh_closed :: bool
  loop_at :: loop_phase

datatype loop_action = LTick | LRoundEnd | LQuit | LStop

fun loop_step :: "loop_action \<Rightarrow> loop_run \<Rightarrow> loop_run option" where
  "loop_step LTick s = (if loop_at s = LoopSelect then Some (s\<lparr>loop_at := LoopRound\<rparr>) else None)"
| "loop_step LRoundEnd s = (if loop_at s = LoopRound then Some (s\<lparr>loop_at := LoopSelect\<rparr>) else None)"
| "loop_step LQuit s = (if loop_at s = LoopSelect \<and> stopCh_closed s then Some (s\<lparr>loop_at := LoopDone\<rparr>) else None)"
| "loop_step LStop s = (if stopCh_closed s then None else Some (s\<lparr>stopCh_closed := True\<rparr>))"

definition loop_ended :: "loop_run \<Rightarrow> bool" where
  "loop_ended s \<longleftrightarrow> loop_at s = LoopDone"

interpretation retries: stoppable loop_step "\<lambda>s. loop_at s = LoopRound" loop_ended
proof
  fix a s s'
  show "loop_ended s \<Longrightarrow> loop_step a s = Some s' \<Longrightarrow> loop_ended s'" by (cases a) (auto simp: loop_ended_def split: if_splits)
qed (simp add: loop_ended_def)

section \<open>The daemon as it ends\<close>

datatype grpc_phase = GrpcServing | GrpcDraining | GrpcStopped

text \<open>The deferred calls to come and whether the first of them has begun; what they have released; whether \<open>main\<close> has
  canceled its context; the servers, the retry loop, the channel of ANP tasks, the goroutines that route ANP tasks, the
  calls of applications; and whether a goroutine has panicked.\<close>

record down =
  dn_todo :: "resource list"
  dn_closing :: bool
  dn_gone :: "resource list"
  dn_ended :: bool
  dn_http :: "resource \<Rightarrow> http_run"
  dn_retry :: loop_run
  dn_tasks :: "nat list"
  dn_tasks_closed :: bool
  dn_workers :: "nat set"
  dn_calls :: "nat set"
  dn_grpc :: grpc_phase
  dn_panic :: bool

datatype down_action =
    Http resource http_action
  | Retry loop_action
  | Submit nat
  | Consume
  | WorkerDone nat
  | Begin nat
  | Return nat
  | GrpcCtxDone
  | GrpcDrained
  | GrpcTimeout
  | MainEnds
  | Defer
  | Returned

definition http_servers :: "resource set" where
  "http_servers = {HTTPBridge, ANPBridge, MetricsEndpoint, MCPEndpoint}"

definition down_init :: "resource list \<Rightarrow> down" where
  "down_init ds = \<lparr>dn_todo = ds, dn_closing = False, dn_gone = [], dn_ended = False,
     dn_http = (\<lambda>_. \<lparr>listening = False, inShutdown = False, handling = {}\<rparr>),
     dn_retry = \<lparr>stopCh_closed = False, loop_at = LoopSelect\<rparr>,
     dn_tasks = [], dn_tasks_closed = False, dn_workers = {}, dn_calls = {}, dn_grpc = GrpcServing, dn_panic = False\<rparr>"

text \<open>A deferred call begins; it can return; it returns.\<close>

definition begin_release :: "resource \<Rightarrow> down \<Rightarrow> down" where
  "begin_release r s =
     (if r \<in> http_servers then s\<lparr>dn_http := (dn_http s)(r := the (http_step HShutdown (dn_http s r))), dn_closing := True\<rparr>
      else if r = A2ARouter then
        (case loop_step LStop (dn_retry s) of
           None \<Rightarrow> s\<lparr>dn_panic := True\<rparr>
         | Some l \<Rightarrow> s\<lparr>dn_retry := l, dn_closing := True\<rparr>)
      else s\<lparr>dn_closing := True\<rparr>)"

definition may_return :: "resource \<Rightarrow> down \<Rightarrow> bool" where
  "may_return r s \<longleftrightarrow>
     (if r \<in> http_servers then http_quiet (dn_http s r) else if r = A2ARouter then loop_ended (dn_retry s) else True)"

definition finish_release :: "resource \<Rightarrow> down \<Rightarrow> down" where
  "finish_release r s =
     (let s' = s\<lparr>dn_todo := tl (dn_todo s), dn_gone := dn_gone s @ [r], dn_closing := False\<rparr> in
      if r = ANPBridge then (if dn_tasks_closed s then s\<lparr>dn_panic := True\<rparr> else s'\<lparr>dn_tasks_closed := True\<rparr>) else s')"

text \<open>A handler of the ANP server hands its task to the channel of 64 slots.\<close>

definition submit_task :: "nat \<Rightarrow> down \<Rightarrow> down option" where
  "submit_task n s =
     (if n \<notin> handling (dn_http s ANPBridge) then None
      else if dn_tasks_closed s then Some (s\<lparr>dn_panic := True\<rparr>)
      else if length (dn_tasks s) < 64 then Some (s\<lparr>dn_tasks := dn_tasks s @ [n]\<rparr>)
      else None)"

text \<open>\<open>main\<close> starts a server only if it is configured, and handlers run in its own goroutines; shutting down is left to \<open>main\<close>.\<close>

fun down_step :: "(grpc_phase \<Rightarrow> bool) \<Rightarrow> down_action \<Rightarrow> down \<Rightarrow> down option" where
  "down_step accepts (Http r a) s =
     (if dn_panic s \<or> r \<notin> http_servers \<or> r \<notin> set (dn_gone s @ dn_todo s) \<or> a = HShutdown then None
      else map_option (\<lambda>h. s\<lparr>dn_http := (dn_http s)(r := h)\<rparr>) (http_step a (dn_http s r)))"
| "down_step accepts (Retry a) s =
     (if dn_panic s \<or> a = LStop then None else map_option (\<lambda>l. s\<lparr>dn_retry := l\<rparr>) (loop_step a (dn_retry s)))"
| "down_step accepts (Submit n) s = (if dn_panic s then None else submit_task n s)"
| "down_step accepts Consume s =
     (if dn_panic s then None
      else case dn_tasks s of [] \<Rightarrow> None | n # ns \<Rightarrow> Some (s\<lparr>dn_tasks := ns, dn_workers := insert n (dn_workers s)\<rparr>))"
| "down_step accepts (WorkerDone n) s =
     (if dn_panic s \<or> n \<notin> dn_workers s then None else Some (s\<lparr>dn_workers := dn_workers s - {n}\<rparr>))"
| "down_step accepts (Begin n) s =
     (if dn_panic s \<or> \<not> accepts (dn_grpc s) then None else Some (s\<lparr>dn_calls := insert n (dn_calls s)\<rparr>))"
| "down_step accepts (Return n) s =
     (if dn_panic s \<or> n \<notin> dn_calls s then None else Some (s\<lparr>dn_calls := dn_calls s - {n}\<rparr>))"
| "down_step accepts GrpcCtxDone s =
     (if dn_panic s \<or> \<not> dn_ended s \<or> dn_grpc s \<noteq> GrpcServing then None else Some (s\<lparr>dn_grpc := GrpcDraining\<rparr>))"
| "down_step accepts GrpcDrained s =
     (if dn_panic s \<or> dn_grpc s \<noteq> GrpcDraining \<or> dn_calls s \<noteq> {} then None else Some (s\<lparr>dn_grpc := GrpcStopped\<rparr>))"
| "down_step accepts GrpcTimeout s =
     (if dn_panic s \<or> dn_grpc s \<noteq> GrpcDraining then None else Some (s\<lparr>dn_grpc := GrpcStopped\<rparr>))"
| "down_step accepts MainEnds s = (if dn_panic s \<or> dn_ended s then None else Some (s\<lparr>dn_ended := True\<rparr>))"
| "down_step accepts Defer s =
     (if dn_panic s \<or> \<not> dn_ended s \<or> dn_closing s then None
      else case dn_todo s of [] \<Rightarrow> None | r # _ \<Rightarrow> Some (begin_release r s))"
| "down_step accepts Returned s =
     (if dn_panic s \<or> \<not> dn_closing s then None
      else case dn_todo s of [] \<Rightarrow> None | r # _ \<Rightarrow> if may_return r s then Some (finish_release r s) else None)"

section \<open>What holds whenever the daemon ends\<close>

definition down_inv :: "resource list \<Rightarrow> down \<Rightarrow> bool" where
  "down_inv ds s \<longleftrightarrow>
     \<not> dn_panic s \<and> dn_gone s @ dn_todo s = ds
     \<and> (dn_closing s \<longrightarrow> dn_todo s \<noteq> [])
     \<and> (\<forall>r\<in>http_servers. r \<in> set (dn_gone s) \<longrightarrow> http_quiet (dn_http s r))
     \<and> (\<forall>r. handling (dn_http s r) \<noteq> {} \<longrightarrow> r \<in> http_servers \<and> r \<in> set ds)
     \<and> (\<forall>r. finite (handling (dn_http s r)))
     \<and> (A2ARouter \<in> set (dn_gone s) \<longrightarrow> loop_ended (dn_retry s))
     \<and> (stopCh_closed (dn_retry s) \<longleftrightarrow> A2ARouter \<in> set (dn_gone s) \<or> dn_closing s \<and> hd (dn_todo s) = A2ARouter)
     \<and> (dn_tasks_closed s \<longleftrightarrow> ANPBridge \<in> set (dn_gone s))
     \<and> (\<forall>r\<in>http_servers. dn_closing s \<and> hd (dn_todo s) = r \<longrightarrow> inShutdown (dn_http s r))"

lemma down_inv_init: "down_inv ds (down_init ds)"
  by (simp add: down_inv_def down_init_def)

text \<open>The invariant does not speak of tasks, workers, calls and the phase of the gRPC server.\<close>

lemma down_inv_frame [simp]:
  "down_inv ds (s\<lparr>dn_tasks := ts\<rparr>) = down_inv ds s" "down_inv ds (s\<lparr>dn_workers := ws\<rparr>) = down_inv ds s"
  "down_inv ds (s\<lparr>dn_calls := cs\<rparr>) = down_inv ds s" "down_inv ds (s\<lparr>dn_grpc := g\<rparr>) = down_inv ds s"
  "down_inv ds (s\<lparr>dn_ended := e\<rparr>) = down_inv ds s"
  by (simp_all add: down_inv_def)

lemma http_step_finite: "http_step a h = Some h' \<Longrightarrow> finite (handling h) \<Longrightarrow> finite (handling h')"
  by (cases a) (auto split: if_splits)

lemma http_step_down: "http_step a h = Some h' \<Longrightarrow> inShutdown h \<Longrightarrow> inShutdown h'"
  by (cases a) (auto split: if_splits)

lemma loop_step_stop: "loop_step a l = Some l' \<Longrightarrow> a \<noteq> LStop \<Longrightarrow> stopCh_closed l' = stopCh_closed l"
  by (cases a) (auto split: if_splits)

lemma not_http [simp]: "A2ARouter \<notin> http_servers" "ANPBridge \<in> http_servers" "Database \<notin> http_servers"
  by (simp_all add: http_servers_def)

lemma begin_release_inv:
  assumes "down_inv ds s" and "distinct ds" and "dn_todo s = r # rs" and "\<not> dn_closing s"
  shows "down_inv ds (begin_release r s)"
proof -
  have r: "r \<notin> set (dn_gone s)" using assms(1-3) by (auto simp: down_inv_def)
  note inv = assms(1) [unfolded down_inv_def]
  consider "r \<in> http_servers" | "r = A2ARouter" | "r \<notin> http_servers" "r \<noteq> A2ARouter" by blast
  then show ?thesis
  proof cases
    case 1
    then have "r \<noteq> A2ARouter" by auto
    with 1 inv r assms(3,4) show ?thesis by (simp add: down_inv_def begin_release_def http_quiet_def)
  next
    case 2
    then have "\<not> stopCh_closed (dn_retry s)" using inv r assms(4) by simp
    with 2 inv assms(3,4) show ?thesis by (simp add: down_inv_def begin_release_def loop_ended_def)
  next
    case 3
    with inv r assms(3,4) show ?thesis by (simp add: down_inv_def begin_release_def)
  qed
qed

lemma finish_release_inv:
  assumes "down_inv ds s" and "distinct ds" and "dn_todo s = r # rs" and "dn_closing s" and "may_return r s"
  shows "down_inv ds (finish_release r s)"
proof -
  have r: "r \<notin> set (dn_gone s)" "dn_gone s @ r # rs = ds" using assms(1-3) by (auto simp: down_inv_def)
  with assms show ?thesis
    by (auto simp: down_inv_def finish_release_def may_return_def Let_def)
qed

lemma down_step_inv:
  assumes "down_inv ds s" and "distinct ds" and "down_step accepts a s = Some s'"
  shows "down_inv ds s'"
proof (cases a)
  case (Http r b)
  with assms obtain h where h: "http_step b (dn_http s r) = Some h" "s' = s\<lparr>dn_http := (dn_http s)(r := h)\<rparr>"
      "r \<in> http_servers" "r \<in> set ds" "b \<noteq> HShutdown" by (auto simp: down_inv_def split: if_splits)
  with assms(1) http.stopped_stays [OF _ h(1)] http_step_finite [OF h(1)] http_step_down [OF h(1)] show ?thesis
    by (auto simp: down_inv_def)
next
  case (Retry b)
  with assms obtain l where "loop_step b (dn_retry s) = Some l" "s' = s\<lparr>dn_retry := l\<rparr>" "b \<noteq> LStop" by (auto split: if_splits)
  with assms(1) retries.stopped_stays loop_step_stop show ?thesis by (auto simp: down_inv_def)
next
  case (Submit n)
  with assms have "n \<in> handling (dn_http s ANPBridge)" by (auto simp: submit_task_def split: if_splits)
  then have "\<not> dn_tasks_closed s" using assms(1) by (auto simp: down_inv_def http_quiet_def)
  with assms Submit show ?thesis by (auto simp: submit_task_def split: if_splits)
next
  case Defer
  with assms show ?thesis by (auto split: if_splits list.splits intro: begin_release_inv)
next
  case Returned
  with assms show ?thesis by (auto split: if_splits list.splits intro: finish_release_inv)
qed (use assms in \<open>auto split: if_splits list.splits\<close>)

text \<open>The states that the daemon can be in from the moment it serves.\<close>

definition down_reaches :: "(grpc_phase \<Rightarrow> bool) \<Rightarrow> resource list \<Rightarrow> down \<Rightarrow> bool" where
  "down_reaches accepts ds s \<longleftrightarrow> (\<exists>as. run_steps (down_step accepts) as (down_init ds) = Some s)"

lemma down_reaches_inv:
  assumes "down_reaches accepts ds s" and "distinct ds"
  shows "down_inv ds s"
  using assms run_steps_invariant [of "down_step accepts" _ "down_init ds" s "down_inv ds"] down_inv_init down_step_inv
  unfolding down_reaches_def by blast

lemma served_sorted:
  assumes "daemon_start M i f w = (Inr rn, l)" and "daemon_serve M i f rn l = (l', w')"
  shows "sorted_wrt (>) (deferred l')" and "set (deferred l) \<subseteq> set (deferred l')"
proof -
  obtain evs where e: "deferred l' = rev (acquired evs) @ deferred l" "subseq (acquired evs) [MCPEndpoint, UnregisterContext]"
    using daemon_serve_grows [OF assms(2)] by (auto simp: grows_def)
  obtain evs0 where e0: "deferred l = rev (acquired evs0)" "subseq (acquired evs0) start_order"
    using daemon_start_grows [OF assms(1)] by (auto simp: grows_def)
  have "subseq (acquired evs0 @ acquired evs) resource_order"
    unfolding resource_order_def using e(2) e0(2) by (rule list_emb_append_mono [rotated])
  then have "sorted_wrt (<) (acquired evs0 @ acquired evs)" using resource_order_sorted subseq_sorted_wrt by blast
  moreover have "deferred l' = rev (acquired evs0 @ acquired evs)" using e(1) e0(1) by simp
  ultimately show "sorted_wrt (>) (deferred l')" by (simp only: sorted_wrt_rev)
  show "set (deferred l) \<subseteq> set (deferred l')" using e(1) by auto
qed

lemma run_deferred_prefix:
  assumes "\<forall>r\<in>set gone. returns r" and "rest = [] \<or> \<not> returns (hd rest)"
  shows "run_deferred returns (gone @ rest) evs = (if rest = [] then Exit 0 else Hang, evs @ map Released gone)"
  using assms
proof (induction gone arbitrary: evs)
  case Nil
  then show ?case by (cases rest) auto
qed simp

lemma downwards_distinct: "sorted_wrt (>) xs \<Longrightarrow> distinct (xs :: 'a :: linorder list)"
  by (induction xs) auto

lemma served_distinct:
  assumes "daemon_start M i f w = (Inr rn, l)" and "daemon_serve M i f rn l = (l', w')"
  shows "distinct (deferred l')"
  by (rule downwards_distinct [OF served_sorted(1) [OF assms]])

text \<open>In a list that is sorted downwards, what is smaller than an element of the rest is in the rest.\<close>

lemma sorted_rest:
  assumes "sorted_wrt (>) (xs @ ys)" and "r \<in> set ys" and "r' \<in> set xs"
  shows "r < (r' :: 'a :: linorder)"
  using assms by (auto simp: sorted_wrt_append)


section \<open>The end is reached\<close>

text \<open>The actions by which the daemon winds up: handlers and rounds that are running end, the retry loop quits, and \<open>main\<close> goes
  on. No request, call or round begins, and no call of an application or ANP task needs to end.\<close>

fun winding :: "down_action \<Rightarrow> bool" where
  "winding (Http r (HFinish n)) = True"
| "winding (Retry LRoundEnd) = True"
| "winding (Retry LQuit) = True"
| "winding MainEnds = True"
| "winding Defer = True"
| "winding Returned = True"
| "winding _ = False"

definition winds :: "(grpc_phase \<Rightarrow> bool) \<Rightarrow> down \<Rightarrow> down \<Rightarrow> bool" where
  "winds accepts s s' \<longleftrightarrow> (\<exists>as. run_steps (down_step accepts) as s = Some s' \<and> list_all winding as)
     \<and> dn_calls s' = dn_calls s \<and> dn_workers s' = dn_workers s"

lemma winds_refl: "winds accepts s s"
  unfolding winds_def by (auto intro: exI [of _ "[]"])

lemma winds_trans [trans]:
  assumes "winds accepts s s1" and "winds accepts s1 s2"
  shows "winds accepts s s2"
proof -
  obtain as bs where "run_steps (down_step accepts) as s = Some s1" "run_steps (down_step accepts) bs s1 = Some s2" "list_all winding (as @ bs)"
    using assms unfolding winds_def by auto
  then have "run_steps (down_step accepts) (as @ bs) s = Some s2 \<and> list_all winding (as @ bs)" by (simp add: run_steps_append)
  with assms show ?thesis unfolding winds_def by blast
qed

lemma winds_step:
  assumes "down_step accepts a s = Some s'" and "winding a" and "dn_calls s' = dn_calls s" "dn_workers s' = dn_workers s"
  shows "winds accepts s s'"
  unfolding winds_def using assms by (auto intro!: exI [of _ "[a]"])

lemma winds_inv: "winds accepts s s' \<Longrightarrow> down_inv ds s \<Longrightarrow> distinct ds \<Longrightarrow> down_inv ds s'"
  unfolding winds_def using run_steps_invariant [of "down_step accepts" _ s s' "down_inv ds"] down_step_inv by blast

definition with_handlers :: "resource \<Rightarrow> nat set \<Rightarrow> down \<Rightarrow> down" where
  "with_handlers r H s = s\<lparr>dn_http := (dn_http s)(r := (dn_http s r)\<lparr>handling := H\<rparr>)\<rparr>"

lemma handlers_finish:
  assumes "finite H" and "\<not> dn_panic s" and "r \<in> http_servers" and "r \<in> set (dn_gone s @ dn_todo s)"
  shows "winds accepts (with_handlers r H s) (with_handlers r {} s)"
  using assms(1)
proof (induction rule: finite_induct)
  case empty
  show ?case by (rule winds_refl)
next
  case (insert n H)
  have "winds accepts (with_handlers r (insert n H) s) (with_handlers r H s)"
    using insert.hyps assms(2-4) by (intro winds_step [where a = "Http r (HFinish n)"]) (auto simp: with_handlers_def)
  then show ?case using insert.IH by (rule winds_trans)
qed

text \<open>A deferred call that has begun can return.\<close>

lemma release_returns:
  assumes "down_inv ds s" and "dn_todo s = r # rs" and "dn_closing s" and "dn_ended s"
  shows "\<exists>s'. winds accepts s s' \<and> may_return r s' \<and> dn_todo s' = r # rs \<and> dn_closing s' \<and> dn_ended s'"
proof -
  note inv = assms(1) [unfolded down_inv_def]
  consider "r \<in> http_servers" | "r = A2ARouter" | "r \<notin> http_servers" "r \<noteq> A2ARouter" by blast
  then show ?thesis
  proof cases
    case 1
    have "winds accepts (with_handlers r (handling (dn_http s r)) s) (with_handlers r {} s)"
      using inv assms(2) 1 by (intro handlers_finish) auto
    moreover have "with_handlers r (handling (dn_http s r)) s = s" by (simp add: with_handlers_def)
    ultimately show ?thesis
      using inv assms 1 by (intro exI [of _ "with_handlers r {} s"]) (auto simp: with_handlers_def may_return_def http_quiet_def)
  next
    case 2
    define q where "q = (\<lambda>p. s\<lparr>dn_retry := (dn_retry s)\<lparr>loop_at := p\<rparr>\<rparr>)"
    have stop: "stopCh_closed (dn_retry s)" using inv assms(2,3) 2 by simp
    have a: "winds accepts (q LoopRound) (q LoopSelect)"
      using inv by (intro winds_step [where a = "Retry LRoundEnd"]) (auto simp: q_def)
    have b: "winds accepts (q LoopSelect) (q LoopDone)"
      using inv stop by (intro winds_step [where a = "Retry LQuit"]) (auto simp: q_def)
    have "winds accepts (q p) (q LoopDone)" for p
      using a b winds_trans [OF a b] winds_refl by (cases p) auto
    moreover have "s = q (loop_at (dn_retry s))" by (simp add: q_def)
    ultimately have "winds accepts s (q LoopDone)" by metis
    then show ?thesis using assms 2 by (intro exI [of _ "q LoopDone"]) (simp add: q_def may_return_def loop_ended_def)
  next
    case 3
    with assms show ?thesis by (intro exI [of _ s]) (simp add: winds_refl may_return_def)
  qed
qed

lemma release_head:
  assumes "down_inv ds s" and "distinct ds" and "dn_todo s = r # rs" and "dn_ended s"
  shows "\<exists>s'. winds accepts s s' \<and> dn_todo s' = rs \<and> dn_ended s'"
proof -
  have "\<exists>s1. winds accepts s s1 \<and> dn_todo s1 = r # rs \<and> dn_closing s1 \<and> dn_ended s1"
  proof (cases "dn_closing s")
    case False
    have i: "\<not> dn_panic (begin_release r s)" using begin_release_inv [OF assms(1-3) False] by (simp add: down_inv_def)
    have "down_step accepts Defer s = Some (begin_release r s)" using assms False by (simp add: down_inv_def)
    then have "winds accepts s (begin_release r s)"
      by (rule winds_step) (auto simp: begin_release_def split: option.split)
    moreover have "dn_todo (begin_release r s) = r # rs \<and> dn_closing (begin_release r s) \<and> dn_ended (begin_release r s)"
      using i assms(3,4) unfolding begin_release_def by (auto split: if_splits option.splits)
    ultimately show ?thesis by blast
  qed (use assms winds_refl in blast)
  then obtain s1 where s1: "winds accepts s s1" "dn_todo s1 = r # rs" "dn_closing s1" "dn_ended s1" by blast
  from release_returns [OF winds_inv [OF s1(1) assms(1,2)] s1(2-4), of accepts]
  obtain s2 where s2: "winds accepts s1 s2" "may_return r s2" "dn_todo s2 = r # rs" "dn_closing s2" "dn_ended s2" by blast
  have w2: "winds accepts s s2" using winds_trans s1(1) s2(1) by blast
  have i2: "down_inv ds s2" by (rule winds_inv [OF w2 assms(1,2)])
  have "\<not> dn_panic (finish_release r s2)" using finish_release_inv [OF i2 assms(2) s2(3,4,2)] by (simp add: down_inv_def)
  then have f: "dn_todo (finish_release r s2) = rs" "dn_ended (finish_release r s2)"
    using s2 by (auto simp: finish_release_def Let_def split: if_splits)
  have "down_step accepts Returned s2 = Some (finish_release r s2)" using i2 s2 by (simp add: down_inv_def)
  then have "winds accepts s2 (finish_release r s2)" by (rule winds_step) (auto simp: finish_release_def Let_def)
  with f show ?thesis using winds_trans [OF w2] by blast
qed

lemma all_released:
  assumes "down_inv ds s" and "distinct ds" and "dn_ended s"
  shows "\<exists>s'. winds accepts s s' \<and> dn_todo s' = []"
  using assms
proof (induction "dn_todo s" arbitrary: s)
  case Nil
  then show ?case using winds_refl by metis
next
  case (Cons r rs)
  from Cons.hyps(2) have "dn_todo s = r # rs" by simp
  from release_head [OF Cons.prems(1,2) this Cons.prems(3), of accepts]
  obtain s1 where s1: "winds accepts s s1" "dn_todo s1 = rs" "dn_ended s1" by blast
  from Cons.hyps(1) [OF s1(2) [symmetric] winds_inv [OF s1(1) Cons.prems(1,2)] Cons.prems(2) s1(3)]
  show ?case using winds_trans [OF s1(1)] by blast
qed

lemma winds_up:
  assumes "down_inv ds s" and "distinct ds"
  shows "\<exists>s'. winds accepts s s' \<and> dn_todo s' = [] \<and> dn_gone s' = ds"
proof -
  define s1 where "s1 = s\<lparr>dn_ended := True\<rparr>"
  have w: "winds accepts s s1"
  proof (cases "dn_ended s")
    case False
    then show ?thesis using assms(1) unfolding s1_def by (intro winds_step [where a = MainEnds]) (simp_all add: down_inv_def)
  next
    case True
    then have "s1 = s" by (simp add: s1_def)
    then show ?thesis using winds_refl by simp
  qed
  have "down_inv ds s1" "dn_ended s1" using assms(1) by (simp_all add: s1_def)
  from all_released [OF this(1) assms(2) this(2), of accepts]
  obtain s2 where "winds accepts s1 s2" and e: "dn_todo s2 = []" by blast
  with w have w2: "winds accepts s s2" using winds_trans by blast
  moreover have "dn_gone s2 = ds" using winds_inv [OF w2 assms] e by (simp add: down_inv_def)
  ultimately show ?thesis using e by blast
qed


lemma down_reaches_trans:
  assumes "down_reaches accepts ds s" and "run_steps (down_step accepts) as s = Some s'"
  shows "down_reaches accepts ds s'"
proof -
  obtain bs where "run_steps (down_step accepts) bs (down_init ds) = Some s" using assms(1) by (auto simp: down_reaches_def)
  with assms(2) have "run_steps (down_step accepts) (bs @ as) (down_init ds) = Some s'" by (simp add: run_steps_append)
  then show ?thesis unfolding down_reaches_def by blast
qed

lemma anp_served:
  assumes "daemon_start M i f w = (Inr rn, l)" and "anp_Enabled (cf_ANP (rn_cfg rn))"
  shows "ANPBridge \<in> set (deferred l)"
  using assms(1)
proof (cases rule: daemon_start_cases)
  case (connect cfg l0 t l1 key d w2 l2 h l3 s q bridge own l4)
  have "rn_cfg rn = cfg"
    using connect(6) by (cases rule: main_connect_cases) (auto split: sum.splits prod.splits)
  then have "ANPBridge \<in> set (deferred l4)"
    using connect(5) assms(2) by (auto simp: main_services_def main_anp_def main_metrics_def acquire_def note_event_def split: prod.splits if_splits)
  then show ?thesis using grows_deferred [OF main_connect_grows [OF connect(6)]] by blast
qed simp_all

text \<open>
  C39. Calls of applications and ANP tasks outlive what they use. \<open>main\<close> does not wait for the gRPC server: in every
  started daemon a call that has begun can still be running when the database, the router and the host are
  released. With ANP enabled the same holds for a task whose HTTP request has already been answered for
  lateness.
\<close>

theorem calls_outlive_database:
  assumes "daemon_start M i f w = (Inr rn, l)" and "daemon_serve M i f rn l = (l', w')" and "accepts GrpcServing"
  shows "(\<exists>s. down_reaches accepts (deferred l') s \<and> {Database, A2ARouter, P2PHost} \<subseteq> set (dn_gone s) \<and> n \<in> dn_calls s)
    \<and> (anp_Enabled (cf_ANP (rn_cfg rn)) \<longrightarrow>
        (\<exists>s. down_reaches accepts (deferred l') s \<and> {Database, A2ARouter, P2PHost} \<subseteq> set (dn_gone s) \<and> n \<in> dn_workers s))"
proof -
  have all: "\<exists>s'. down_reaches accepts (deferred l') s' \<and> {Database, A2ARouter, P2PHost} \<subseteq> set (dn_gone s')
      \<and> dn_calls s' = dn_calls s \<and> dn_workers s' = dn_workers s"
    if r: "run_steps (down_step accepts) as (down_init (deferred l')) = Some s" for as s
  proof -
    have re: "down_reaches accepts (deferred l') s" using r unfolding down_reaches_def by blast
    note d = served_distinct [OF assms(1,2)]
    from winds_up [OF down_reaches_inv [OF re d] d, of accepts]
    obtain s' where s': "winds accepts s s'" "dn_gone s' = deferred l'" by blast
    then have "down_reaches accepts (deferred l') s'" using down_reaches_trans [OF re] unfolding winds_def by blast
    moreover have "{Database, A2ARouter, P2PHost} \<subseteq> set (dn_gone s')"
      using start_acquires(1) [OF assms(1)] served_sorted(2) [OF assms(1,2)] s'(2) by auto
    ultimately show ?thesis using s'(1) unfolding winds_def by blast
  qed
  have "run_steps (down_step accepts) [Begin n] (down_init (deferred l')) = Some ((down_init (deferred l'))\<lparr>dn_calls := {n}\<rparr>)"
    using assms(3) by (simp add: down_init_def)
  from all [OF this] have "\<exists>s. down_reaches accepts (deferred l') s \<and> {Database, A2ARouter, P2PHost} \<subseteq> set (dn_gone s) \<and> n \<in> dn_calls s"
    by auto
  moreover have "\<exists>s. down_reaches accepts (deferred l') s \<and> {Database, A2ARouter, P2PHost} \<subseteq> set (dn_gone s) \<and> n \<in> dn_workers s"
    if a: "anp_Enabled (cf_ANP (rn_cfg rn))"
  proof -
    have "ANPBridge \<in> set (deferred l')" using anp_served [OF assms(1) a] served_sorted(2) [OF assms(1,2)] by blast
    then obtain s where s: "run_steps (down_step accepts) [Http ANPBridge HListen, Http ANPBridge (HArrive n), Submit n, Consume]
        (down_init (deferred l')) = Some s" "n \<in> dn_workers s"
      by (auto simp: down_init_def submit_task_def)
    from all [OF s(1)] s(2) show ?thesis by auto
  qed
  ultimately show ?thesis by blast
qed

end
