(* ===== verification/ShutdownExamples.thy ===== *)
theory ShutdownExamples
  imports Shutdown LifecycleExamples
begin

text \<open>The theorems on the end of the daemon, on the concrete daemon with the HTTP bridge.\<close>

lemma demo_served:
  obtains rn l l' w' where "daemon_start (demo_main demo_card_libs mem_empty) demo_main_inputs (demo_main_flags []) () = (Inr rn, l)"
    and "daemon_serve (demo_main demo_card_libs mem_empty) demo_main_inputs (demo_main_flags []) rn l = (l', w')"
    and "{HTTPBridge, Database} \<subseteq> set (deferred l')"
proof -
  obtain rn l where r: "daemon_start (demo_main demo_card_libs mem_empty) demo_main_inputs (demo_main_flags []) () = (Inr rn, l)" "rn_cfg rn = demo_cfg"
    by (rule demo_daemon_runs [of "[]" demo_card_libs mem_empty]) auto
  obtain l' w' where sv: "daemon_serve (demo_main demo_card_libs mem_empty) demo_main_inputs (demo_main_flags []) rn l = (l', w')" by (meson surj_pair)
  have "br_Enabled (cf_Bridge demo_cfg)" by (simp add: demo_cfg_def)
  with start_acquires(1,2) [OF r(1)] r(2) served_sorted(2) [OF r(1) sv] have "{HTTPBridge, Database} \<subseteq> set (deferred l')" by auto
  with that r(1) sv show ?thesis by blast
qed

text \<open>A request that the bridge has taken.\<close>

lemma demo_request:
  assumes "HTTPBridge \<in> set ds"
  shows "\<exists>s. down_reaches accepts ds s \<and> 7 \<in> handling (dn_http s HTTPBridge)"
proof -
  have "\<exists>s. run_steps (down_step accepts) [Http HTTPBridge HListen, Http HTTPBridge (HArrive 7)] (down_init ds) = Some s
      \<and> 7 \<in> handling (dn_http s HTTPBridge)"
    using assms by (simp add: down_init_def http_servers_def)
  then show ?thesis unfolding down_reaches_def by blast
qed



theorem calls_outlive_database_witness:
  "\<exists>rn l l' w' s. daemon_start (demo_main demo_card_libs mem_empty) demo_main_inputs (demo_main_flags []) () = (Inr rn, l)
     \<and> daemon_serve (demo_main demo_card_libs mem_empty) demo_main_inputs (demo_main_flags []) rn l = (l', w')
     \<and> down_reaches (\<lambda>p. p = GrpcServing) (deferred l') s \<and> Database \<in> set (dn_gone s) \<and> 3 \<in> dn_calls s"
proof -
  obtain rn l l' w' where d: "daemon_start (demo_main demo_card_libs mem_empty) demo_main_inputs (demo_main_flags []) () = (Inr rn, l)"
    "daemon_serve (demo_main demo_card_libs mem_empty) demo_main_inputs (demo_main_flags []) rn l = (l', w')" "{HTTPBridge, Database} \<subseteq> set (deferred l')"
    by (rule demo_served)
  from calls_outlive_database [OF d(1,2), of "\<lambda>p. p = GrpcServing" 3] d show ?thesis by auto
qed

end
