(* ===== verification/Metrics.thy ===== *)
theory Metrics
  imports Mcp Startup
begin

text \<open>
  The collectors of \<^verbatim>\<open>internal/metrics/metrics.go\<close> and every place that updates them: the calls of the gRPC
  server, the forwarding of incoming tasks, the MCP tools and the connection callback of the host. A counter with
  labels panics when it is given another number of values than it has labels; this is the value \<open>None\<close>.
\<close>

section \<open>The collectors\<close>

datatype metric =
    ConnectedPeers
  | ConnectionsTotal
  | TasksTotal
  | TaskDuration
  | RouteResolutions
  | BridgeRequests
  | StreamChunksTotal
  | MessagesTotal
  | OfflineQueueSize
  | ConnectionsByTransport
  | MCPToolCalls

datatype metric_kind = Gauge | CounterVec | HistogramVec

primrec metric_opts :: "metric \<Rightarrow> metric_kind \<times> string \<times> string list" where
  "metric_opts ConnectedPeers = (Gauge, ''connected_peers'', [])"
| "metric_opts ConnectionsTotal = (CounterVec, ''connections_total'', [''direction''])"
| "metric_opts TasksTotal = (CounterVec, ''tasks_total'', [''direction'', ''status''])"
| "metric_opts TaskDuration = (HistogramVec, ''task_duration_seconds'', [''direction''])"
| "metric_opts RouteResolutions = (CounterVec, ''route_resolutions_total'', [''result''])"
| "metric_opts BridgeRequests = (CounterVec, ''bridge_requests_total'', [''direction'', ''status''])"
| "metric_opts StreamChunksTotal = (CounterVec, ''stream_chunks_total'', [''direction''])"
| "metric_opts MessagesTotal = (CounterVec, ''messages_total'', [''type''])"
| "metric_opts OfflineQueueSize = (Gauge, ''offline_queue_size'', [])"
| "metric_opts ConnectionsByTransport = (CounterVec, ''connections_by_transport'', [''transport''])"
| "metric_opts MCPToolCalls = (CounterVec, ''mcp_tool_calls_total'', [''tool'', ''status''])"

definition all_metrics :: "metric list" where
  "all_metrics = [ConnectedPeers, ConnectionsTotal, TasksTotal, TaskDuration, RouteResolutions, BridgeRequests, StreamChunksTotal,
     MessagesTotal, OfflineQueueSize, ConnectionsByTransport, MCPToolCalls]"

definition metric_FQName :: "metric \<Rightarrow> string" where
  "metric_FQName m = ''agentanycast_'' @ fst (snd (metric_opts m))"

text \<open>The registration of all collectors when the package is initialised: \<open>promauto\<close> panics on a name that is taken.\<close>

fun register_all :: "metric list \<Rightarrow> string list \<Rightarrow> string list option" where
  "register_all [] names = Some names"
| "register_all (m # ms) names = (if metric_FQName m \<in> set names then None else register_all ms (metric_FQName m # names))"

text \<open>How often each collector was updated with which label values: the value of a counter, the number of observations of a
  histogram.\<close>

type_synonym metric_table = "metric \<times> string list \<Rightarrow> nat"

definition metric_update :: "metric \<Rightarrow> string list \<Rightarrow> metric_table \<Rightarrow> metric_table option" where
  "metric_update m lvs t =
     (if length lvs \<noteq> length (snd (snd (metric_opts m))) then None else Some (t((m, lvs) := Suc (t (m, lvs)))))"

fun metric_updates :: "(metric \<times> string list) list \<Rightarrow> metric_table \<Rightarrow> metric_table option" where
  "metric_updates [] t = Some t"
| "metric_updates ((m, lvs) # us) t = (case metric_update m lvs t of None \<Rightarrow> None | Some t' \<Rightarrow> metric_updates us t')"

section \<open>Who updates them\<close>

definition core_updates :: "pb_Task rpc \<Rightarrow> (metric \<times> string list) list" where
  "core_updates res =
     (case res of
        Inl (_, DText _) \<Rightarrow> []
      | Inl _ \<Rightarrow> [(TasksTotal, [''sent'', ''error''])]
      | Inr _ \<Rightarrow> [(TasksTotal, [''sent'', ''submitted'']), (TaskDuration, [''sent''])])"

definition peer_updates :: "pb_Task rpc \<Rightarrow> (metric \<times> string list) list" where
  "peer_updates res =
     (case res of
        Inl (InvalidArgument, _) \<Rightarrow> []
      | Inl _ \<Rightarrow> [(TasksTotal, [''sent'', ''error''])]
      | Inr _ \<Rightarrow> [(TasksTotal, [''sent'', ''submitted'']), (TaskDuration, [''sent''])])"

definition skill_updates :: "pb_Task rpc \<Rightarrow> (metric \<times> string list) list" where
  "skill_updates res =
     (case res of
        Inl (Unavailable, _) \<Rightarrow> []
      | Inl (NotFound, _) \<Rightarrow> [(RouteResolutions, [''miss''])]
      | Inl _ \<Rightarrow> [(RouteResolutions, [''hit'']), (TasksTotal, [''sent'', ''error''])]
      | Inr _ \<Rightarrow> [(RouteResolutions, [''hit'']), (TasksTotal, [''sent'', ''submitted'']), (TaskDuration, [''sent''])])"

definition bridge_updates :: "pb_Task rpc \<Rightarrow> (metric \<times> string list) list" where
  "bridge_updates res =
     (case res of
        Inl (Unavailable, _) \<Rightarrow> []
      | Inl _ \<Rightarrow> [(BridgeRequests, [''outbound'', ''error''])]
      | Inr _ \<Rightarrow> [(BridgeRequests, [''outbound'', ''ok'']), (TaskDuration, [''sent''])])"

definition send_updates :: "('l, 'f, 'w) Server \<Rightarrow> SendTaskRequest \<Rightarrow> pb_Task rpc \<Rightarrow> (metric \<times> string list) list" where
  "send_updates s req res =
     (if sr_Message req = None then []
      else case (if connectionCore s then resolveConnectionCoreTarget (sr_Target req) else None) of
        Some _ \<Rightarrow> core_updates res
      | None \<Rightarrow>
          (case sr_Target req of
             Some (TargetPeerId _) \<Rightarrow> peer_updates res
           | Some (TargetSkillId _) \<Rightarrow> skill_updates res
           | Some (TargetUrl _) \<Rightarrow> bridge_updates res
           | None \<Rightarrow> []))"

definition forward_updates :: "('l, 'f, 'w) Server \<Rightarrow> (metric \<times> string list) list" where
  "forward_updates s = (if incomingCh (srv_router s) = [] then [] else [(TasksTotal, [''received'', ''submitted''])])"

definition connect_updates :: "string option \<Rightarrow> (metric \<times> string list) list" where
  "connect_updates addr = [(ConnectionsByTransport, [ClassifyTransport addr])]"

section \<open>The MCP server\<close>

record ('db, 'l, 'f, 'w) mcp_Server =
  mcp_Name :: string
  mcp_Version :: string
  mcp_Tools :: "(mcp_tool \<times> ('db, 'l, 'f, 'w) tool_handler) list"

definition mcp_New :: "'w mcp_lib \<Rightarrow> ('db, 'l, 'f, 'w, 'pub) server_libs \<Rightarrow> server_inputs \<Rightarrow> ('db, 'l, 'f, 'w) mcp_Server" where
  "mcp_New M L i = \<lparr>mcp_Name = ''agentanycast'', mcp_Version = ''0.4.0-dev'', mcp_Tools = registerTools M L i\<rparr>"

section \<open>A history of the daemon\<close>

text \<open>What happens to the daemon that touches a collector: a task is sent, a tool is called by its name, an incoming task is
  forwarded, a peer connects.\<close>

datatype daemon_op =
    OpSend server_inputs SendTaskRequest
  | OpTool server_inputs string json
  | OpForward
  | OpConnect "string option"

text \<open>Whether the task was sent; the tool's name and status as counted; whether there was a task to forward; the transport.\<close>

datatype op_outcome = Sent bool | Called string string | NoTool | Forwarded bool | Connected string

fun op_step ::
  "'w mcp_lib \<Rightarrow> ('db, 'l, 'f, 'w, 'pub) server_libs \<Rightarrow> daemon_op \<Rightarrow> ('l, 'f, 'w) Server \<times> 'db \<times> 'w \<Rightarrow>
   op_outcome \<times> (metric \<times> string list) list \<times> ('l, 'f, 'w) Server \<times> 'db \<times> 'w" where
  "op_step M L (OpSend i req) (s, d, w) =
     (case server_SendTask L i req s d w of (res, st) \<Rightarrow> (Sent (case res of Inl _ \<Rightarrow> False | Inr _ \<Rightarrow> True), send_updates s req res, st))"
| "op_step M L (OpTool i name args) (s, d, w) =
     (case List.find (\<lambda>(t, _). tool_Name t = name) (mcp_Tools (mcp_New M L i)) of
        None \<Rightarrow> (NoTool, [], s, d, w)
      | Some (_, h) \<Rightarrow>
          (case h args s d w of ((_, (tool, status)), st) \<Rightarrow> (Called tool status, [(MCPToolCalls, [tool, status])], st)))"
| "op_step M L OpForward (s, d, w) = (Forwarded (incomingCh (srv_router s) \<noteq> []), forward_updates s, forward_one s, d, w)"
| "op_step M L (OpConnect addr) (s, d, w) = (Connected (ClassifyTransport addr), connect_updates addr, s, d, w)"

fun run_ops ::
  "'w mcp_lib \<Rightarrow> ('db, 'l, 'f, 'w, 'pub) server_libs \<Rightarrow> daemon_op list \<Rightarrow> ('l, 'f, 'w) Server \<times> 'db \<times> 'w \<Rightarrow> metric_table \<Rightarrow>
   (op_outcome list \<times> metric_table) option" where
  "run_ops M L [] st t = Some ([], t)"
| "run_ops M L (op # ops) st t =
     (case op_step M L op st of (out, us, st') \<Rightarrow>
        (case metric_updates us t of
           None \<Rightarrow> None
         | Some t' \<Rightarrow> map_option (\<lambda>(outs, t''). (out # outs, t'')) (run_ops M L ops st' t')))"

section \<open>Counting\<close>

definition well_labelled :: "metric \<times> string list \<Rightarrow> bool" where
  "well_labelled u \<longleftrightarrow> length (snd u) = length (snd (snd (metric_opts (fst u))))"

lemma metric_updates_counts:
  "list_all well_labelled us \<Longrightarrow> \<exists>t'. metric_updates us t = Some t' \<and> (\<forall>k. t' k = t k + count_list us k)"
proof (induction us t rule: metric_updates.induct)
  case (2 m lvs us t)
  then obtain t' where "metric_updates us (t((m, lvs) := Suc (t (m, lvs)))) = Some t'"
      "\<forall>k. t' k = (t((m, lvs) := Suc (t (m, lvs)))) k + count_list us k"
    by (auto simp: well_labelled_def metric_update_def)
  with 2(2) show ?case by (auto simp: well_labelled_def metric_update_def)
qed simp

lemma send_updates_labelled: "list_all well_labelled (send_updates s req res)"
  by (auto simp: send_updates_def core_updates_def peer_updates_def skill_updates_def bridge_updates_def well_labelled_def
      split: option.split sum.split prod.split detail.split grpc_code.split send_target.split)

lemma op_step_labelled: "op_step M L op st = (out, us, st') \<Longrightarrow> list_all well_labelled us"
  by (cases op; cases st) (auto simp: send_updates_labelled well_labelled_def forward_updates_def connect_updates_def split: prod.splits option.splits)

text \<open>The collectors that nothing updates.\<close>

definition idle_metrics :: "metric set" where
  "idle_metrics = {ConnectedPeers, ConnectionsTotal, StreamChunksTotal, MessagesTotal, OfflineQueueSize}"

text \<open>What an outcome adds to the collectors.\<close>

definition accounted :: "op_outcome list \<Rightarrow> metric_table \<Rightarrow> metric_table \<Rightarrow> bool" where
  "accounted outs t t' \<longleftrightarrow>
     t' (TasksTotal, [''sent'', ''submitted'']) + t' (BridgeRequests, [''outbound'', ''ok''])
       = t (TasksTotal, [''sent'', ''submitted'']) + t (BridgeRequests, [''outbound'', ''ok'']) + count_list outs (Sent True)
     \<and> t' (TaskDuration, [''sent'']) = t (TaskDuration, [''sent'']) + count_list outs (Sent True)
     \<and> t' (TasksTotal, [''sent'', ''error'']) + t' (BridgeRequests, [''outbound'', ''error'']) + t' (RouteResolutions, [''miss''])
       \<le> t (TasksTotal, [''sent'', ''error'']) + t (BridgeRequests, [''outbound'', ''error'']) + t (RouteResolutions, [''miss'']) + count_list outs (Sent False)
     \<and> t' (TasksTotal, [''received'', ''submitted'']) = t (TasksTotal, [''received'', ''submitted'']) + count_list outs (Forwarded True)
     \<and> (\<forall>tool st. t' (MCPToolCalls, [tool, st]) = t (MCPToolCalls, [tool, st]) + count_list outs (Called tool st))
     \<and> (\<forall>x. t' (ConnectionsByTransport, [x]) = t (ConnectionsByTransport, [x]) + count_list outs (Connected x))
     \<and> (\<forall>m lvs. m \<in> idle_metrics \<longrightarrow> t' (m, lvs) = t (m, lvs))"

lemma accounted_Nil: "accounted [] t t"
  by (simp add: accounted_def)

lemma accounted_Cons: "accounted [out] t t1 \<Longrightarrow> accounted outs t1 t' \<Longrightarrow> accounted (out # outs) t t'"
  unfolding accounted_def by (auto split: if_splits)

definition sent_updates :: "(metric \<times> string list) list set" where
  "sent_updates = {[(TasksTotal, [''sent'', ''submitted'']), (TaskDuration, [''sent''])],
     [(RouteResolutions, [''hit'']), (TasksTotal, [''sent'', ''submitted'']), (TaskDuration, [''sent''])],
     [(BridgeRequests, [''outbound'', ''ok'']), (TaskDuration, [''sent''])]}"

definition unsent_updates :: "(metric \<times> string list) list set" where
  "unsent_updates = {[], [(TasksTotal, [''sent'', ''error''])], [(RouteResolutions, [''miss''])],
     [(RouteResolutions, [''hit'']), (TasksTotal, [''sent'', ''error''])], [(BridgeRequests, [''outbound'', ''error''])]}"

lemma unsent_parts:
  "core_updates (Inl err) \<in> unsent_updates" "peer_updates (Inl err) \<in> unsent_updates"
  "skill_updates (Inl err) \<in> unsent_updates" "bridge_updates (Inl err) \<in> unsent_updates" "[] \<in> unsent_updates"
proof -
  obtain c e where err: "err = (c, e)" by (cases err)
  show "core_updates (Inl err) \<in> unsent_updates" by (cases e) (simp_all add: err core_updates_def unsent_updates_def)
  show "peer_updates (Inl err) \<in> unsent_updates" "skill_updates (Inl err) \<in> unsent_updates" "bridge_updates (Inl err) \<in> unsent_updates"
    by (cases c; simp add: err peer_updates_def skill_updates_def bridge_updates_def unsent_updates_def)+
qed (simp add: unsent_updates_def)

lemma sent_parts:
  "core_updates (Inr t) \<in> sent_updates" "peer_updates (Inr t) \<in> sent_updates"
  "skill_updates (Inr t) \<in> sent_updates" "bridge_updates (Inr t) \<in> sent_updates"
  by (simp_all add: core_updates_def peer_updates_def skill_updates_def bridge_updates_def sent_updates_def)

lemma send_updates_cases:
  assumes "server_SendTask L i req s d w = (res, st)"
  shows "send_updates s req res \<in> (case res of Inl _ \<Rightarrow> unsent_updates | Inr _ \<Rightarrow> sent_updates)"
proof (cases res)
  case (Inl err)
  then show ?thesis by (simp add: send_updates_def unsent_parts split: option.split send_target.split)
next
  case (Inr t)
  then have "sr_Message req \<noteq> None" "sr_Target req \<noteq> None"
    using assms by (auto simp: server_SendTask_def resolveConnectionCoreTarget_def split: option.splits if_splits)
  with Inr show ?thesis by (auto simp: send_updates_def sent_parts split: option.split send_target.split)
qed

lemma op_accounted:
  assumes "\<forall>k. t' k = t k + count_list us k" and "op_step M L op st = (out, us, st')"
  shows "accounted [out] t t'"
proof (cases op)
  case (OpSend i req)
  obtain s d w where st: "st = (s, d, w)" by (cases st) auto
  obtain res st1 where r: "server_SendTask L i req s d w = (res, st1)" by (meson surj_pair)
  from assms(2) OpSend st r have e: "us = send_updates s req res" "out = Sent (case res of Inl _ \<Rightarrow> False | Inr _ \<Rightarrow> True)" by auto
  show ?thesis
  proof (cases res)
    case (Inl err)
    with send_updates_cases [OF r] e have "us \<in> unsent_updates" "out = Sent False" by auto
    then show ?thesis by (auto simp: unsent_updates_def accounted_def assms(1) idle_metrics_def)
  next
    case (Inr t)
    with send_updates_cases [OF r] e have "us \<in> sent_updates" "out = Sent True" by auto
    then show ?thesis by (auto simp: sent_updates_def accounted_def assms(1) idle_metrics_def)
  qed
next
  case (OpTool i name args)
  with assms show ?thesis
    by (cases st) (auto simp: accounted_def idle_metrics_def split: option.splits prod.splits if_splits)
next
  case OpForward
  with assms show ?thesis by (cases st) (auto simp: accounted_def idle_metrics_def forward_updates_def)
next
  case (OpConnect addr)
  with assms show ?thesis by (cases st) (auto simp: accounted_def idle_metrics_def connect_updates_def split: if_splits)
qed

lemma run_ops_accounted:
  "\<exists>outs t'. run_ops M L ops st t = Some (outs, t') \<and> length outs = length ops \<and> accounted outs t t'"
proof (induction ops arbitrary: st t)
  case Nil
  then show ?case by (simp add: accounted_Nil)
next
  case (Cons op ops)
  obtain out us st1 where o: "op_step M L op st = (out, us, st1)" by (metis prod_cases3)
  obtain t1 where t1: "metric_updates us t = Some t1" "\<forall>k. t1 k = t k + count_list us k"
    using metric_updates_counts [OF op_step_labelled [OF o]] by blast
  from Cons.IH [of st1 t1] obtain outs t' where "run_ops M L ops st1 t1 = Some (outs, t')" "length outs = length ops" "accounted outs t1 t'" by blast
  with o t1 accounted_Cons [OF op_accounted [OF t1(2) o]] show ?case by auto
qed


end
