(* ===== verification/Trace.thy ===== *)
theory Trace
  imports RouterFacts
begin

text \<open>
  The propagation of trace contexts with tasks: \<open>InjectTraceContext\<close> and \<open>ExtractTraceContext\<close> of
  \<^verbatim>\<open>internal/telemetry/propagation.go\<close>, with the composite of the trace-context and the baggage propagator that
  \<^verbatim>\<open>internal/telemetry/telemetry.go\<close> installs. The propagators belong to the OpenTelemetry library, and \<open>trace_propagators\<close> says
  what the code relies on of them.
\<close>

section \<open>Propagators\<close>

text \<open>A propagator writes fields for a context, and reads a context from what a carrier returns for a key.\<close>

record 'c propagator =
  pr_Fields :: "'c \<Rightarrow> (string \<times> string) list"
  pr_Extract :: "(string \<Rightarrow> string) \<Rightarrow> 'c \<Rightarrow> 'c"

text \<open>\<open>NewCompositeTextMapPropagator\<close> of two propagators asks one after the other.\<close>

definition composite_propagator :: "'c propagator \<Rightarrow> 'c propagator \<Rightarrow> 'c propagator" where
  "composite_propagator p q =
     \<lparr>pr_Fields = (\<lambda>c. pr_Fields p c @ pr_Fields q c), pr_Extract = (\<lambda>get c. pr_Extract q get (pr_Extract p get c))\<rparr>"

definition ExtractTraceContext :: "'c propagator \<Rightarrow> 'c \<Rightarrow> A2AEnvelope \<Rightarrow> 'c" where
  "ExtractTraceContext p ctx env = pr_Extract p (\<lambda>key. carrier_Get key env) ctx"

text \<open>What a carrier that has taken all the fields of a list returns.\<close>

definition field_of :: "(string \<times> string) list \<Rightarrow> string \<Rightarrow> string" where
  "field_of fs key = (case map_of fs key of None \<Rightarrow> [] | Some v \<Rightarrow> v)"

text \<open>The trace-context propagator writes the fields of the carrier only, each at most once, and reads back the span that it
  wrote, from these fields alone. The baggage propagator writes the field \<open>baggage\<close> only, and leaves the context alone when
  there is none.\<close>

definition trace_propagators :: "'c propagator \<Rightarrow> 'c propagator \<Rightarrow> ('c \<Rightarrow> 'c \<Rightarrow> 'c) \<Rightarrow> bool" where
  "trace_propagators trace baggage with_span_of \<longleftrightarrow>
     (\<forall>c. fst ` set (pr_Fields trace c) \<subseteq> set carrier_Keys \<and> distinct (map fst (pr_Fields trace c)))
     \<and> (\<forall>get c base. (\<forall>key\<in>set carrier_Keys. get key = field_of (pr_Fields trace c) key) \<longrightarrow>
          pr_Extract trace get base = with_span_of c base)
     \<and> (\<forall>c. fst ` set (pr_Fields baggage c) \<subseteq> {''baggage''})
     \<and> (\<forall>get base. get ''baggage'' = [] \<longrightarrow> pr_Extract baggage get base = base)"

section \<open>What the carrier keeps\<close>

lemma carrier_ignores: "key \<notin> set carrier_Keys \<Longrightarrow> carrier_Set key v env = env"
  by (simp add: carrier_Set_def carrier_Keys_def)

lemma inject_ignores: "fst ` set fs \<inter> set carrier_Keys = {} \<Longrightarrow> InjectTraceContext fs env = env"
proof (induction fs arbitrary: env)
  case (Cons f fs)
  then show ?case by (cases f) (simp add: carrier_ignores)
qed simp

lemma inject_append: "InjectTraceContext (fs @ gs) env = InjectTraceContext gs (InjectTraceContext fs env)"
  by (induction fs env rule: InjectTraceContext.induct) simp_all

lemma inject_get:
  assumes "fst ` set fs \<subseteq> set carrier_Keys" and "distinct (map fst fs)"
  shows "carrier_Get key (InjectTraceContext fs env) = (case map_of fs key of None \<Rightarrow> carrier_Get key env | Some v \<Rightarrow> v)"
  using assms
proof (induction fs env rule: InjectTraceContext.induct)
  case (2 k v kvs env)
  then have "map_of kvs k = None" by (simp add: map_of_eq_None_iff)
  with 2 show ?case by (auto simp: carrier_Get_Set split: option.splits)
qed simp

text \<open>A context that is injected into an envelope without trace fields is extracted from it, but for the baggage.\<close>

lemma inject_extract:
  assumes "trace_propagators trace baggage with_span_of" and "TraceParent env = []" and "TraceState env = []"
  shows "ExtractTraceContext (composite_propagator trace baggage) base
      (InjectTraceContext (pr_Fields (composite_propagator trace baggage) c) env) = with_span_of c base"
proof -
  note laws = assms(1) [unfolded trace_propagators_def]
  let ?env = "InjectTraceContext (pr_Fields trace c) env"
  have "fst ` set (pr_Fields baggage c) \<inter> set carrier_Keys = {}" 
  proof -
    have "fst ` set (pr_Fields baggage c) \<subseteq> {''baggage''}" using laws by blast
    then show ?thesis by (auto simp: carrier_Keys_def)
  qed
  then have e: "InjectTraceContext (pr_Fields (composite_propagator trace baggage) c) env = ?env"
    by (simp add: composite_propagator_def inject_append inject_ignores)
  have "carrier_Get key ?env = field_of (pr_Fields trace c) key" for key
    using inject_get [of "pr_Fields trace c" key env] laws assms(2,3) by (auto simp: field_of_def carrier_Get_def split: option.splits)
  then have "pr_Extract trace (\<lambda>key. carrier_Get key ?env) base = with_span_of c base" using laws by simp
  moreover have "carrier_Get ''baggage'' ?env = []" by (simp add: carrier_Get_def)
  ultimately show ?thesis using laws unfolding ExtractTraceContext_def e by (simp add: composite_propagator_def)
qed

section \<open>A task carries its trace\<close>

lemma SendTask_envelope:
  assumes "linked L" "pb_codec_ok (lib_pb L)" "SendTask L i q msg sk cx r d [] = (Inr task, r', d', [(q', dat)])"
  shows "\<exists>env. pb_Unmarshal (lib_pb L) dat = Some (InjectTraceContext (ri_trace i) env) \<and> TraceParent env = [] \<and> TraceState env = []"
proof -
  define env where "env = mk_envelope (ri_uuid2 i) ENVELOPE_TYPE_SEND_TASK (ri_clock i 2)
      (PSendTask \<lparr>st_TaskId = ri_uuid i, st_ContextId = cx, st_Message = msg, st_TargetSkillId = sk\<rparr>)"
  obtain r1 where "send_tracked L (ri_clock i 3) q (InjectTraceContext (ri_trace i) env) r1 [] = (None, r', [(q', dat)])"
    using assms(3) by (auto simp: SendTask_def CreateTask_def env_def Let_def split: prod.splits option.splits)
  from send_tracked_sent [OF assms(1,2) this] show ?thesis by (auto simp: env_def mk_envelope_def)
qed

text \<open>
  The trace of a task goes with it. When a node sends a task while a span is active, the receiver extracts from the
  message that arrives a context with that very span, and everything else as it was before. The baggage, for
  which a propagator is installed too, does not arrive.
\<close>

theorem trace_travels:
  assumes "trace_propagators trace baggage with_span_of"
    and "linked L" and "pb_codec_ok (lib_pb L)" and "ri_trace i = pr_Fields (composite_propagator trace baggage) c"
    and "SendTask L i peerB msg sk cx r d [] = (Inr task, r', d', [(peerB, dat)])"
  shows "\<exists>env. pb_Unmarshal (lib_pb L) dat = Some env
    \<and> ExtractTraceContext (composite_propagator trace baggage) base env = with_span_of c base"
  using SendTask_envelope [OF assms(2,3,5)] inject_extract [OF assms(1)] assms(4) by metis

section \<open>An example\<close>

text \<open>A context has a span, which is a trace parent and a trace state, and baggage.\<close>

record demo_context =
  ctx_parent :: string
  ctx_state :: string
  ctx_baggage :: string

definition demo_trace :: "demo_context propagator" where
  "demo_trace = \<lparr>pr_Fields = (\<lambda>c. [(''traceparent'', ctx_parent c)] @ (if ctx_state c = [] then [] else [(''tracestate'', ctx_state c)])),
     pr_Extract = (\<lambda>get c. c\<lparr>ctx_parent := get ''traceparent'', ctx_state := get ''tracestate''\<rparr>)\<rparr>"

definition demo_baggage :: "demo_context propagator" where
  "demo_baggage = \<lparr>pr_Fields = (\<lambda>c. if ctx_baggage c = [] then [] else [(''baggage'', ctx_baggage c)]),
     pr_Extract = (\<lambda>get c. if get ''baggage'' = [] then c else c\<lparr>ctx_baggage := get ''baggage''\<rparr>)\<rparr>"

definition demo_span_of :: "demo_context \<Rightarrow> demo_context \<Rightarrow> demo_context" where
  "demo_span_of c base = base\<lparr>ctx_parent := ctx_parent c, ctx_state := ctx_state c\<rparr>"

lemma demo_propagators: "trace_propagators demo_trace demo_baggage demo_span_of"
  by (auto simp: trace_propagators_def demo_trace_def demo_baggage_def demo_span_of_def carrier_Keys_def field_of_def)

definition demo_traced_envelope :: A2AEnvelope where
  "demo_traced_envelope = demo_task_envelope\<lparr>TraceParent := ''00-1-2-01''\<rparr>"

definition demo_traced_wire :: pb_codec where
  "demo_traced_wire = \<lparr>pb_Marshal = (\<lambda>env. if env = demo_traced_envelope then Some [0] else None),
     pb_Unmarshal = (\<lambda>dat. if dat = [0] then Some demo_traced_envelope else None), pb_UnmarshalCard = (\<lambda>_. None)\<rparr>"

theorem trace_travels_witness:
  "\<exists>task r d env. SendTask (demo_router_libs demo_traced_wire)
       (demo_router_inputs\<lparr>ri_trace := [(''traceparent'', ''00-1-2-01''), (''baggage'', ''b'')]\<rparr>) ''B'' None ''sk'' ''cx'' demo_router mem_empty []
       = (Inr task, r, d, [(''B'', [0])])
     \<and> pb_Unmarshal demo_traced_wire [0] = Some env
     \<and> ExtractTraceContext (composite_propagator demo_trace demo_baggage) \<lparr>ctx_parent = [], ctx_state = [], ctx_baggage = []\<rparr> env
        = \<lparr>ctx_parent = ''00-1-2-01'', ctx_state = [], ctx_baggage = []\<rparr>"
proof -
  let ?c = "\<lparr>ctx_parent = ''00-1-2-01'', ctx_state = [], ctx_baggage = ''b''\<rparr>"
  let ?i = "demo_router_inputs\<lparr>ri_trace := [(''traceparent'', ''00-1-2-01''), (''baggage'', ''b'')]\<rparr>"
  have "InjectTraceContext [(''traceparent'', ''00-1-2-01''), (''baggage'', ''b'')] (mk_envelope ''u'' ENVELOPE_TYPE_SEND_TASK 2
      (PSendTask \<lparr>st_TaskId = ''k'', st_ContextId = ''cx'', st_Message = None, st_TargetSkillId = ''sk''\<rparr>)) = demo_traced_envelope"
    by (simp add: demo_traced_envelope_def demo_task_envelope_def carrier_Set_def)
  then obtain task r d where s: "SendTask (demo_router_libs demo_traced_wire) ?i ''B'' None ''sk'' ''cx'' demo_router mem_empty []
      = (Inr task, r, d, [(''B'', [0])])"
    by (auto simp: SendTask_def CreateTask_def send_tracked_def demo_router_libs_def demo_router_inputs_def demo_traced_wire_def Let_def)
  have "pb_codec_ok (lib_pb (demo_router_libs demo_traced_wire))" "ri_trace ?i = pr_Fields (composite_propagator demo_trace demo_baggage) ?c"
    by (simp_all add: demo_linked pb_codec_ok_def demo_traced_wire_def composite_propagator_def demo_trace_def demo_baggage_def)
  from trace_travels [OF demo_propagators demo_linked(1) this s, of "\<lparr>ctx_parent = [], ctx_state = [], ctx_baggage = []\<rparr>"] s
  show ?thesis by (auto simp: demo_linked demo_span_of_def)
qed

end
