(* ===== verification/TwoNodes.thy ===== *)
theory TwoNodes
  imports GrpcFacts
begin

text \<open>
  A task on two nodes. Node B executes a task of node A; its agent calls the gRPC service in any way, the goroutines
  that report run in any order, and B receives whatever peers send it. Whatever B has sent stays on the
  network: A receives any of it, in any order, late, several times or never, which is what retries, the offline
  queue, duplicates and losses amount to.
\<close>

section \<open>The system\<close>

record ('l, 'f, 'db, 'p, 'dba, 'w) nodes =
  nd_B :: "('l, 'f, outbox) Server"
  nd_dB :: 'db
  nd_net :: outbox
  nd_A :: "'p Router"
  nd_dA :: 'dba
  nd_wA :: 'w

inductive nodes_step ::
  "('db, 'l, 'f, outbox, 'pub) server_libs \<Rightarrow> (string \<Rightarrow> string \<Rightarrow> outbox \<Rightarrow> (string + string) \<times> outbox) \<Rightarrow> ('dba, 'w) router_libs \<Rightarrow>
   peer_id \<Rightarrow> peer_id \<Rightarrow> string \<Rightarrow> ('l, 'f, 'db, 'p, 'dba, 'w) nodes \<Rightarrow> ('l, 'f, 'db, 'p, 'dba, 'w) nodes \<Rightarrow> bool"
  for L handler LA a b k where
  updates: "UpdateTaskStatus L now j st msg (nd_B x) (nd_dB x) = (res, s, d) \<Longrightarrow>
     nodes_step L handler LA a b k x (x\<lparr>nd_B := s, nd_dB := d\<rparr>)"
| completes: "CompleteTask L now j arts msg (nd_B x) (nd_dB x) = (res, s, d) \<Longrightarrow>
     nodes_step L handler LA a b k x (x\<lparr>nd_B := s, nd_dB := d\<rparr>)"
| fails: "FailTask L now j err (nd_B x) (nd_dB x) = (res, s, d) \<Longrightarrow>
     nodes_step L handler LA a b k x (x\<lparr>nd_B := s, nd_dB := d\<rparr>)"
| reports: "n < length (background (nd_B x)) \<Longrightarrow> run_background L i handler n (nd_B x) (nd_dB x) (nd_net x) = (s, d, w) \<Longrightarrow>
     nodes_step L handler LA a b k x (x\<lparr>nd_B := s, nd_dB := d, nd_net := w\<rparr>)"
| receives: "\<not> submits (lib_pb (sl_router L)) k (i, p, dat) \<Longrightarrow>
     HandleMessage (sl_router L) i p dat (srv_router (nd_B x), nd_dB x, nd_net x) = (r, d, w) \<Longrightarrow>
     nodes_step L handler LA a b k x (x\<lparr>nd_B := (nd_B x)\<lparr>srv_router := r\<rparr>, nd_dB := d, nd_net := w\<rparr>)"
| delivers: "(a, dat) \<in> set (nd_net x) \<Longrightarrow> HandleMessage LA i b dat (nd_A x, nd_dA x, nd_wA x) = (r, d, w) \<Longrightarrow>
     nodes_step L handler LA a b k x (x\<lparr>nd_A := r, nd_dA := d, nd_wA := w\<rparr>)"

text \<open>The states that the system goes through, the last one at the end.\<close>

inductive nodes_run ::
  "('db, 'l, 'f, outbox, 'pub) server_libs \<Rightarrow> (string \<Rightarrow> string \<Rightarrow> outbox \<Rightarrow> (string + string) \<times> outbox) \<Rightarrow> ('dba, 'w) router_libs \<Rightarrow>
   peer_id \<Rightarrow> peer_id \<Rightarrow> string \<Rightarrow> ('l, 'f, 'db, 'p, 'dba, 'w) nodes list \<Rightarrow> ('l, 'f, 'db, 'p, 'dba, 'w) nodes \<Rightarrow> bool"
  for L handler LA a b k where
  starts: "background (nd_B x) = [] \<Longrightarrow> nd_net x = [] \<Longrightarrow> nodes_run L handler LA a b k [x] x"
| goes_on: "nodes_run L handler LA a b k xs x \<Longrightarrow> nodes_step L handler LA a b k x y \<Longrightarrow> nodes_run L handler LA a b k (xs @ [y]) y"

abbreviation status_B :: "string \<Rightarrow> ('l, 'f, 'db, 'p, 'dba, 'w) nodes \<Rightarrow> TaskStatus option" where
  "status_B k x \<equiv> map_option Status (srv_tasks (nd_B x) k)"

abbreviation status_A :: "string \<Rightarrow> ('l, 'f, 'db, 'p, 'dba, 'w) nodes \<Rightarrow> TaskStatus option" where
  "status_A k x \<equiv> map_option Status (tasks (engine (nd_A x)) k)"

section \<open>What is on its way\<close>

text \<open>The task and the status that a goroutine reports, and what a message asks for; acknowledgements ask for nothing.\<close>

fun job_says :: "bg_job \<Rightarrow> (peer_id \<times> string \<times> TaskStatus) option" where
  "job_says (BgStatusUpdate p j st m) = Some (p, j, ProtoToTaskStatus st)"
| "job_says (BgComplete p j arts m) = Some (p, j, StatusCompleted)"
| "job_says (BgFail p j e) = Some (p, j, StatusFailed)"
| "job_says _ = None"

definition asks_for :: "pb_codec \<Rightarrow> bytes \<Rightarrow> (string \<times> TaskStatus) option \<Rightarrow> bool" where
  "asks_for P dat m \<longleftrightarrow>
     (\<exists>env. pb_Unmarshal P dat = Some env
        \<and> (\<forall>i q. message_op i q env = map_option (\<lambda>(j, st). OpTransition (ri_clock i 0) j st) m))"

text \<open>Every report that waits or is on the network is of a status in \<open>S\<close>, as far as task \<open>k\<close> is concerned.\<close>

definition told :: "pb_codec \<Rightarrow> string \<Rightarrow> TaskStatus set \<Rightarrow> ('l, 'f, 'db, 'p, 'dba, 'w) nodes \<Rightarrow> bool" where
  "told P k S x \<longleftrightarrow>
     (\<forall>job\<in>set (background (nd_B x)). \<exists>p j st. job_says job = Some (p, j, st) \<and> (j = k \<longrightarrow> st \<in> S))
     \<and> (\<forall>(q, dat)\<in>set (nd_net x). \<exists>m. asks_for P dat m \<and> (\<forall>st. m = Some (k, st) \<longrightarrow> st \<in> S))"

lemma told_mono: "told P k S x \<Longrightarrow> S \<subseteq> T \<Longrightarrow> told P k T x"
  unfolding told_def by (fastforce split: prod.splits)

lemma job_reports_on: "job_says job = Some (p, j, st) \<Longrightarrow> reports_on j p job = Some st"
  by (cases job) auto

text \<open>What a call of the agent does to task \<open>k\<close> and to the goroutines.\<close>

lemma call_effect:
  assumes "move_and_report L now j new mk s d = (res, s', d')" and "\<And>p. job_says (mk p) = Some (p, j, new)"
  shows "(srv_tasks s' k = srv_tasks s k \<or> (\<exists>t. srv_tasks s k = Some t \<and> status_step (Status t) new
      \<and> map_option Status (srv_tasks s' k) = Some new))
    \<and> (background s' = background s \<or> (\<exists>job p. background s' = background s @ [job] \<and> job_says job = Some (p, j, new)
        \<and> map_option Status (srv_tasks s' j) = Some new))"
  using move_and_report_spec [of L now j new mk s d] assms
  by (cases res) (auto simp: moves_and_reports_def split: option.splits if_splits)

lemma told_call:
  assumes "told P k S x" and "move_and_report L now j new mk (nd_B x) (nd_dB x) = (res, s, d)" and "\<And>p. job_says (mk p) = Some (p, j, new)"
  shows "told P k (S \<union> set_option (map_option Status (srv_tasks s k))) (x\<lparr>nd_B := s, nd_dB := d\<rparr>)"
proof -
  define T where "T = S \<union> set_option (map_option Status (srv_tasks s k))"
  have m: "told P k T x" using assms(1) by (rule told_mono) (simp add: T_def)
  have "background s = background (nd_B x) \<or> (\<exists>job p. background s = background (nd_B x) @ [job] \<and> job_says job = Some (p, j, new)
      \<and> (j = k \<longrightarrow> new \<in> T))"
    using call_effect [OF assms(2,3)] by (metis T_def UnI2 option.set_intros)
  with m show ?thesis unfolding T_def [symmetric] told_def by auto
qed

lemma told_report:
  assumes "told P k S x" and "linked (sl_router L)" "pb_codec_ok (lib_pb (sl_router L))" "P = lib_pb (sl_router L)"
    and "n < length (background (nd_B x))" "run_background L i handler n (nd_B x) (nd_dB x) (nd_net x) = (s, d, w)"
  shows "told P k S (x\<lparr>nd_B := s, nd_dB := d, nd_net := w\<rparr>) \<and> srv_tasks s = srv_tasks (nd_B x)"
proof -
  let ?job = "background (nd_B x) ! n"
  let ?s = "(nd_B x)\<lparr>background := take n (background (nd_B x)) @ drop (Suc n) (background (nd_B x))\<rparr>"
  obtain p j st where j: "job_says ?job = Some (p, j, st)" "j = k \<longrightarrow> st \<in> S"
    using assms(1,5) nth_mem unfolding told_def by blast
  have "run_job L i handler ?job ?s (nd_dB x) (nd_net x) = (s, d, w)"
    using assms(5,6) by (simp add: run_background_nth del: run_job.simps)
  note r = run_report [OF job_reports_on [OF j(1)] assms(2,3) this]
  have b: "set (background s) \<subseteq> set (background (nd_B x))"
    using r by (auto dest: in_set_takeD in_set_dropD)
  have "w = nd_net x \<or> (\<exists>dat. w = nd_net x @ [(p, dat)] \<and> asks_for P dat (Some (j, st)))"
    using r assms(4) unfolding asks_for_def by auto
  then show ?thesis using assms(1) b j(2) r unfolding told_def by auto
qed

lemma HandleMessage_outbox:
  assumes "linked L" "pb_codec_ok (lib_pb L)" "HandleMessage L i p dat (r, d, w) = (r', d', w')"
  shows "w' = w \<or> (\<exists>ack. w' = w @ [(p, ack)] \<and> asks_for (lib_pb L) ack None)"
proof (cases "\<exists>env. pb_Unmarshal (lib_pb L) dat = Some env \<and> admitted p env r")
  case True
  then obtain env where env: "pb_Unmarshal (lib_pb L) dat = Some env" "admitted p env r" by blast
  obtain ack r1 d1 where "dispatch L i p env (after_checks p env r) d = (ack, r1, d1)" by (metis prod_cases3)
  with assms(3) have "w' = w \<or> w' = snd (SendAck (lib_pb L) (sendFn L) (ri_uuid2 i) (ri_clock i 4) p (EnvelopeId env) w)"
    by (auto simp: HandleMessage_admitted [OF env] split: if_splits)
  then show ?thesis
    using assms(1,2) by (auto simp: SendAck_def linked_def pb_codec_ok_def asks_for_def message_op_def Let_def split: option.splits)
next
  case False
  show ?thesis
  proof (cases "pb_Unmarshal (lib_pb L) dat")
    case None
    with assms(3) show ?thesis by (simp add: HandleMessage_garbage)
  next
    case (Some env)
    with False HandleMessage_refused [OF Some, of p r i d w] assms(3) show ?thesis by auto
  qed
qed

lemma told_receive:
  assumes "told P k S x" and "linked (sl_router L)" "pb_codec_ok (lib_pb (sl_router L))" "P = lib_pb (sl_router L)"
    and "HandleMessage (sl_router L) i p dat (srv_router (nd_B x), nd_dB x, nd_net x) = (r, d, w)"
  shows "told P k S (x\<lparr>nd_B := (nd_B x)\<lparr>srv_router := r\<rparr>, nd_dB := d, nd_net := w\<rparr>)"
  using HandleMessage_outbox [OF assms(2,3,5)] assms(1,4) unfolding told_def by auto

section \<open>What the originator shows\<close>

text \<open>A report that A receives leaves task \<open>k\<close> alone or moves it to the status that is reported.\<close>

lemma delivered:
  assumes "asks_for (lib_pb LA) dat m" and "HandleMessage LA i b dat (r, d, w) = (r', d', w')"
  shows "tasks (engine r') k = tasks (engine r) k
    \<or> (\<exists>t st. tasks (engine r) k = Some t \<and> m = Some (k, st) \<and> status_step (Status t) st \<and> map_option Status (tasks (engine r') k) = Some st)"
proof -
  obtain env where env: "pb_Unmarshal (lib_pb LA) dat = Some env"
      "message_op i b env = map_option (\<lambda>(j, st). OpTransition (ri_clock i 0) j st) m"
    using assms(1) unfolding asks_for_def by blast
  show ?thesis
  proof (cases "admitted b env r")
    case False
    then show ?thesis using HandleMessage_refused [OF env(1), of b r i d w] assms(2) by auto
  next
    case True
    obtain ack r1 d1 where dsp: "dispatch LA i b env (after_checks b env r) d = (ack, r1, d1)" by (metis prod_cases3)
    then have "r1 = r'" using assms(2) by (simp add: HandleMessage_admitted [OF env(1) True])
    with dispatch_engine [OF dsp] env(2)
    obtain c where run: "run_op_option (lib_bolt LA) (lib_json LA) (map_option (\<lambda>(j, st). OpTransition (ri_clock i 0) j st) m) (engine r, d, subs r)
        = (engine r', d1, c)" by auto
    show ?thesis
    proof (cases m)
      case None
      with run show ?thesis by (simp add: run_op_option_def)
    next
      case (Some js)
      obtain j st where js: "m = Some (j, st)" using Some by (cases js) auto
      then have e: "engine r' = fst (snd (TransitionTask (lib_bolt LA) (lib_json LA) (ri_clock i 0) j st (engine r) d (subs r)))"
        using run by (simp add: run_op_option_def)
      show ?thesis
      proof (cases "\<exists>t. tasks (engine r) j = Some t \<and> status_step (Status t) st")
        case True
        then obtain t where t: "tasks (engine r) j = Some t" "status_step (Status t) st" by blast
        then have "tasks (engine r') = (tasks (engine r))(j \<mapsto> t\<lparr>Status := st, UpdatedAt := ri_clock i 0\<rparr>)"
          unfolding e by (simp add: TransitionTask_ok [OF t] Let_def)
        with js t show ?thesis by auto
      next
        case False
        from TransitionTask_err [OF False, of "lib_bolt LA" "lib_json LA" "ri_clock i 0" d "subs r"] e show ?thesis by auto
      qed
    qed
  qed
qed

text \<open>How a step moves the task on node B.\<close>

lemma call_moves:
  assumes "move_and_report L now j new mk s d = (res, s', d')" and "\<And>p. job_says (mk p) = Some (p, j, new)"
    and "srv_tasks s k = Some t"
  shows "\<exists>t'. srv_tasks s' k = Some t' \<and> status_step\<^sup>*\<^sup>* (Status t) (Status t')"
  using call_effect [OF assms(1,2), of k] assms(3) by auto

lemma step_B:
  assumes "nodes_step L handler LA a b k x y" and "srv_tasks (nd_B x) k = Some t"
    and "linked (sl_router L)" "pb_codec_ok (lib_pb (sl_router L))" "told (lib_pb (sl_router L)) k S x"
  shows "\<exists>t'. srv_tasks (nd_B y) k = Some t' \<and> status_step\<^sup>*\<^sup>* (Status t) (Status t')"
  using assms(1)
proof (cases rule: nodes_step.cases)
  case (updates now j st msg res s d)
  then show ?thesis using call_moves [OF updates(2) [unfolded UpdateTaskStatus_def] _ assms(2)] by simp
next
  case (completes now j arts msg res s d)
  then show ?thesis using call_moves [OF completes(2) [unfolded CompleteTask_def] _ assms(2)] by simp
next
  case (fails now j err res s d)
  then show ?thesis using call_moves [OF fails(2) [unfolded FailTask_def] _ assms(2)] by simp
next
  case (reports n i s d w)
  then show ?thesis using told_report [OF assms(5,3,4) refl reports(2,3)] assms(2) by auto
next
  case (receives i p dat r d w)
  then show ?thesis using HandleMessage_status [OF receives(3,2) assms(2)] by auto
next
  case (delivers dat i r d w)
  then show ?thesis using assms(2) by auto
qed

lemma told_step:
  assumes "nodes_step L handler LA a b k x y" and "linked (sl_router L)" "pb_codec_ok (lib_pb (sl_router L))"
    and "told (lib_pb (sl_router L)) k S x"
  shows "told (lib_pb (sl_router L)) k (S \<union> set_option (status_B k y)) y"
  using assms(1)
proof (cases rule: nodes_step.cases)
  case (updates now j st msg res s d)
  then show ?thesis using told_call [OF assms(4) updates(2) [unfolded UpdateTaskStatus_def]] by simp
next
  case (completes now j arts msg res s d)
  then show ?thesis using told_call [OF assms(4) completes(2) [unfolded CompleteTask_def]] by simp
next
  case (fails now j err res s d)
  then show ?thesis using told_call [OF assms(4) fails(2) [unfolded FailTask_def]] by simp
next
  case (reports n i s d w)
  then show ?thesis using told_report [OF assms(4,2,3) refl reports(2,3)] by (auto elim: told_mono)
next
  case (receives i p dat r d w)
  then show ?thesis using told_receive [OF assms(4,2,3) refl receives(3)] by (auto elim: told_mono)
next
  case (delivers dat i r d w)
  then have "told (lib_pb (sl_router L)) k S y" using assms(4) by (simp add: told_def)
  then show ?thesis by (auto elim: told_mono)
qed

lemma step_A:
  assumes "nodes_step L handler LA a b k x y" and "lib_pb LA = lib_pb (sl_router L)" and "told (lib_pb (sl_router L)) k S x"
  shows "tasks (engine (nd_A y)) k = tasks (engine (nd_A x)) k
    \<or> (\<exists>t st. tasks (engine (nd_A x)) k = Some t \<and> st \<in> S \<and> status_step (Status t) st \<and> status_A k y = Some st)"
  using assms(1)
proof (cases rule: nodes_step.cases)
  case (delivers dat i r d w)
  obtain m where m: "asks_for (lib_pb LA) dat m" "\<forall>st. m = Some (k, st) \<longrightarrow> st \<in> S"
    using assms(2,3) delivers(2) unfolding told_def by fastforce
  from delivered [OF m(1) delivers(3), of k] m(2) delivers(1) show ?thesis by auto
qed auto

section \<open>The nodes agree\<close>

definition statuses_B :: "string \<Rightarrow> ('l, 'f, 'db, 'p, 'dba, 'w) nodes list \<Rightarrow> TaskStatus set" where
  "statuses_B k xs = (\<Union>y\<in>set xs. set_option (status_B k y))"

definition agreeing :: "pb_codec \<Rightarrow> string \<Rightarrow> TaskStatus \<Rightarrow> ('l, 'f, 'db, 'p, 'dba, 'w) nodes list \<Rightarrow> ('l, 'f, 'db, 'p, 'dba, 'w) nodes \<Rightarrow> bool" where
  "agreeing P k s0 xs x \<longleftrightarrow> told P k (statuses_B k xs) x
     \<and> (\<exists>t. srv_tasks (nd_B x) k = Some t \<and> (\<forall>st\<in>statuses_B k xs. status_step\<^sup>*\<^sup>* st (Status t)))
     \<and> (\<exists>t. tasks (engine (nd_A x)) k = Some t \<and> Status t \<in> statuses_B k xs \<and> status_step\<^sup>*\<^sup>* s0 (Status t))"

lemma agreeing_step:
  assumes "agreeing (lib_pb (sl_router L)) k s0 xs x" and "nodes_step L handler LA a b k x y"
    and "linked (sl_router L)" "pb_codec_ok (lib_pb (sl_router L))" "lib_pb LA = lib_pb (sl_router L)"
  shows "agreeing (lib_pb (sl_router L)) k s0 (xs @ [y]) y"
proof -
  have S: "statuses_B k (xs @ [y]) = statuses_B k xs \<union> set_option (status_B k y)" by (auto simp: statuses_B_def)
  have told: "told (lib_pb (sl_router L)) k (statuses_B k xs) x" using assms(1) by (simp add: agreeing_def)
  obtain t where t: "srv_tasks (nd_B x) k = Some t" "\<forall>st\<in>statuses_B k xs. status_step\<^sup>*\<^sup>* st (Status t)"
    using assms(1) by (auto simp: agreeing_def)
  obtain t' where t': "srv_tasks (nd_B y) k = Some t'" "status_step\<^sup>*\<^sup>* (Status t) (Status t')"
    using step_B [OF assms(2) t(1) assms(3,4) told] by blast
  then have B: "\<forall>st\<in>statuses_B k (xs @ [y]). status_step\<^sup>*\<^sup>* st (Status t')"
    using t(2) unfolding S by (auto intro: rtranclp_trans)
  obtain u where u: "tasks (engine (nd_A x)) k = Some u" "Status u \<in> statuses_B k xs" "status_step\<^sup>*\<^sup>* s0 (Status u)"
    using assms(1) by (auto simp: agreeing_def)
  have "\<exists>u'. tasks (engine (nd_A y)) k = Some u' \<and> Status u' \<in> statuses_B k (xs @ [y]) \<and> status_step\<^sup>*\<^sup>* s0 (Status u')"
    using step_A [OF assms(2,5) told] u unfolding S by (auto intro: rtranclp.rtrancl_into_rtrancl)
  with told_step [OF assms(2-4) told] t'(1) B show ?thesis by (auto simp: agreeing_def S)
qed

lemma nodes_run_agrees:
  assumes "nodes_run L handler LA a b k xs x"
    and "linked (sl_router L)" "pb_codec_ok (lib_pb (sl_router L))" "lib_pb LA = lib_pb (sl_router L)"
    and "status_B k (hd xs) = Some s0" "status_A k (hd xs) = Some s0"
  shows "agreeing (lib_pb (sl_router L)) k s0 xs x"
  using assms(1,5,6)
proof (induction rule: nodes_run.induct)
  case (starts x)
  then show ?case by (auto simp: agreeing_def told_def statuses_B_def)
next
  case (goes_on xs x y)
  have "xs \<noteq> []" using goes_on.hyps(1) by (cases rule: nodes_run.cases) auto
  with goes_on have "agreeing (lib_pb (sl_router L)) k s0 xs x" by simp
  then show ?case by (rule agreeing_step [OF _ goes_on.hyps(2) assms(2-4)])
qed


section \<open>An example\<close>


end
