(* ===== verification/Spec2Isabelle.thy ===== *)
theory Spec2Isabelle
  imports Store Engine AckTracker OfflineQueue Router RouterFacts Envelope Glob Policy ConnCore Anycast Dht
    Host Config Bridge Daemon StreamMgr Adapters Identity GrpcServer GrpcFacts Anp McpProxy ProxyFacts Mcp Startup
    Lifecycle LifecycleFacts LifecycleExamples Shutdown ShutdownExamples Metrics Trace TwoNodes
begin

text \<open>
  A verification development for the AgentAnycast node: the daemon \<^verbatim>\<open>agentanycastd\<close>, written in Go, that
  connects agents to each other over libp2p. Paths below are relative to \<^verbatim>\<open>src/\<close>.

  \<^bold>\<open>The program.\<close> A node keeps a table of tasks that move along the A2A life cycle (the engine). The
  router receives envelopes from peers, checks them against the inbound policy, drops duplicates,
  applies them to the engine, notifies subscribers and acknowledges them; it sends envelopes of its
  own and hands them to the acknowledgement tracker, which sends them again until they are
  acknowledged or given up. What cannot be delivered goes to the offline queue in the store and is
  flushed when the peer connects. The Connection Core routes protocol-neutral envelopes over several
  transports under access rules, rate limits, an audit log and payload encryption, and serves as the
  inbound policy of the router and of the HTTP bridge. The anycast router finds a peer for a skill
  through registries, the DHT or several providers. The HTTP bridge translates between JSON-RPC and
  protobuf, the ANP bridge between OpenRPC and protobuf. Streaming artifacts are fanned out to
  subscribers by the stream manager. An application controls the node over gRPC, an AI tool over MCP;
  the MCP proxy runs another MCP server as a subprocess and offers its tools as skills. Identities are
  peer identifiers and their \<open>did:key\<close>, \<open>did:dns\<close> and \<open>did:web\<close> forms. The daemon's \<^verbatim>\<open>main.go\<close> reads the
  configuration and wires the parts together.

  \<^bold>\<open>The theories.\<close>
  \<^item> \<open>Prelude\<close>: time, bytes, big-endian numbers, prefixes, bounded channels, deduplication; the
    collections \<open>go_simps\<close> and \<open>inv_intros\<close>.
  \<^item> \<open>Store\<close> (\<^verbatim>\<open>internal/store/store.go\<close>): the three buckets over an abstract database. The locale
    \<open>bolt_db\<close> states what the code relies on of bbolt (a read after a write, keys in byte order, reads
    that do not write); it is interpreted by an in-memory map.
  \<^item> \<open>Proto\<close>: the protobuf messages with the fields that are used, their codec as an argument; the trace
    carrier of \<^verbatim>\<open>internal/telemetry/propagation.go\<close>.
  \<^item> \<open>Engine\<close> (\<^verbatim>\<open>internal/a2a/engine.go\<close>): the task table, \<open>TransitionTask\<close> with its table of transitions,
    persistence and recovery; the life cycle as the inductive relation \<open>status_step\<close>.
  \<^item> \<open>AckTracker\<close> (\<^verbatim>\<open>internal/a2a/ack_tracker.go\<close>): one retry round as a function, and its critical
    sections interleaved with \<open>Track\<close> and \<open>Acknowledge\<close> as the relation \<open>ack_step\<close>.
  \<^item> \<open>OfflineQueue\<close> (\<^verbatim>\<open>internal/a2a/offline_queue.go\<close>): stamps, expiry, queueing, flushing, counting.
  \<^item> \<open>Router\<close> and \<open>RouterFacts\<close> (\<^verbatim>\<open>internal/a2a/router.go\<close>): every handler, the checks at the head of
    \<open>HandleMessage\<close>, subscriptions and senders; then what they guarantee.
  \<^item> \<open>StreamMgr\<close> (\<^verbatim>\<open>internal/a2a/stream.go\<close>): sessions and channels by reference; the critical sections
    as the relation \<open>stream_step\<close>.
  \<^item> \<open>Envelope\<close> (\<^verbatim>\<open>internal/envelope/envelope.go\<close>), \<open>Glob\<close> (\<open>matchGlob\<close> of \<^verbatim>\<open>internal/core/acl.go\<close> with the
    standard library's \<open>filepath.Match\<close>), \<open>Policy\<close> (\<^verbatim>\<open>acl.go\<close>, \<^verbatim>\<open>ratelimit.go\<close>, \<^verbatim>\<open>audit.go\<close>), \<open>ConnCore\<close>
    (\<^verbatim>\<open>core.go\<close>, \<^verbatim>\<open>crypto.go\<close> and the adapter interfaces). The locale \<open>token_bucket\<close> states what a limiter
    of the rate library grants, \<open>box_laws\<close> that opening inverts sealing; both are interpreted.
  \<^item> \<open>Anycast\<close> and \<open>Dht\<close> (\<^verbatim>\<open>internal/anycast/\<close>): cache, router, strategies, registry, multi-registry,
    composite and DHT providers. The router is verified against the locales \<open>routing_strategy\<close> and
    \<open>discovery_provider\<close>; the random strategy, the composite provider and the DHT implement them.
  \<^item> \<open>Host\<close> (\<^verbatim>\<open>internal/node/\<close>): framing of messages on streams, the stream handlers, agent cards.
  \<^item> \<open>Config\<close> (\<^verbatim>\<open>internal/config/config.go\<close> and the flags of \<^verbatim>\<open>main.go\<close>).
  \<^item> \<open>Bridge\<close> (\<^verbatim>\<open>internal/bridge/\<close> and \<open>HandleInboundTask\<close> of \<^verbatim>\<open>pkg/grpcserver/server.go\<close>).
  \<^item> \<open>Daemon\<close> (\<^verbatim>\<open>cmd/agentanycastd/main.go\<close>): the callbacks that tie the parts together. The locale
    \<open>inbound_gate\<close> is what router and bridge rely on of a policy; the Connection Core implements it.
  \<^item> \<open>Adapters\<close> (\<^verbatim>\<open>internal/adapter/\<close>): the A2A and ANP protocol adapters, the libp2p, HTTP and NATS
    transports, and their registration. Both protocol adapters satisfy the locale \<open>passthrough_protocol\<close>.
  \<^item> \<open>Identity\<close> (\<^verbatim>\<open>internal/crypto/\<close>): keys, decentralised identifiers, credentials, canonical JSON.
  \<^item> \<open>GrpcServer\<close> and \<open>GrpcFacts\<close> (\<^verbatim>\<open>pkg/grpcserver/server.go\<close>): every call of the service, the goroutines
    that calls start as a list of jobs that run in any order, the fan-out of incoming tasks; then what
    they guarantee, together with the router of the other node.
  \<^item> \<open>Anp\<close> (\<^verbatim>\<open>internal/anp/\<close> and the consumer in \<^verbatim>\<open>main.go\<close>).
  \<^item> \<open>McpProxy\<close> and \<open>ProxyFacts\<close> (\<^verbatim>\<open>internal/mcpproxy/\<close>): the subprocess with its callers and its reader as a
    state machine, one action for each atomic step of a goroutine (\<open>proc_step\<close>, \<open>proc_steps\<close>), its
    invariant \<open>proc_inv\<close>, discovery and calls over it.
  \<^item> \<open>Mcp\<close> (\<^verbatim>\<open>internal/mcp/\<close>): the tools of the MCP server, on the same state as the gRPC server.
  \<^item> \<open>Startup\<close> (\<^verbatim>\<open>main.go\<close>, \<open>NewHost\<close> of \<^verbatim>\<open>internal/node/host.go\<close>, \<open>Open\<close> of
    \<^verbatim>\<open>internal/store/store.go\<close>, \<^verbatim>\<open>internal/telemetry/telemetry.go\<close>, the health endpoint of
    \<^verbatim>\<open>internal/metrics/metrics.go\<close>): what happens once at the start and at the end.
  \<^item> \<open>Lifecycle\<close> and \<open>LifecycleFacts\<close> (\<^verbatim>\<open>main.go\<close>): the whole of \<open>main\<close>. A step of the start goes on or ends the daemon
    (\<open>main_exit\<close>); what can be seen is a list of events; deferred calls are a stack. \<open>daemon_start\<close>, \<open>daemon_serve\<close> and
    \<open>daemon_main\<close> put the steps together. The lemmas \<open>grows\<close> follow the log through every step, \<open>started\<close> is what a start
    yields. \<open>LifecycleExamples\<close> has a concrete daemon.
  \<^item> \<open>Shutdown\<close> (\<^verbatim>\<open>main.go\<close>, \<open>ListenAndServe\<close> of \<^verbatim>\<open>pkg/grpcserver/server.go\<close>, \<open>Stop\<close> and \<open>retryLoop\<close> of
    \<^verbatim>\<open>internal/a2a/ack_tracker.go\<close>, the servers of \<^verbatim>\<open>internal/bridge/server.go\<close>, \<^verbatim>\<open>internal/anp/server.go\<close>,
    \<^verbatim>\<open>internal/mcp/server.go\<close>): the end of the daemon interleaved with everything that still runs (\<open>down_step\<close>). The locale
    \<open>stoppable\<close> is what \<open>main\<close> relies on of something it stops; the HTTP servers and the retry loop implement it.
    \<open>ShutdownExamples\<close> applies the theorems.
  \<^item> \<open>Metrics\<close> (\<^verbatim>\<open>internal/metrics/metrics.go\<close> and the places that update the collectors).
  \<^item> \<open>TwoNodes\<close>: a task on two nodes over a network that loses, repeats and reorders, as the relations \<open>nodes_step\<close> and
    \<open>nodes_run\<close> over the servers and routers above.
  \<^item> \<open>Trace\<close> (\<^verbatim>\<open>internal/telemetry/propagation.go\<close>): extraction, with the composite propagator.

  \<^bold>\<open>How the code is rendered.\<close> A struct is a record with the code's field names (prefixed where two
  structs share one), an error an element of a datatype or the text of the error, and a handler a
  function of the state that returns the new one. The world outside is a type variable passed along:
  the functions that act on it (network, database, DHT, file, JSON and protobuf codecs, curve and box
  operations, random numbers) are arguments, and so are the clock and generated identifiers, one
  argument for each reading where a function reads several. The iteration order of a Go map and the
  order in which goroutines finish are arguments too, so theorems hold for every order. Mutexes are
  not modelled: a function is what is done under the lock. Where a lock is released in between,
  the sections are separate and their interleavings are modelled (\<open>ack_step\<close>, \<open>stream_step\<close>, \<open>inc_step\<close>,
  \<open>proc_step\<close>, \<open>down_step\<close>, the jobs of the gRPC server and the notification race of the router). Logging has no effect in the
  model, but for what \<open>main\<close> logs and prints. Times are
  integers in nanoseconds, durations wrap as \<open>int64\<close> where the code subtracts them, bytes and counters
  are words.

  \<^bold>\<open>What is shown.\<close> The engine refines the life cycle, and over any traffic a task only moves along it;
  a crash loses nothing that was written; a task sent by one node is registered by the other and
  acknowledged; its originator is never ahead of the node that executes it, and both finish it in the same way; retries are bounded and end; the offline queue delivers exactly what is due; refused
  messages change nothing and are audited; granted calls stay within the rate; encryption round
  trips; discovery answers and merges what the providers know; framing, cards, stamps, statuses and
  HTTP translation round trip; streams are delivered in order and never panic; the configuration
  follows its precedence. The calls of an agent are steps of the life cycle and are reported to the
  originator, whose task follows; incoming tasks go to every subscriber and nobody panics; the order of
  transports does not matter, and what is sent over NATS arrives; identities convert without loss and
  canonical JSON depends on the value only; an ANP call reaches the other node's task sender and
  returns its result; a proxy call gets the response with its own number in every interleaving, its
  process never panics, and no call outlives the subprocess; the MCP tools keep to their schemas and
  send as gRPC does. The daemon starts when what its configuration asks for works, serves and returns; it releases what it
  acquired in reverse order; the configured rules hold for peers and HTTP clients of a started daemon; a restarted
  daemon has the tasks and the card of the one before; while it ends nothing is taken away from a request that is
  being served, and the end can always be reached; the counters add up to what happened; a span travels with
  its task. Some theorems state behaviour that the code has and does not intend, such
  as a send on a closed channel after a racing unsubscription or a malformed recipient key that
  disables encryption, reports that overtake each other, URLs that can never be reached, ANP tasks that
  no policy sees, a proxy that takes the end of its subprocess for success, an audit log that is closed too early,
  or calls that outlive the database.

  \<^bold>\<open>Bounds.\<close> There is no fuel: the loops are structural recursions or recursions with a measure (the
  reader of a stream decreases the input, the pattern matcher its pattern). Channel capacities, the
  deduplication window of 1024, the 16 MB limits and the retry limit are those of the code. The request
  numbers of the proxy are 64-bit words, and the theorem on them says up to how many calls they differ.
  Functions with a schedule as an argument (\<open>Call\<close>, \<open>DiscoverTools\<close>, \<open>HandleTask\<close> of the proxy) return
  \<open>None\<close> when the call has not returned under that schedule; that calls return is proved separately.

  \<^bold>\<open>Not modelled.\<close> Accessors that return a field, constructors of the standard library's clients, and the text of log
  lines. The functions of \<^verbatim>\<open>internal/crypto/did_web.go\<close> that only call the identity package. Sockets, the exposition format of the
  metrics and the wire formats of JSON-RPC over stdio belong to libraries. The generated protobuf and gRPC code, libp2p, bbolt, NATS, the
  OpenTelemetry, Prometheus and MCP libraries and the identity package are not part of the repository; they are arguments.
\<close>

end
